theory Spec2Isabelle
  imports Complex_Main
begin

section \<open>Floating-point numbers\<close>

text \<open>
  The tensors of model.py hold 32-bit floating-point numbers. A binary format with p
  fraction bits whose smallest positive number is 2 to the power emin consists of 0 and
  of the numbers n * 2^e with an integer n, |n| < 2^(p+1), and e at least emin. Rounding
  to nearest, ties to even, sends a real number to the nearest multiple of the spacing of
  the format around it; \<^verbatim>\<open>float32\<close> has p = 23 and emin = -149, \<^verbatim>\<open>float64\<close> has p = 52
  and emin = -1074.
\<close>

definition pow2 :: "int \<Rightarrow> real" where
  "pow2 e = 2 powr real_of_int e"

text \<open>The nearest integer, a tie going to the even one.\<close>

definition rne :: "real \<Rightarrow> int" where
  "rne q = (let f = \<lfloor>q\<rfloor>; t = q - real_of_int f in
            if t < 1/2 then f else if 1/2 < t then f + 1 else if even f then f else f + 1)"

text \<open>The exponent of the spacing of the format around x.\<close>

definition expo :: "nat \<Rightarrow> int \<Rightarrow> real \<Rightarrow> int" where
  "expo p emin x = max emin (\<lfloor>log 2 \<bar>x\<bar>\<rfloor> - int p)"

definition round_grid :: "nat \<Rightarrow> int \<Rightarrow> real \<Rightarrow> real" where
  "round_grid p emin x =
     (if x = 0 then 0
      else real_of_int (rne (x / pow2 (expo p emin x))) * pow2 (expo p emin x))"

text \<open>
  A \<^verbatim>\<open>float32\<close> value: a number, an infinity, or not-a-number. The two zeros of the
  format are not distinguished. The result of every operation below is rounded, and a
  number that rounds to 2^128 or beyond is an infinity.
\<close>

datatype f32 = Finite real | PInf | NInf | NaN

definition round32 :: "real \<Rightarrow> f32" where
  "round32 x = (let r = round_grid 23 (- 149) x in
     if 2 ^ 128 \<le> r then PInf else if r \<le> - (2 ^ 128) then NInf else Finite r)"

text \<open>
  The arithmetic of IEEE 754 on these values: the exact result, rounded; an infinity
  minus itself, and zero times an infinity, are not-a-number, which every operation
  propagates and every comparison answers with False.
\<close>

instantiation f32 :: "{plus, minus, uminus, times, inverse, ord}"
begin

fun plus_f32 :: "f32 \<Rightarrow> f32 \<Rightarrow> f32" where
  "NaN + y = NaN"
| "x + NaN = NaN"
| "PInf + NInf = NaN"
| "NInf + PInf = NaN"
| "PInf + y = PInf"
| "x + PInf = PInf"
| "NInf + y = NInf"
| "x + NInf = NInf"
| "Finite x + Finite y = round32 (x + y)"

fun uminus_f32 :: "f32 \<Rightarrow> f32" where
  "- Finite x = Finite (- x)"
| "- PInf = NInf"
| "- NInf = PInf"
| "- NaN = NaN"

definition minus_f32 :: "f32 \<Rightarrow> f32 \<Rightarrow> f32" where
  "x - y = x + (- y)" for x y :: f32

fun times_f32 :: "f32 \<Rightarrow> f32 \<Rightarrow> f32" where
  "NaN * y = NaN"
| "x * NaN = NaN"
| "Finite x * Finite y = round32 (x * y)"
| "Finite x * PInf = (if x = 0 then NaN else if 0 < x then PInf else NInf)"
| "Finite x * NInf = (if x = 0 then NaN else if 0 < x then NInf else PInf)"
| "PInf * Finite y = (if y = 0 then NaN else if 0 < y then PInf else NInf)"
| "NInf * Finite y = (if y = 0 then NaN else if 0 < y then NInf else PInf)"
| "PInf * PInf = PInf"
| "PInf * NInf = NInf"
| "NInf * PInf = NInf"
| "NInf * NInf = PInf"

fun divide_f32 :: "f32 \<Rightarrow> f32 \<Rightarrow> f32" where
  "divide_f32 NaN y = NaN"
| "divide_f32 x NaN = NaN"
| "divide_f32 (Finite x) (Finite y) =
     (if y = 0 then (if x = 0 then NaN else if 0 < x then PInf else NInf)
      else round32 (x / y))"
| "divide_f32 (Finite x) y = Finite 0"
| "divide_f32 PInf (Finite y) = (if 0 \<le> y then PInf else NInf)"
| "divide_f32 NInf (Finite y) = (if 0 \<le> y then NInf else PInf)"
| "divide_f32 x y = NaN"

fun inverse_f32 :: "f32 \<Rightarrow> f32" where
  "inverse_f32 (Finite x) = (if x = 0 then PInf else round32 (1 / x))"
| "inverse_f32 NaN = NaN"
| "inverse_f32 x = Finite 0"

fun less_eq_f32 :: "f32 \<Rightarrow> f32 \<Rightarrow> bool" where
  "NaN \<le> y \<longleftrightarrow> False"
| "x \<le> NaN \<longleftrightarrow> False"
| "NInf \<le> y \<longleftrightarrow> True"
| "x \<le> PInf \<longleftrightarrow> True"
| "Finite x \<le> Finite y \<longleftrightarrow> x \<le> y"
| "(x::f32) \<le> y \<longleftrightarrow> False"

fun less_f32 :: "f32 \<Rightarrow> f32 \<Rightarrow> bool" where
  "NaN < y \<longleftrightarrow> False"
| "x < NaN \<longleftrightarrow> False"
| "PInf < y \<longleftrightarrow> False"
| "x < NInf \<longleftrightarrow> False"
| "Finite x < Finite y \<longleftrightarrow> x < y"
| "(x::f32) < y \<longleftrightarrow> True"

instance ..

end

text \<open>\<^verbatim>\<open>torch.isfinite\<close>: neither an infinity nor not-a-number.\<close>

fun isfinite :: "f32 \<Rightarrow> bool" where
  "isfinite (Finite x) = True"
| "isfinite x = False"

text \<open>
  The elementary functions. What an implementation returns for them differs from the
  exact value by a rounding error that depends on the library; they are modelled as
  correctly rounded. The statements below use of them only that they are monotone, that
  exp is not negative and tanh lies between -1 and 1, and their values where the exact
  result is far from a rounding boundary.
\<close>

fun torch_exp :: "f32 \<Rightarrow> f32" where
  "torch_exp (Finite x) = round32 (exp x)"
| "torch_exp PInf = PInf"
| "torch_exp NInf = Finite 0"
| "torch_exp NaN = NaN"

fun torch_log1p :: "f32 \<Rightarrow> f32" where
  "torch_log1p (Finite x) =
     (if x < - 1 then NaN else if x = - 1 then NInf else round32 (ln (1 + x)))"
| "torch_log1p PInf = PInf"
| "torch_log1p NInf = NaN"
| "torch_log1p NaN = NaN"

fun torch_tanh :: "f32 \<Rightarrow> f32" where
  "torch_tanh (Finite x) = round32 (tanh x)"
| "torch_tanh PInf = Finite 1"
| "torch_tanh NInf = Finite (- 1)"
| "torch_tanh NaN = NaN"

text \<open>
  \<^verbatim>\<open>numpy\<close> computes in \<^verbatim>\<open>float64\<close>. Of its arithmetic, the file uses
  \<^verbatim>\<open>np.log(np.exp(x) - 1)\<close> on a Python number, and the result meets a \<^verbatim>\<open>float32\<close>
  tensor, where it is rounded to \<^verbatim>\<open>float32\<close>.
\<close>

datatype f64 = Finite64 real | PInf64 | NInf64 | NaN64

definition round64 :: "real \<Rightarrow> f64" where
  "round64 x = (let r = round_grid 52 (- 1074) x in
     if 2 ^ 1024 \<le> r then PInf64 else if r \<le> - (2 ^ 1024) then NInf64 else Finite64 r)"

fun np_exp :: "f64 \<Rightarrow> f64" where
  "np_exp (Finite64 x) = round64 (exp x)"
| "np_exp PInf64 = PInf64"
| "np_exp NInf64 = Finite64 0"
| "np_exp NaN64 = NaN64"

text \<open>\<^verbatim>\<open>x - 1\<close> for a \<^verbatim>\<open>float64\<close> x.\<close>

fun np_minus_one :: "f64 \<Rightarrow> f64" where
  "np_minus_one (Finite64 x) = round64 (x - 1)"
| "np_minus_one x = x"

fun np_log :: "f64 \<Rightarrow> f64" where
  "np_log (Finite64 x) =
     (if x < 0 then NaN64 else if x = 0 then NInf64 else round64 (ln x))"
| "np_log PInf64 = PInf64"
| "np_log NInf64 = NaN64"
| "np_log NaN64 = NaN64"

fun to_float32 :: "f64 \<Rightarrow> f32" where
  "to_float32 (Finite64 x) = round32 x"
| "to_float32 PInf64 = PInf"
| "to_float32 NInf64 = NInf"
| "to_float32 NaN64 = NaN"

section \<open>Tensors and the PyTorch primitives used by model.py\<close>

text \<open>
  The modules of model.py work on batches: two-dimensional tensors, one row per batch
  entry. A tensor is modelled by its rows together with its width, so that an empty batch
  still has a width, as a PyTorch tensor of shape (0, n) has. The entries are \<^verbatim>\<open>float32\<close>
  values.
\<close>

datatype tensor = Tensor (ncols: nat) (rows: "f32 list list")

definition nrows :: "tensor \<Rightarrow> nat" where
  "nrows t = length (rows t)"

definition tensor_ok :: "tensor \<Rightarrow> bool" where
  "tensor_ok t = list_all (\<lambda>r. length r = ncols t) (rows t)"

text \<open>The shape of a tensor, as \<^verbatim>\<open>t.shape\<close> reports it.\<close>

definition shape :: "tensor \<Rightarrow> nat \<times> nat" where
  "shape t = (nrows t, ncols t)"

text \<open>All entries of a tensor satisfy a predicate.\<close>

definition all_entries :: "(f32 \<Rightarrow> bool) \<Rightarrow> tensor \<Rightarrow> bool" where
  "all_entries P t = list_all (list_all P) (rows t)"

text \<open>
  The exceptions the code can raise: PyTorch reports every size mismatch as a
  RuntimeError, and the argument validation of a distribution raises a ValueError.
\<close>

datatype error = RuntimeError | ValueError

definition ebind :: "error + 'a \<Rightarrow> ('a \<Rightarrow> error + 'b) \<Rightarrow> error + 'b" where
  "ebind x f = (case x of Inl e \<Rightarrow> Inl e | Inr v \<Rightarrow> f v)"

text \<open>
  \<^verbatim>\<open>torch.cat([a, b], dim=1)\<close>: the tensors must agree in every dimension but the
  first one named, here in the batch size; the rows are joined.
\<close>

definition cat1 :: "tensor \<Rightarrow> tensor \<Rightarrow> error + tensor" where
  "cat1 a b =
     (if nrows a \<noteq> nrows b then Inl RuntimeError
      else Inr (Tensor (ncols a + ncols b) (map2 (@) (rows a) (rows b))))"

text \<open>An elementwise function applied to a tensor (activations, softplus, tanh).\<close>

definition map_tensor :: "(f32 \<Rightarrow> f32) \<Rightarrow> tensor \<Rightarrow> tensor" where
  "map_tensor f t = Tensor (ncols t) (map (map f) (rows t))"

text \<open>
  One entry of \<^verbatim>\<open>x @ W.T + b\<close> is the sum of the bias entry and of the products of a row
  w of the weight with a row x of the input. In floating point the value of a sum depends
  on the order in which it is accumulated, and PyTorch leaves this order to the matrix
  product of the underlying library, which may choose it by the sizes of the operands:
  a slice of a batched result need not be bitwise the result on the slice. The order is
  therefore a parameter of a layer, its kernel: a function that, for the batch size of
  the call, maps w, x and the bias entry to the entry of the output. Two kernels are
  defined here, summing from the left, starting with the bias, and from the right.
\<close>

type_synonym kernel = "nat \<Rightarrow> f32 list \<Rightarrow> f32 list \<Rightarrow> f32 \<Rightarrow> f32"

definition sum_forward :: "f32 list \<Rightarrow> f32 list \<Rightarrow> f32 \<Rightarrow> f32" where
  "sum_forward w x c = foldl (+) c (map2 (*) w x)"

definition sum_backward :: "f32 list \<Rightarrow> f32 list \<Rightarrow> f32 \<Rightarrow> f32" where
  "sum_backward w x c = foldr (+) (map2 (*) w x) c"

text \<open>One row through an affine map: \<^verbatim>\<open>x @ W.T + b\<close> for a single row x.\<close>

definition affine ::
  "(f32 list \<Rightarrow> f32 list \<Rightarrow> f32 \<Rightarrow> f32) \<Rightarrow> f32 list list \<Rightarrow> f32 list \<Rightarrow> f32 list \<Rightarrow> f32 list" where
  "affine k W b x = map2 (\<lambda>w c. k w x c) W b"

text \<open>
  \<^verbatim>\<open>nn.Linear(in_features, out_features)\<close>: the weight has shape
  (out_features, in_features), the bias has out_features entries. The forward pass raises
  when the width of the input is not in_features.
\<close>

record Linear =
  in_features :: nat
  out_features :: nat
  weight :: "f32 list list"
  bias :: "f32 list"
  kernel :: kernel

definition Linear_ok :: "nat \<Rightarrow> nat \<Rightarrow> Linear \<Rightarrow> bool" where
  "Linear_ok i out l =
     (in_features l = i \<and> out_features l = out \<and> length (weight l) = out \<and>
      list_all (\<lambda>w. length w = i) (weight l) \<and> length (bias l) = out)"

definition Linear_forward :: "Linear \<Rightarrow> tensor \<Rightarrow> error + tensor" where
  "Linear_forward l x =
     (if ncols x \<noteq> in_features l then Inl RuntimeError
      else Inr (Tensor (out_features l)
                  (map (affine (kernel l (nrows x)) (weight l) (bias l)) (rows x))))"

text \<open>\<^verbatim>\<open>torch.sigmoid\<close>, computed as 1 / (1 + exp(-x)).\<close>

definition torch_sigmoid :: "f32 \<Rightarrow> f32" where
  "torch_sigmoid x = Finite 1 / (Finite 1 + torch_exp (- x))"

text \<open>
  \<^verbatim>\<open>nn.GRUCell(input_size, hidden_size)\<close>: the weights stack the reset, update and new
  gates, in this order. With gi = W_i x + b_i and gh = W_h h + b_h, the library computes
  r = sigmoid(gh_r + gi_r), z = sigmoid(gh_z + gi_z), n = tanh(gi_n + gh_n * r) and
  h' = (h - n) * z + n, which is the documented (1 - z) * n + z * h in the order of
  operations of the implementation on the CPU.
\<close>

record GRUCell =
  input_size :: nat
  hidden_size :: nat
  weight_ih :: "f32 list list"
  weight_hh :: "f32 list list"
  bias_ih :: "f32 list"
  bias_hh :: "f32 list"
  cell_kernel :: kernel

definition GRUCell_ok :: "nat \<Rightarrow> nat \<Rightarrow> GRUCell \<Rightarrow> bool" where
  "GRUCell_ok i h c =
     (input_size c = i \<and> hidden_size c = h \<and>
      length (weight_ih c) = 3 * h \<and> list_all (\<lambda>w. length w = i) (weight_ih c) \<and>
      length (weight_hh c) = 3 * h \<and> list_all (\<lambda>w. length w = h) (weight_hh c) \<and>
      length (bias_ih c) = 3 * h \<and> length (bias_hh c) = 3 * h)"

definition gru_row :: "GRUCell \<Rightarrow> nat \<Rightarrow> f32 list \<Rightarrow> f32 list \<Rightarrow> f32 list" where
  "gru_row c b x h =
     (let n = hidden_size c;
          gi = affine (cell_kernel c b) (weight_ih c) (bias_ih c) x;
          gh = affine (cell_kernel c b) (weight_hh c) (bias_hh c) h;
          r = map2 (\<lambda>a b. torch_sigmoid (b + a)) (take n gi) (take n gh);
          z = map2 (\<lambda>a b. torch_sigmoid (b + a)) (take n (drop n gi)) (take n (drop n gh));
          g = map2 (\<lambda>a rb. torch_tanh (a + rb)) (drop (2 * n) gi) (map2 (*) (drop (2 * n) gh) r)
      in map2 (\<lambda>(zi, ni) hi. (hi - ni) * zi + ni) (zip z g) h)"

text \<open>
  The forward pass checks the width of the input, the batch size of the hidden state
  against that of the input, and the width of the hidden state.
\<close>

definition GRUCell_forward :: "GRUCell \<Rightarrow> tensor \<Rightarrow> tensor \<Rightarrow> error + tensor" where
  "GRUCell_forward c x hx =
     (if ncols x \<noteq> input_size c then Inl RuntimeError
      else if nrows x \<noteq> nrows hx then Inl RuntimeError
      else if ncols hx \<noteq> hidden_size c then Inl RuntimeError
      else Inr (Tensor (hidden_size c) (map2 (gru_row c (nrows x)) (rows x) (rows hx))))"

text \<open>
  \<^verbatim>\<open>F.softplus\<close> with its defaults beta = 1 and threshold = 20: above the threshold
  the function is the identity, below it log1p(exp(x)). \<^verbatim>\<open>F.elu\<close> with alpha = 1, the
  default activation of every module of the file: x for x > 0, and exp(x) - 1 otherwise.
  Not-a-number fails both comparisons as the implementation writes them.
\<close>

definition F_softplus :: "f32 \<Rightarrow> f32" where
  "F_softplus x = (if Finite 20 < x then x else torch_log1p (torch_exp x))"

definition F_elu :: "f32 \<Rightarrow> f32" where
  "F_elu x = (if x \<le> Finite 0 then torch_exp x - Finite 1 else x)"

text \<open>
  \<^verbatim>\<open>torch.distributions.Normal(loc, scale)\<close>. Whether the constructor validates its
  arguments is a setting of the library, on by default from PyTorch 1.8; it is a
  parameter here. The validation raises a ValueError unless every entry of loc is a
  finite number and every entry of scale is greater than 0 (an infinite scale passes,
  not-a-number does not). The two arguments have the same shape at every call of the
  file, so nothing is broadcast.
\<close>

record Normal =
  loc :: tensor
  scale :: tensor

definition Normal_init :: "bool \<Rightarrow> tensor \<Rightarrow> tensor \<Rightarrow> error + Normal" where
  "Normal_init validate_args mean stddev =
     (if validate_args \<and>
         \<not> (all_entries isfinite mean \<and> all_entries (\<lambda>x. Finite 0 < x) stddev)
      then Inl ValueError
      else Inr \<lparr>loc = mean, scale = stddev\<rparr>)"

text \<open>
  The random number generator of the library: the numbers it will hand out, and how many
  it has handed out. \<^verbatim>\<open>rsample\<close> of a normal distribution draws standard normal noise
  of the shape of the distribution and returns \<^verbatim>\<open>loc + eps * scale\<close>; nothing is
  assumed about the numbers drawn.
\<close>

record generator =
  noise :: "nat \<Rightarrow> f32"
  pos :: nat

definition standard_normal :: "nat \<Rightarrow> nat \<Rightarrow> generator \<Rightarrow> tensor \<times> generator" where
  "standard_normal b n g =
     (Tensor n (map (\<lambda>i. map (\<lambda>j. noise g (pos g + i * n + j)) [0..<n]) [0..<b]),
      g\<lparr>pos := pos g + b * n\<rparr>)"

text \<open>Two tensors of the same shape combined entry by entry.\<close>

definition map2_tensor :: "(f32 \<Rightarrow> f32 \<Rightarrow> f32) \<Rightarrow> tensor \<Rightarrow> tensor \<Rightarrow> tensor" where
  "map2_tensor f a b = Tensor (ncols a) (map2 (map2 f) (rows a) (rows b))"

definition rsample :: "Normal \<Rightarrow> generator \<Rightarrow> tensor \<times> generator" where
  "rsample d g =
     (let (eps, g') = standard_normal (nrows (loc d)) (ncols (loc d)) g
      in (map2_tensor (+) (loc d) (map2_tensor (*) eps (scale d)), g'))"

section \<open>Encoder\<close>

text \<open>
  The encoder is modelled by the shapes of its tensors, which is what its contract is
  about. \<^verbatim>\<open>nn.Conv2d(in_channels, out_channels, kernel_size, stride)\<close> without padding
  maps (N, C, H, W), C = in_channels, to
  (N, out_channels, (H - kernel_size) div stride + 1, (W - kernel_size) div stride + 1),
  and raises when the channels differ or the kernel does not fit; \<^verbatim>\<open>F.relu\<close> keeps the
  shape.
\<close>

record Conv2d =
  in_channels :: nat
  out_channels :: nat
  kernel_size :: nat
  stride :: nat

type_synonym shape4 = "nat \<times> nat \<times> nat \<times> nat"

definition Conv2d_shape :: "Conv2d \<Rightarrow> shape4 \<Rightarrow> error + shape4" where
  "Conv2d_shape c = (\<lambda>(n, ch, h, w).
     if ch \<noteq> in_channels c \<or> h < kernel_size c \<or> w < kernel_size c then Inl RuntimeError
     else Inr (n, out_channels c, (h - kernel_size c) div stride c + 1,
               (w - kernel_size c) div stride c + 1))"

text \<open>
  \<^verbatim>\<open>x.reshape(n, -1)\<close>: the second size is inferred from the number of elements, which
  n must divide; with n = 0 nothing can be inferred, and PyTorch raises.
\<close>

definition reshape_rows :: "nat \<Rightarrow> shape4 \<Rightarrow> error + (nat \<times> nat)" where
  "reshape_rows n = (\<lambda>(b, ch, h, w).
     if 0 < n \<and> (b * ch * h * w) mod n = 0 then Inr (n, (b * ch * h * w) div n)
     else Inl RuntimeError)"

record Encoder =
  cv1 :: Conv2d
  cv2 :: Conv2d
  cv3 :: Conv2d
  cv4 :: Conv2d

text \<open>\<^verbatim>\<open>Encoder.__init__\<close>, lines 16 to 19.\<close>

definition Encoder_init :: Encoder where
  "Encoder_init =
     \<lparr>cv1 = \<lparr>in_channels = 3, out_channels = 32, kernel_size = 4, stride = 2\<rparr>,
      cv2 = \<lparr>in_channels = 32, out_channels = 64, kernel_size = 4, stride = 2\<rparr>,
      cv3 = \<lparr>in_channels = 64, out_channels = 128, kernel_size = 4, stride = 2\<rparr>,
      cv4 = \<lparr>in_channels = 128, out_channels = 256, kernel_size = 4, stride = 2\<rparr>\<rparr>"

text \<open>
  \<^verbatim>\<open>Encoder.forward\<close>, lines 22 to 26: the shapes after the four convolutions, and the
  shape returned. The reshape takes its first size from \<^verbatim>\<open>hidden\<close>, the output of the
  third convolution.
\<close>

definition Encoder_conv_shapes :: "Encoder \<Rightarrow> shape4 \<Rightarrow> error + (shape4 \<times> shape4 \<times> shape4 \<times> shape4)" where
  "Encoder_conv_shapes e obs =
     ebind (Conv2d_shape (cv1 e) obs) (\<lambda>h1.
     ebind (Conv2d_shape (cv2 e) h1) (\<lambda>h2.
     ebind (Conv2d_shape (cv3 e) h2) (\<lambda>h3.
     ebind (Conv2d_shape (cv4 e) h3) (\<lambda>h4.
     Inr (h1, h2, h3, h4)))))"

definition Encoder_forward_shape :: "Encoder \<Rightarrow> shape4 \<Rightarrow> error + (nat \<times> nat)" where
  "Encoder_forward_shape e obs =
     ebind (Encoder_conv_shapes e obs) (\<lambda>(h1, h2, hidden, h4).
     reshape_rows (fst hidden) h4)"

section \<open>ActionModel\<close>

text \<open>
  The fields of the class. \<^verbatim>\<open>min_stddev\<close> and \<^verbatim>\<open>init_stddev\<close> are Python numbers,
  of \<^verbatim>\<open>float64\<close>; \<^verbatim>\<open>forward\<close> adds them to \<^verbatim>\<open>float32\<close> tensors, an operation that
  rounds the number to \<^verbatim>\<open>float32\<close> first, and the fields of the record hold these
  \<^verbatim>\<open>float32\<close> values. The section stands before that of the RecurrentStateSpaceModel, so
  that the field names the two classes share denote the fields of the latter in the rest
  of the development.
\<close>

record ActionModel =
  fc1 :: Linear
  fc2 :: Linear
  fc3 :: Linear
  fc4 :: Linear
  fc_mean :: Linear
  fc_stddev :: Linear
  act :: "f32 \<Rightarrow> f32"
  min_stddev :: f32
  init_stddev :: f32
  validate_args :: bool

text \<open>
  Line 195, \<^verbatim>\<open>np.log(np.exp(init_stddev) - 1)\<close>, in \<^verbatim>\<open>float64\<close>, and as
  \<^verbatim>\<open>forward\<close> uses it: not-a-number for a negative argument, minus infinity for 0.
\<close>

definition softplus_inverse :: "real \<Rightarrow> f32" where
  "softplus_inverse istd = to_float32 (np_log (np_minus_one (np_exp (Finite64 istd))))"


text \<open>\<^verbatim>\<open>ActionModel.forward\<close>, lines 205 to 208: the hidden layers.\<close>

definition ActionModel_hidden :: "ActionModel \<Rightarrow> tensor \<Rightarrow> tensor \<Rightarrow> error + tensor" where
  "ActionModel_hidden am state rnn_hidden =
     ebind (cat1 state rnn_hidden) (\<lambda>sh.
     ebind (Linear_forward (fc1 am) sh) (\<lambda>y.
     let hidden = map_tensor (act am) y in
     ebind (Linear_forward (fc2 am) hidden) (\<lambda>y.
     let hidden = map_tensor (act am) y in
     ebind (Linear_forward (fc3 am) hidden) (\<lambda>y.
     let hidden = map_tensor (act am) y in
     ebind (Linear_forward (fc4 am) hidden) (\<lambda>y.
     Inr (map_tensor (act am) y))))))"

text \<open>Lines 212 to 218: the mean and the standard deviation of the action distribution.\<close>

definition ActionModel_mean_stddev :: "ActionModel \<Rightarrow> tensor \<Rightarrow> error + (tensor \<times> tensor)" where
  "ActionModel_mean_stddev am hidden =
     ebind (Linear_forward (fc_mean am) hidden) (\<lambda>mean.
     let mean = map_tensor (\<lambda>x. Finite 5 * torch_tanh (x / Finite 5)) mean in
     ebind (Linear_forward (fc_stddev am) hidden) (\<lambda>stddev.
     let stddev = map_tensor (\<lambda>x. F_softplus (x + init_stddev am) + min_stddev am) stddev in
     Inr (mean, stddev)))"

text \<open>
  Lines 220 to 224, and the whole of \<^verbatim>\<open>forward\<close>: with \<^verbatim>\<open>training\<close> the action is
  sampled, and the generator advances.
\<close>

definition ActionModel_forward ::
  "ActionModel \<Rightarrow> tensor \<Rightarrow> tensor \<Rightarrow> bool \<Rightarrow> generator \<Rightarrow> (error + tensor) \<times> generator" where
  "ActionModel_forward am state rnn_hidden training g =
     (case ebind (ActionModel_hidden am state rnn_hidden) (ActionModel_mean_stddev am) of
        Inl e \<Rightarrow> (Inl e, g)
      | Inr (mean, stddev) \<Rightarrow>
          if training then
            (case Normal_init (validate_args am) mean stddev of
               Inl e \<Rightarrow> (Inl e, g)
             | Inr d \<Rightarrow> (let (x, g') = rsample d g in (Inr (map_tensor torch_tanh x), g')))
          else (Inr (map_tensor torch_tanh mean), g))"

section \<open>RecurrentStateSpaceModel\<close>

text \<open>
  The object built by \<^verbatim>\<open>__init__\<close>: the fields of the class, the layers holding the
  current parameter snapshot. \<^verbatim>\<open>validate_args\<close> is the library setting above. The
  activation \<^verbatim>\<open>act\<close> is a function applied entry by entry, as \<^verbatim>\<open>F.elu\<close>, the default,
  is. \<^verbatim>\<open>min_stddev\<close> holds the \<^verbatim>\<open>float32\<close> value of the Python number
  \<^verbatim>\<open>self._min_stddev\<close>, which is what its addition to a \<^verbatim>\<open>float32\<close> tensor uses.
\<close>

record RecurrentStateSpaceModel =
  state_dim :: nat
  action_dim :: nat
  rnn_hidden_dim :: nat
  fc_state_action :: Linear
  fc_rnn_hidden :: Linear
  fc_state_mean_prior :: Linear
  fc_state_stddev_prior :: Linear
  fc_rnn_hidden_embedded_obs :: Linear
  fc_state_mean_posterior :: Linear
  fc_state_stddev_posterior :: Linear
  rnn :: GRUCell
  min_stddev :: f32
  act :: "f32 \<Rightarrow> f32"
  validate_args :: bool

text \<open>
  What \<^verbatim>\<open>__init__(state_dim, action_dim, rnn_hidden_dim, hidden_dim, min_stddev, act)\<close>
  establishes: the sizes of the layers (lines 50 to 57); the values of the weights are
  free, they are initialised at random and updated by the optimizer.
\<close>

definition RSSM_init ::
  "nat \<Rightarrow> nat \<Rightarrow> nat \<Rightarrow> nat \<Rightarrow> real \<Rightarrow> (f32 \<Rightarrow> f32) \<Rightarrow> RecurrentStateSpaceModel \<Rightarrow> bool" where
  "RSSM_init sd ad rd hid ms a m =
     (state_dim m = sd \<and> action_dim m = ad \<and> rnn_hidden_dim m = rd \<and>
      Linear_ok (sd + ad) hid (fc_state_action m) \<and>
      Linear_ok rd hid (fc_rnn_hidden m) \<and>
      Linear_ok hid sd (fc_state_mean_prior m) \<and>
      Linear_ok hid sd (fc_state_stddev_prior m) \<and>
      Linear_ok (rd + 1024) hid (fc_rnn_hidden_embedded_obs m) \<and>
      Linear_ok hid sd (fc_state_mean_posterior m) \<and>
      Linear_ok hid sd (fc_state_stddev_posterior m) \<and>
      GRUCell_ok hid rd (rnn m) \<and>
      min_stddev m = round32 ms \<and> act m = a)"

text \<open>\<^verbatim>\<open>prior\<close>, lines 83 to 89.\<close>

definition prior ::
  "RecurrentStateSpaceModel \<Rightarrow> tensor \<Rightarrow> tensor \<Rightarrow> tensor \<Rightarrow> error + (Normal \<times> tensor)" where
  "prior m state action rnn_hidden =
     ebind (cat1 state action) (\<lambda>sa.
     ebind (Linear_forward (fc_state_action m) sa) (\<lambda>y.
     let hidden = map_tensor (act m) y in
     ebind (GRUCell_forward (rnn m) hidden rnn_hidden) (\<lambda>rnn_hidden.
     ebind (Linear_forward (fc_rnn_hidden m) rnn_hidden) (\<lambda>y.
     let hidden = map_tensor (act m) y in
     ebind (Linear_forward (fc_state_mean_prior m) hidden) (\<lambda>mean.
     ebind (Linear_forward (fc_state_stddev_prior m) hidden) (\<lambda>raw.
     let stddev = map_tensor (\<lambda>x. F_softplus x + min_stddev m) raw in
     ebind (Normal_init (validate_args m) mean stddev) (\<lambda>d.
     Inr (d, rnn_hidden))))))))"

text \<open>\<^verbatim>\<open>posterior\<close>, lines 97 to 101.\<close>

definition posterior ::
  "RecurrentStateSpaceModel \<Rightarrow> tensor \<Rightarrow> tensor \<Rightarrow> error + Normal" where
  "posterior m rnn_hidden embedded_obs =
     ebind (cat1 rnn_hidden embedded_obs) (\<lambda>he.
     ebind (Linear_forward (fc_rnn_hidden_embedded_obs m) he) (\<lambda>y.
     let hidden = map_tensor (act m) y in
     ebind (Linear_forward (fc_state_mean_posterior m) hidden) (\<lambda>mean.
     ebind (Linear_forward (fc_state_stddev_posterior m) hidden) (\<lambda>raw.
     let stddev = map_tensor (\<lambda>x. F_softplus x + min_stddev m) raw in
     Normal_init (validate_args m) mean stddev))))"

text \<open>\<^verbatim>\<open>forward\<close>, lines 71 to 73.\<close>

definition forward ::
  "RecurrentStateSpaceModel \<Rightarrow> tensor \<Rightarrow> tensor \<Rightarrow> tensor \<Rightarrow> tensor
     \<Rightarrow> error + (Normal \<times> Normal \<times> tensor)" where
  "forward m state action rnn_hidden embedded_next_obs =
     ebind (prior m state action rnn_hidden) (\<lambda>(next_state_prior, rnn_hidden).
     ebind (posterior m rnn_hidden embedded_next_obs) (\<lambda>next_state_posterior.
     Inr (next_state_prior, next_state_posterior, rnn_hidden)))"

text \<open>
  The steps of \<^verbatim>\<open>prior\<close> as the specification words them: the state-action embedding,
  the gated recurrent update, the heads on the new deterministic state with the
  stabilizing transform stddev = softplus(raw) + min_stddev, and the returned pair.
\<close>

definition spec_state_action_embedding ::
  "RecurrentStateSpaceModel \<Rightarrow> tensor \<Rightarrow> tensor \<Rightarrow> error + tensor" where
  "spec_state_action_embedding m state action =
     ebind (cat1 state action) (\<lambda>sa.
     ebind (Linear_forward (fc_state_action m) sa) (\<lambda>y. Inr (map_tensor (act m) y)))"

definition spec_stabilize :: "RecurrentStateSpaceModel \<Rightarrow> tensor \<Rightarrow> tensor" where
  "spec_stabilize m raw = map_tensor (\<lambda>x. F_softplus x + min_stddev m) raw"

definition spec_prior_heads :: "RecurrentStateSpaceModel \<Rightarrow> tensor \<Rightarrow> error + Normal" where
  "spec_prior_heads m next_det_state =
     ebind (Linear_forward (fc_rnn_hidden m) next_det_state) (\<lambda>y.
     ebind (Linear_forward (fc_state_mean_prior m) (map_tensor (act m) y)) (\<lambda>mean.
     ebind (Linear_forward (fc_state_stddev_prior m) (map_tensor (act m) y)) (\<lambda>raw.
     Normal_init (validate_args m) mean (spec_stabilize m raw))))"

definition spec_prior ::
  "RecurrentStateSpaceModel \<Rightarrow> tensor \<Rightarrow> tensor \<Rightarrow> tensor \<Rightarrow> error + (Normal \<times> tensor)" where
  "spec_prior m state action det_state =
     ebind (spec_state_action_embedding m state action) (\<lambda>embedding.
     ebind (GRUCell_forward (rnn m) embedding det_state) (\<lambda>next_det_state.
     ebind (spec_prior_heads m next_det_state) (\<lambda>distribution.
     Inr (distribution, next_det_state))))"

text \<open>One entry of a batch, as a batch of one row: \<^verbatim>\<open>t[i:i+1]\<close>.\<close>

definition row_tensor :: "tensor \<Rightarrow> nat \<Rightarrow> tensor" where
  "row_tensor t i = Tensor (ncols t) (take 1 (drop i (rows t)))"

definition row_Normal :: "Normal \<Rightarrow> nat \<Rightarrow> Normal" where
  "row_Normal d i = \<lparr>loc = row_tensor (loc d) i, scale = row_tensor (scale d) i\<rparr>"

text \<open>
  A layer, and a model, whose matrix products accumulate at every batch size in the order
  they use at batch size n.
\<close>

definition Linear_at :: "nat \<Rightarrow> Linear \<Rightarrow> Linear" where
  "Linear_at n l = l\<lparr>kernel := (\<lambda>b. kernel l n)\<rparr>"

definition GRUCell_at :: "nat \<Rightarrow> GRUCell \<Rightarrow> GRUCell" where
  "GRUCell_at n c = c\<lparr>cell_kernel := (\<lambda>b. cell_kernel c n)\<rparr>"

definition at_batch_size :: "nat \<Rightarrow> RecurrentStateSpaceModel \<Rightarrow> RecurrentStateSpaceModel" where
  "at_batch_size n m =
     m\<lparr>fc_state_action := Linear_at n (fc_state_action m),
       fc_rnn_hidden := Linear_at n (fc_rnn_hidden m),
       fc_state_mean_prior := Linear_at n (fc_state_mean_prior m),
       fc_state_stddev_prior := Linear_at n (fc_state_stddev_prior m),
       fc_rnn_hidden_embedded_obs := Linear_at n (fc_rnn_hidden_embedded_obs m),
       fc_state_mean_posterior := Linear_at n (fc_state_mean_posterior m),
       fc_state_stddev_posterior := Linear_at n (fc_state_stddev_posterior m),
       rnn := GRUCell_at n (rnn m)\<rparr>"

section \<open>The operations on a store\<close>

text \<open>
  To speak about what a call changes, the same operations are modelled on a store: every
  tensor is an object at an address, a call receives addresses, and every PyTorch
  operation of the file allocates its result (none of them is an in-place operation).
  The store also carries the state of the random number generator of the library.
\<close>

record store =
  cells :: "nat \<Rightarrow> tensor"
  next_free :: nat
  gen :: generator

type_synonym 'a effect = "store \<Rightarrow> (error + 'a) \<times> store"

definition sreturn :: "'a \<Rightarrow> 'a effect" where
  "sreturn x = (\<lambda>s. (Inr x, s))"

definition sbind :: "'a effect \<Rightarrow> ('a \<Rightarrow> 'b effect) \<Rightarrow> 'b effect" where
  "sbind c f = (\<lambda>s. case c s of (Inl e, s') \<Rightarrow> (Inl e, s') | (Inr x, s') \<Rightarrow> f x s')"

definition raise_or_return :: "error + 'a \<Rightarrow> 'a effect" where
  "raise_or_return r = (\<lambda>s. (r, s))"

definition deref :: "nat \<Rightarrow> tensor effect" where
  "deref a = (\<lambda>s. (Inr (cells s a), s))"

definition new :: "tensor \<Rightarrow> nat effect" where
  "new t = (\<lambda>s. (Inr (next_free s),
                  s\<lparr>cells := (cells s)(next_free s := t), next_free := Suc (next_free s)\<rparr>))"

definition torch_cat :: "nat \<Rightarrow> nat \<Rightarrow> nat effect" where
  "torch_cat a b =
     sbind (deref a) (\<lambda>x. sbind (deref b) (\<lambda>y. sbind (raise_or_return (cat1 x y)) new))"

definition Linear_call :: "Linear \<Rightarrow> nat \<Rightarrow> nat effect" where
  "Linear_call l a = sbind (deref a) (\<lambda>x. sbind (raise_or_return (Linear_forward l x)) new)"

definition GRUCell_call :: "GRUCell \<Rightarrow> nat \<Rightarrow> nat \<Rightarrow> nat effect" where
  "GRUCell_call c a b =
     sbind (deref a) (\<lambda>x. sbind (deref b) (\<lambda>hx.
     sbind (raise_or_return (GRUCell_forward c x hx)) new))"

definition elementwise :: "(f32 \<Rightarrow> f32) \<Rightarrow> nat \<Rightarrow> nat effect" where
  "elementwise f a = sbind (deref a) (\<lambda>x. new (map_tensor f x))"

text \<open>A distribution object holds the two tensors it was built from.\<close>

record Normal_obj =
  loc_at :: nat
  scale_at :: nat

definition Normal_new :: "bool \<Rightarrow> nat \<Rightarrow> nat \<Rightarrow> Normal_obj effect" where
  "Normal_new v mean stddev =
     sbind (deref mean) (\<lambda>x. sbind (deref stddev) (\<lambda>y.
     sbind (raise_or_return (Normal_init v x y)) (\<lambda>d.
     sreturn \<lparr>loc_at = mean, scale_at = stddev\<rparr>)))"

text \<open>\<^verbatim>\<open>prior\<close>, \<^verbatim>\<open>posterior\<close> and \<^verbatim>\<open>forward\<close> again, statement by statement.\<close>

definition prior_store ::
  "RecurrentStateSpaceModel \<Rightarrow> nat \<Rightarrow> nat \<Rightarrow> nat \<Rightarrow> (Normal_obj \<times> nat) effect" where
  "prior_store m state action rnn_hidden =
     sbind (torch_cat state action) (\<lambda>sa.
     sbind (Linear_call (fc_state_action m) sa) (\<lambda>y.
     sbind (elementwise (act m) y) (\<lambda>hidden.
     sbind (GRUCell_call (rnn m) hidden rnn_hidden) (\<lambda>rnn_hidden.
     sbind (Linear_call (fc_rnn_hidden m) rnn_hidden) (\<lambda>y.
     sbind (elementwise (act m) y) (\<lambda>hidden.
     sbind (Linear_call (fc_state_mean_prior m) hidden) (\<lambda>mean.
     sbind (Linear_call (fc_state_stddev_prior m) hidden) (\<lambda>raw.
     sbind (elementwise F_softplus raw) (\<lambda>sp.
     sbind (elementwise (\<lambda>x. x + min_stddev m) sp) (\<lambda>stddev.
     sbind (Normal_new (validate_args m) mean stddev) (\<lambda>d.
     sreturn (d, rnn_hidden))))))))))))"

definition posterior_store ::
  "RecurrentStateSpaceModel \<Rightarrow> nat \<Rightarrow> nat \<Rightarrow> Normal_obj effect" where
  "posterior_store m rnn_hidden embedded_obs =
     sbind (torch_cat rnn_hidden embedded_obs) (\<lambda>he.
     sbind (Linear_call (fc_rnn_hidden_embedded_obs m) he) (\<lambda>y.
     sbind (elementwise (act m) y) (\<lambda>hidden.
     sbind (Linear_call (fc_state_mean_posterior m) hidden) (\<lambda>mean.
     sbind (Linear_call (fc_state_stddev_posterior m) hidden) (\<lambda>raw.
     sbind (elementwise F_softplus raw) (\<lambda>sp.
     sbind (elementwise (\<lambda>x. x + min_stddev m) sp) (\<lambda>stddev.
     Normal_new (validate_args m) mean stddev)))))))"

definition forward_store ::
  "RecurrentStateSpaceModel \<Rightarrow> nat \<Rightarrow> nat \<Rightarrow> nat \<Rightarrow> nat
     \<Rightarrow> (Normal_obj \<times> Normal_obj \<times> nat) effect" where
  "forward_store m state action rnn_hidden embedded_next_obs =
     sbind (prior_store m state action rnn_hidden) (\<lambda>(next_state_prior, rnn_hidden).
     sbind (posterior_store m rnn_hidden embedded_next_obs) (\<lambda>next_state_posterior.
     sreturn (next_state_prior, next_state_posterior, rnn_hidden)))"

text \<open>
  What a caller can observe: the store agrees with an earlier one on everything that was
  allocated then, and the value of a distribution object.
\<close>

definition preserves :: "store \<Rightarrow> store \<Rightarrow> bool" where
  "preserves s s' =
     (next_free s \<le> next_free s' \<and> list_all (\<lambda>a. cells s' a = cells s a) [0..<next_free s])"

definition fresh :: "store \<Rightarrow> store \<Rightarrow> nat \<Rightarrow> bool" where
  "fresh s s' a = (next_free s \<le> a \<and> a < next_free s')"

definition Normal_value :: "store \<Rightarrow> Normal_obj \<Rightarrow> Normal" where
  "Normal_value s d = \<lparr>loc = cells s (loc_at d), scale = cells s (scale_at d)\<rparr>"

text \<open>The outcome of a call of \<^verbatim>\<open>prior\<close> on a store, as values.\<close>

definition prior_outcome :: "(error + (Normal_obj \<times> nat)) \<times> store \<Rightarrow> error + (Normal \<times> tensor)" where
  "prior_outcome r =
     (case r of (Inl e, s') \<Rightarrow> Inl e
      | (Inr (d, h), s') \<Rightarrow> Inr (Normal_value s' d, cells s' h))"

text \<open>
  The sizes \<^verbatim>\<open>prior\<close> depends on: a shared batch size, the width of the concatenation
  of state and action, and the width of the deterministic state.
\<close>

definition prior_shapes_fit ::
  "nat \<Rightarrow> nat \<Rightarrow> nat \<Rightarrow> tensor \<Rightarrow> tensor \<Rightarrow> tensor \<Rightarrow> bool" where
  "prior_shapes_fit sd ad rd state action rnn_hidden =
     (nrows action = nrows state \<and> nrows rnn_hidden = nrows state \<and>
      ncols state + ncols action = sd + ad \<and> ncols rnn_hidden = rd)"

text \<open>Batches joined row-wise: \<^verbatim>\<open>torch.cat(ts, dim=0)\<close> for tensors of width n.\<close>

definition stack_rows :: "nat \<Rightarrow> tensor list \<Rightarrow> tensor" where
  "stack_rows n ts = Tensor n (concat (map rows ts))"

section \<open>Models for the statements' concrete instances\<close>

text \<open>
  Layers whose weights are all zero, of any size, summing from the left at every batch
  size, and an RSSM and an ActionModel built from them as \<^verbatim>\<open>__init__\<close> builds them.
\<close>

definition zero_Linear :: "nat \<Rightarrow> nat \<Rightarrow> Linear" where
  "zero_Linear i out =
     \<lparr>in_features = i, out_features = out,
      weight = replicate out (replicate i (Finite 0)), bias = replicate out (Finite 0),
      kernel = (\<lambda>b. sum_forward)\<rparr>"

definition zero_GRUCell :: "nat \<Rightarrow> nat \<Rightarrow> GRUCell" where
  "zero_GRUCell i h =
     \<lparr>input_size = i, hidden_size = h,
      weight_ih = replicate (3 * h) (replicate i (Finite 0)),
      weight_hh = replicate (3 * h) (replicate h (Finite 0)),
      bias_ih = replicate (3 * h) (Finite 0), bias_hh = replicate (3 * h) (Finite 0),
      cell_kernel = (\<lambda>b. sum_forward)\<rparr>"

definition zero_RSSM :: "nat \<Rightarrow> nat \<Rightarrow> nat \<Rightarrow> nat \<Rightarrow> real \<Rightarrow> bool \<Rightarrow> RecurrentStateSpaceModel" where
  "zero_RSSM sd ad rd hid ms v =
     \<lparr>state_dim = sd, action_dim = ad, rnn_hidden_dim = rd,
      fc_state_action = zero_Linear (sd + ad) hid,
      fc_rnn_hidden = zero_Linear rd hid,
      fc_state_mean_prior = zero_Linear hid sd,
      fc_state_stddev_prior = zero_Linear hid sd,
      fc_rnn_hidden_embedded_obs = zero_Linear (rd + 1024) hid,
      fc_state_mean_posterior = zero_Linear hid sd,
      fc_state_stddev_posterior = zero_Linear hid sd,
      rnn = zero_GRUCell hid rd,
      min_stddev = round32 ms, act = F_elu, validate_args = v\<rparr>"

text \<open>A tensor of b rows and n columns with every entry c.\<close>

definition const_tensor :: "nat \<Rightarrow> nat \<Rightarrow> f32 \<Rightarrow> tensor" where
  "const_tensor b n c = Tensor n (replicate b (replicate n c))"

definition zero_ActionModel :: "nat \<Rightarrow> nat \<Rightarrow> nat \<Rightarrow> nat \<Rightarrow> real \<Rightarrow> real \<Rightarrow> bool \<Rightarrow> ActionModel" where
  "zero_ActionModel sd rd ad hid ms istd v =
     \<lparr>fc1 = zero_Linear (sd + rd) hid, fc2 = zero_Linear hid hid, fc3 = zero_Linear hid hid,
      fc4 = zero_Linear hid hid, fc_mean = zero_Linear hid ad, fc_stddev = zero_Linear hid ad,
      act = F_elu, min_stddev = round32 ms, init_stddev = softplus_inverse istd,
      validate_args = v\<rparr>"

text \<open>
  The same models with a bias c on the layer that produces the raw standard deviation:
  every entry of its output is c.
\<close>

definition biased_Linear :: "nat \<Rightarrow> nat \<Rightarrow> f32 \<Rightarrow> Linear" where
  "biased_Linear i out c = (zero_Linear i out)\<lparr>bias := replicate out c\<rparr>"

definition biased_RSSM ::
  "nat \<Rightarrow> nat \<Rightarrow> nat \<Rightarrow> nat \<Rightarrow> real \<Rightarrow> bool \<Rightarrow> f32 \<Rightarrow> RecurrentStateSpaceModel" where
  "biased_RSSM sd ad rd hid ms v c =
     (zero_RSSM sd ad rd hid ms v)\<lparr>fc_state_stddev_prior := biased_Linear hid sd c\<rparr>"

definition biased_ActionModel ::
  "nat \<Rightarrow> nat \<Rightarrow> nat \<Rightarrow> nat \<Rightarrow> real \<Rightarrow> real \<Rightarrow> bool \<Rightarrow> f32 \<Rightarrow> ActionModel" where
  "biased_ActionModel sd rd ad hid ms istd v c =
     (zero_ActionModel sd rd ad hid ms istd v)\<lparr>fc_stddev := biased_Linear hid ad c\<rparr>"

text \<open>
  A small RSSM, for a state of width 2, an action of width 1, a deterministic state of
  width 1 and one hidden unit, whose first layer adds up its three inputs with the kernel
  k, and whose recurrent cell passes the result to its new gate. The second kernel sums
  a single row from the left and the rows of a larger batch from the right.
\<close>

definition sum_by_batch :: kernel where
  "sum_by_batch b = (if b \<le> 1 then sum_forward else sum_backward)"

definition adding_RSSM :: "kernel \<Rightarrow> bool \<Rightarrow> RecurrentStateSpaceModel" where
  "adding_RSSM k v =
     (zero_RSSM 2 1 1 1 (1/10) v)
       \<lparr>fc_state_action :=
          \<lparr>in_features = 3, out_features = 1,
           weight = [[Finite 1, Finite 1, Finite 1]], bias = [Finite 0], kernel = k\<rparr>,
        rnn :=
          \<lparr>input_size = 1, hidden_size = 1,
           weight_ih = [[Finite 0], [Finite 0], [Finite 1]],
           weight_hh = [[Finite 0], [Finite 0], [Finite 0]],
           bias_ih = [Finite 0, Finite 0, Finite 0], bias_hh = [Finite 0, Finite 0, Finite 0],
           cell_kernel = (\<lambda>b. sum_forward)\<rparr>\<rparr>"

text \<open>Generators that hand out the same number at every draw.\<close>

definition const_generator :: "f32 \<Rightarrow> generator" where
  "const_generator c = \<lparr>noise = (\<lambda>k. c), pos = 0\<rparr>"

text \<open>
  Two stores holding the same three inputs of \<^verbatim>\<open>prior\<close> at different addresses, with
  different generators.
\<close>

definition example_store :: store where
  "example_store =
     \<lparr>cells = (\<lambda>a. if a = 0 then const_tensor 2 2 (Finite 0)
                  else if a = 2 then const_tensor 2 1 (Finite 0)
                  else if a = 3 then const_tensor 2 3 (Finite 1)
                  else const_tensor 2 1024 (Finite 0)),
      next_free = 5, gen = const_generator (Finite 0)\<rparr>"

definition other_store :: store where
  "other_store =
     \<lparr>cells = (\<lambda>a. if a = 5 then const_tensor 2 2 (Finite 0)
                  else if a = 4 then const_tensor 2 1 (Finite 0)
                  else if a = 3 then const_tensor 2 3 (Finite 1)
                  else const_tensor 2 1024 (Finite 0)),
      next_free = 7, gen = \<lparr>noise = (\<lambda>k. Finite 1), pos = 7\<rparr>\<rparr>"

section \<open>Rounding\<close>

lemma pow2_pos: "0 < pow2 e"
  by (simp add: pow2_def)

lemma pow2_add: "pow2 (a + b) = pow2 a * pow2 b"
  by (simp add: pow2_def powr_add)

lemma pow2_mono: "a \<le> b \<Longrightarrow> pow2 a \<le> pow2 b"
  by (simp add: pow2_def)

lemma pow2_less: "a < b \<Longrightarrow> pow2 a < pow2 b"
  by (simp add: pow2_def)

lemma pow2_less_iff: "pow2 a < pow2 b \<longleftrightarrow> a < b"
  by (simp add: pow2_def)

lemma pow2_le_iff: "pow2 a \<le> pow2 b \<longleftrightarrow> a \<le> b"
  by (simp add: pow2_def)

lemma pow2_nat: "pow2 (int n) = 2 ^ n"
  by (simp add: pow2_def powr_realpow)

lemma pow2_neg_nat: "pow2 (- int n) = 1 / 2 ^ n"
  by (simp add: pow2_def powr_minus powr_realpow inverse_eq_divide)

lemma pow2_shift: "pow2 (e + int p) = 2 ^ p * pow2 e"
  using pow2_add [of "int p" e] pow2_nat [of p] by (simp add: add.commute)

lemma pow2_shift_Suc: "pow2 (e + int p + 1) = 2 ^ Suc p * pow2 e"
  using pow2_shift [of e "Suc p"] by (simp add: add.commute add.left_commute)

lemma rne_of_int: "rne (real_of_int n) = n"
  by (simp add: rne_def)

lemma rne_floor: "\<lfloor>q\<rfloor> \<le> rne q" and rne_floor1: "rne q \<le> \<lfloor>q\<rfloor> + 1"
  by (simp_all add: rne_def Let_def)

lemma rne_ge:
  assumes "real_of_int a \<le> q"
  shows "a \<le> rne q"
proof -
  from assms have "a \<le> \<lfloor>q\<rfloor>" by (simp add: le_floor_iff)
  with rne_floor [of q] show ?thesis by linarith
qed

lemma rne_le:
  assumes "q \<le> real_of_int b"
  shows "rne q \<le> b"
proof (cases "q = real_of_int b")
  case True
  then show ?thesis by (simp add: rne_of_int)
next
  case False
  with assms have "q < real_of_int b" by simp
  then have "\<lfloor>q\<rfloor> < b" by (simp add: floor_less_iff)
  with rne_floor1 [of q] show ?thesis by linarith
qed

lemma rne_mono:
  assumes "q \<le> q'"
  shows "rne q \<le> rne q'"
proof (cases "\<lfloor>q\<rfloor> = \<lfloor>q'\<rfloor>")
  case True
  with assms show ?thesis
    by (auto simp: rne_def Let_def)
next
  case False
  with assms have "\<lfloor>q\<rfloor> < \<lfloor>q'\<rfloor>"
    using floor_mono [OF assms] by linarith
  with rne_floor1 [of q] rne_floor [of q'] show ?thesis by linarith
qed

lemma rne_minus: "rne (- q) = - rne q"
proof (cases "q = real_of_int \<lfloor>q\<rfloor>")
  case True
  then have "rne q = \<lfloor>q\<rfloor>" "rne (- q) = - \<lfloor>q\<rfloor>"
    using rne_of_int [of "\<lfloor>q\<rfloor>"] rne_of_int [of "- \<lfloor>q\<rfloor>"] by simp_all
  then show ?thesis by simp
next
  case False
  then have f: "\<lfloor>- q\<rfloor> = - \<lfloor>q\<rfloor> - 1"
    using ceiling_altdef [of q] by (simp add: ceiling_def)
  show ?thesis
    using False unfolding rne_def Let_def f
    by (auto simp: algebra_simps)
qed


lemma floor_log2_bounds:
  assumes "x \<noteq> 0"
  shows "pow2 \<lfloor>log 2 \<bar>x\<bar>\<rfloor> \<le> \<bar>x\<bar>" and "\<bar>x\<bar> < pow2 (\<lfloor>log 2 \<bar>x\<bar>\<rfloor> + 1)"
proof -
  have "0 < \<bar>x\<bar>" using assms by simp
  then have "2 powr real_of_int \<lfloor>log 2 \<bar>x\<bar>\<rfloor> \<le> \<bar>x\<bar> \<and> \<bar>x\<bar> < 2 powr real_of_int (\<lfloor>log 2 \<bar>x\<bar>\<rfloor> + 1)"
    using floor_log_eq_powr_iff [of "\<bar>x\<bar>" 2 "\<lfloor>log 2 \<bar>x\<bar>\<rfloor>"] by simp
  then show "pow2 \<lfloor>log 2 \<bar>x\<bar>\<rfloor> \<le> \<bar>x\<bar>" and "\<bar>x\<bar> < pow2 (\<lfloor>log 2 \<bar>x\<bar>\<rfloor> + 1)"
    by (simp_all add: pow2_def)
qed

lemma floor_log2_eq:
  assumes "pow2 k \<le> \<bar>x\<bar>" "\<bar>x\<bar> < pow2 (k + 1)"
  shows "\<lfloor>log 2 \<bar>x\<bar>\<rfloor> = k"
proof -
  have "0 < \<bar>x\<bar>" using assms(1) pow2_pos [of k] by linarith
  then show ?thesis
    using floor_log_eq_powr_iff [of "\<bar>x\<bar>" 2 k] assms by (simp add: pow2_def)
qed

lemma expo_eq:
  assumes "pow2 k \<le> \<bar>x\<bar>" "\<bar>x\<bar> < pow2 (k + 1)"
  shows "expo p emin x = max emin (k - int p)"
  by (simp add: expo_def floor_log2_eq [OF assms])

lemma expo_ge: "emin \<le> expo p emin x"
  by (simp add: expo_def)

lemma expo_minus: "expo p emin (- x) = expo p emin x"
  by (simp add: expo_def)

lemma expo_upper:
  assumes "x \<noteq> 0"
  shows "\<bar>x\<bar> < pow2 (expo p emin x + int p + 1)"
proof -
  have "\<lfloor>log 2 \<bar>x\<bar>\<rfloor> + 1 \<le> expo p emin x + int p + 1" by (simp add: expo_def)
  then have "pow2 (\<lfloor>log 2 \<bar>x\<bar>\<rfloor> + 1) \<le> pow2 (expo p emin x + int p + 1)" by (rule pow2_mono)
  with floor_log2_bounds(2) [OF assms] show ?thesis by linarith
qed

lemma expo_lower:
  assumes "x \<noteq> 0" "emin < expo p emin x"
  shows "pow2 (expo p emin x + int p) \<le> \<bar>x\<bar>"
proof -
  from assms(2) have "expo p emin x + int p = \<lfloor>log 2 \<bar>x\<bar>\<rfloor>" by (simp add: expo_def max_def split: if_splits)
  with floor_log2_bounds(1) [OF assms(1)] show ?thesis by simp
qed

lemma expo_mono:
  assumes "x \<noteq> 0" "\<bar>x\<bar> \<le> \<bar>y\<bar>"
  shows "expo p emin x \<le> expo p emin y"
proof -
  have "0 < \<bar>x\<bar>" using assms(1) by simp
  then have "log 2 \<bar>x\<bar> \<le> log 2 \<bar>y\<bar>" using assms(2) by simp
  then have "\<lfloor>log 2 \<bar>x\<bar>\<rfloor> \<le> \<lfloor>log 2 \<bar>y\<bar>\<rfloor>" by (rule floor_mono)
  then show ?thesis by (simp add: expo_def)
qed

lemma round_grid_nonneg:
  assumes "0 \<le> x"
  shows "0 \<le> round_grid p emin x"
proof (cases "x = 0")
  case True
  then show ?thesis by (simp add: round_grid_def)
next
  case False
  have "0 \<le> x / pow2 (expo p emin x)" using assms pow2_pos [of "expo p emin x"] by simp
  then have "0 \<le> rne (x / pow2 (expo p emin x))" using rne_ge [of 0] by simp
  then show ?thesis using False pow2_pos [of "expo p emin x"] by (simp add: round_grid_def)
qed

lemma round_grid_upper:
  assumes "0 < x"
  shows "round_grid p emin x \<le> pow2 (expo p emin x + int p + 1)"
proof -
  have "x < pow2 (expo p emin x + int p + 1)" using expo_upper [of x p emin] assms by simp
  moreover note s = pow2_shift_Suc [of "expo p emin x" p]
  ultimately have "x / pow2 (expo p emin x) < 2 ^ Suc p"
    using pow2_pos [of "expo p emin x"] by (simp add: divide_less_eq)
  then have "x / pow2 (expo p emin x) \<le> real_of_int (2 ^ Suc p)" by simp
  then have "rne (x / pow2 (expo p emin x)) \<le> 2 ^ Suc p" by (rule rne_le)
  then have "real_of_int (rne (x / pow2 (expo p emin x))) \<le> real_of_int (2 ^ Suc p)"
    by (simp only: of_int_le_iff)
  then have "real_of_int (rne (x / pow2 (expo p emin x))) \<le> 2 ^ Suc p" by simp
  then have "real_of_int (rne (x / pow2 (expo p emin x))) * pow2 (expo p emin x) \<le> 2 ^ Suc p * pow2 (expo p emin x)"
    using pow2_pos [of "expo p emin x"] by simp
  then show ?thesis
    using assms by (simp add: round_grid_def s)
qed

lemma round_grid_lower:
  assumes "0 < x" "emin < expo p emin x"
  shows "pow2 (expo p emin x + int p) \<le> round_grid p emin x"
proof -
  have "pow2 (expo p emin x + int p) \<le> x" using expo_lower [of x emin p] assms by simp
  moreover note s = pow2_shift [of "expo p emin x" p]
  ultimately have "2 ^ p \<le> x / pow2 (expo p emin x)"
    using pow2_pos [of "expo p emin x"] by (simp add: le_divide_eq)
  then have "real_of_int (2 ^ p) \<le> x / pow2 (expo p emin x)" by simp
  then have "2 ^ p \<le> rne (x / pow2 (expo p emin x))" by (rule rne_ge)
  then have "real_of_int (2 ^ p) \<le> real_of_int (rne (x / pow2 (expo p emin x)))"
    by (simp only: of_int_le_iff)
  then have "2 ^ p \<le> real_of_int (rne (x / pow2 (expo p emin x)))" by simp
  then have "2 ^ p * pow2 (expo p emin x) \<le> real_of_int (rne (x / pow2 (expo p emin x))) * pow2 (expo p emin x)"
    using pow2_pos [of "expo p emin x"] by simp
  then show ?thesis
    using assms by (simp add: round_grid_def s)
qed

lemma round_grid_mono_pos:
  assumes "0 < x" "x \<le> y"
  shows "round_grid p emin x \<le> round_grid p emin y"
proof -
  have y: "0 < y" using assms by simp
  have e: "expo p emin x \<le> expo p emin y" using expo_mono [of x y p emin] assms by simp
  show ?thesis
  proof (cases "expo p emin x = expo p emin y")
    case True
    have "x / pow2 (expo p emin y) \<le> y / pow2 (expo p emin y)"
      using assms(2) pow2_pos [of "expo p emin y"] by (simp add: divide_right_mono)
    then have "rne (x / pow2 (expo p emin y)) \<le> rne (y / pow2 (expo p emin y))" by (rule rne_mono)
    then have "real_of_int (rne (x / pow2 (expo p emin y))) * pow2 (expo p emin y) \<le>
               real_of_int (rne (y / pow2 (expo p emin y))) * pow2 (expo p emin y)"
      using pow2_pos [of "expo p emin y"] by simp
    then show ?thesis using assms y True by (simp add: round_grid_def)
  next
    case False
    with e have l: "expo p emin x < expo p emin y" by simp
    then have "emin < expo p emin y" using expo_ge [of emin p x] by linarith
    then have "pow2 (expo p emin y + int p) \<le> round_grid p emin y" using round_grid_lower [OF y] by simp
    moreover have "round_grid p emin x \<le> pow2 (expo p emin x + int p + 1)" using round_grid_upper [OF assms(1)] .
    moreover have "pow2 (expo p emin x + int p + 1) \<le> pow2 (expo p emin y + int p)" using l by (intro pow2_mono) simp
    ultimately show ?thesis by linarith
  qed
qed

lemma round_grid_minus: "round_grid p emin (- x) = - round_grid p emin x"
  by (simp add: round_grid_def expo_minus rne_minus)

lemma round_grid_mono:
  assumes "x \<le> y"
  shows "round_grid p emin x \<le> round_grid p emin y"
proof -
  consider "0 < x" | "x \<le> 0" "0 \<le> y" | "y < 0" using assms by linarith
  then show ?thesis
  proof cases
    case 1
    then show ?thesis using assms by (rule round_grid_mono_pos)
  next
    case 2
    have "0 \<le> round_grid p emin (- x)" using 2(1) by (intro round_grid_nonneg) simp
    then have "round_grid p emin x \<le> 0" by (simp add: round_grid_minus)
    moreover have "0 \<le> round_grid p emin y" using 2(2) by (rule round_grid_nonneg)
    ultimately show ?thesis by linarith
  next
    case 3
    then have "round_grid p emin (- y) \<le> round_grid p emin (- x)"
      using assms by (intro round_grid_mono_pos) simp_all
    then show ?thesis by (simp add: round_grid_minus)
  qed
qed


lemma pow2_diff_int:
  assumes "e' \<le> e"
  shows "pow2 e / pow2 e' = real_of_int (2 ^ nat (e - e'))"
proof -
  have "e = int (nat (e - e')) + e'" using assms by simp
  then have "pow2 e = pow2 (int (nat (e - e'))) * pow2 e'"
    by (metis pow2_add)
  then have "pow2 e = 2 ^ nat (e - e') * pow2 e'"
    by (simp only: pow2_nat)
  then show ?thesis
    using pow2_pos [of e'] by simp
qed

lemma round_grid_repr:
  assumes n: "\<bar>n\<bar> \<le> 2 ^ Suc p" and e: "emin \<le> e"
  shows "round_grid p emin (real_of_int n * pow2 e) = real_of_int n * pow2 e"
proof (cases "n = 0")
  case True
  then show ?thesis by (simp add: round_grid_def)
next
  case False
  let ?v = "real_of_int n * pow2 e"
  have v0: "?v \<noteq> 0" using False pow2_pos [of e] by simp
  have av: "\<bar>?v\<bar> = real_of_int \<bar>n\<bar> * pow2 e"
    using pow2_pos [of e] by (simp add: abs_mult)
  have "\<exists>k. ?v / pow2 (expo p emin ?v) = real_of_int k"
  proof (cases "\<bar>n\<bar> = 2 ^ Suc p")
    case True
    then have "\<bar>?v\<bar> = pow2 (e + int p + 1)"
      using av by (simp add: pow2_shift_Suc)
    then have "expo p emin ?v = max emin (e + int p + 1 - int p)"
      using expo_eq [of "e + int p + 1" ?v p emin] pow2_less [of "e + int p + 1" "e + int p + 1 + 1"] by simp
    then have x: "expo p emin ?v = e + 1" using e by simp
    have "pow2 (e + 1) = 2 * pow2 e" using pow2_nat [of 1] by (simp add: pow2_add)
    then have "?v / pow2 (expo p emin ?v) = real_of_int n / 2"
      using pow2_pos [of e] by (simp add: x)
    moreover have "even \<bar>n\<bar>" unfolding True by simp
    then have "even n" by simp
    then have "real_of_int (n div 2) = real_of_int n / 2"
      using real_of_int_div [of 2 n] by simp
    ultimately show ?thesis by metis
  next
    case False
    with n have "\<bar>n\<bar> < 2 ^ Suc p" by simp
    then have "real_of_int \<bar>n\<bar> < real_of_int (2 ^ Suc p)" by (simp only: of_int_less_iff)
    then have "real_of_int \<bar>n\<bar> < 2 ^ Suc p" by simp
    then have "\<bar>?v\<bar> < pow2 (e + int p + 1)"
      using av pow2_pos [of e] by (simp add: pow2_shift_Suc)
    with floor_log2_bounds(1) [OF v0] have "pow2 \<lfloor>log 2 \<bar>?v\<bar>\<rfloor> < pow2 (e + int p + 1)" by linarith
    then have "\<lfloor>log 2 \<bar>?v\<bar>\<rfloor> < e + int p + 1" by (simp only: pow2_less_iff)
    then have le: "expo p emin ?v \<le> e" using e by (simp add: expo_def)
    have "?v / pow2 (expo p emin ?v) = real_of_int n * (pow2 e / pow2 (expo p emin ?v))" by simp
    also have "\<dots> = real_of_int (n * 2 ^ nat (e - expo p emin ?v))"
      by (simp only: pow2_diff_int [OF le] of_int_mult)
    finally show ?thesis by blast
  qed
  then obtain k where k: "?v / pow2 (expo p emin ?v) = real_of_int k" ..
  then have "?v = real_of_int k * pow2 (expo p emin ?v)"
    using pow2_pos [of "expo p emin ?v"] by (simp add: field_simps)
  with k v0 show ?thesis
    by (simp add: round_grid_def rne_of_int)
qed

lemma round_grid_closed:
  "\<exists>n e. round_grid p emin x = real_of_int n * pow2 e \<and> \<bar>n\<bar> \<le> 2 ^ Suc p \<and> emin \<le> e"
proof (cases "x = 0")
  case True
  then have "round_grid p emin x = real_of_int 0 * pow2 emin" by (simp add: round_grid_def)
  then show ?thesis by (intro exI [of _ 0] exI [of _ emin]) simp
next
  case False
  let ?q = "x / pow2 (expo p emin x)"
  have "\<bar>x\<bar> < pow2 (expo p emin x + int p + 1)" using expo_upper [OF False] .
  then have "\<bar>?q\<bar> < 2 ^ Suc p"
    using pow2_pos [of "expo p emin x"] by (simp add: pow2_shift_Suc divide_less_eq)
  then have "?q \<le> 2 ^ Suc p" "- (2 ^ Suc p) \<le> ?q" by linarith+
  then have "?q \<le> real_of_int (2 ^ Suc p)" "real_of_int (- (2 ^ Suc p)) \<le> ?q" by simp_all
  then have "rne ?q \<le> 2 ^ Suc p" "- (2 ^ Suc p) \<le> rne ?q"
    using rne_le [of ?q "2 ^ Suc p"] rne_ge [of "- (2 ^ Suc p)" ?q] by blast+
  then have "\<bar>rne ?q\<bar> \<le> 2 ^ Suc p" by simp
  then show ?thesis
    using False expo_ge [of emin p x] by (auto simp: round_grid_def)
qed

lemma round_grid_idem: "round_grid p emin (round_grid p emin x) = round_grid p emin x"
proof -
  obtain n e where "round_grid p emin x = real_of_int n * pow2 e" "\<bar>n\<bar> \<le> 2 ^ Suc p" "emin \<le> e"
    using round_grid_closed [of p emin x] by blast
  then show ?thesis by (simp add: round_grid_repr)
qed

lemma round_grid_eval:
  assumes "pow2 k \<le> \<bar>x\<bar>" "\<bar>x\<bar> < pow2 (k + 1)"
  shows "round_grid p emin x =
           real_of_int (rne (x / pow2 (max emin (k - int p)))) * pow2 (max emin (k - int p))"
proof -
  have "x \<noteq> 0" using assms(1) pow2_pos [of k] by auto
  then show ?thesis by (simp add: round_grid_def expo_eq [OF assms])
qed

lemma round_grid_underflow:
  assumes "\<bar>x\<bar> < pow2 (emin - 1)"
  shows "round_grid p emin x = 0"
proof (cases "x = 0")
  case True
  then show ?thesis by (simp add: round_grid_def)
next
  case False
  have "pow2 \<lfloor>log 2 \<bar>x\<bar>\<rfloor> < pow2 (emin - 1)"
    using floor_log2_bounds(1) [OF False] assms by linarith
  then have "\<lfloor>log 2 \<bar>x\<bar>\<rfloor> < emin - 1" by (simp only: pow2_less_iff)
  then have "\<lfloor>log 2 \<bar>x\<bar>\<rfloor> - int p \<le> emin" by linarith
  then have x: "expo p emin x = emin" by (simp only: expo_def max_absorb1)
  define q where "q = x / pow2 emin"
  have "pow2 emin = 2 * pow2 (emin - 1)"
    using pow2_add [of 1 "emin - 1"] pow2_nat [of 1] by simp
  then have q: "\<bar>q\<bar> < 1 / 2"
    using assms pow2_pos [of "emin - 1"] by (simp add: q_def field_simps)
  have "rne q = 0"
  proof (cases "0 \<le> q")
    case True
    with q have "real_of_int 0 \<le> q" "q < real_of_int 0 + 1" by simp_all
    then have "\<lfloor>q\<rfloor> = 0" by (rule floor_unique)
    with q True show ?thesis by (simp add: rne_def)
  next
    case False
    with q have "real_of_int (- 1) \<le> q" "q < real_of_int (- 1) + 1" by simp_all
    then have "\<lfloor>q\<rfloor> = - 1" by (rule floor_unique)
    with q False show ?thesis by (simp add: rne_def)
  qed
  then have "rne (x / pow2 (expo p emin x)) = 0" by (simp add: q_def x)
  with False show ?thesis by (simp add: round_grid_def)
qed

lemma round_grid_int:
  assumes "\<bar>n\<bar> \<le> 2 ^ Suc p" "emin \<le> 0"
  shows "round_grid p emin (real_of_int n) = real_of_int n"
  using round_grid_repr [OF assms, of ] by (simp add: pow2_def)

lemma round_grid_near_one:
  assumes "1 - pow2 (- 25) < x" "x \<le> 1"
  shows "round_grid 23 (- 149) x = 1"
proof (cases "x = 1")
  case True
  show ?thesis using round_grid_int [of 1 23 "- 149"] by (simp add: True)
next
  case False
  have p25: "pow2 (- 25) = 1 / 2 ^ 25" using pow2_neg_nat [of 25] by simp
  have p24: "pow2 (- 24) = 1 / 2 ^ 24" using pow2_neg_nat [of 24] by simp
  have p1: "pow2 (- 1) = 1 / 2" using pow2_neg_nat [of 1] by simp
  have x: "1 / 2 \<le> x" "x < 1" using assms False by (simp_all add: p25)
  then have "pow2 (- 1) \<le> \<bar>x\<bar>" "\<bar>x\<bar> < pow2 (- 1 + 1)" by (simp_all add: p1 pow2_def)
  then have r: "round_grid 23 (- 149) x = real_of_int (rne (x / pow2 (- 24))) * pow2 (- 24)"
    using round_grid_eval [of "- 1" x 23 "- 149"] by simp
  define q where "q = x / pow2 (- 24)"
  have q: "2 ^ 24 - 1 / 2 < q" "q < 2 ^ 24"
    using assms x by (simp_all add: q_def p24 p25 field_simps)
  have "real_of_int (2 ^ 24 - 1) \<le> q" "q < real_of_int (2 ^ 24 - 1) + 1"
    using q by simp_all
  then have f: "\<lfloor>q\<rfloor> = 2 ^ 24 - 1" by (rule floor_unique)
  have "1 / 2 < q - real_of_int \<lfloor>q\<rfloor>" using q by (simp add: f)
  then have "rne q = 2 ^ 24"
    by (simp add: rne_def Let_def f)
  moreover have "round_grid 23 (- 149) x = real_of_int (rne q) * pow2 (- 24)"
    using r by (simp only: q_def)
  ultimately show ?thesis by (simp add: p24)
qed

section \<open>The arithmetic of float32\<close>

lemma f32_le_refl: "x \<noteq> NaN \<Longrightarrow> x \<le> (x::f32)"
  by (cases x) simp_all

lemma f32_le_trans: "x \<le> y \<Longrightarrow> y \<le> z \<Longrightarrow> x \<le> (z::f32)"
  by (cases x; cases y; cases z) simp_all

lemma f32_less_irrefl: "\<not> x < (x::f32)"
  by (cases x) simp_all

lemma f32_less_le_trans: "x < y \<Longrightarrow> y \<le> z \<Longrightarrow> x < (z::f32)"
  by (cases x; cases y; cases z) simp_all

lemma f32_le_less_trans: "x \<le> y \<Longrightarrow> y < z \<Longrightarrow> x < (z::f32)"
  by (cases x; cases y; cases z) simp_all

lemma f32_less_imp_le: "x < y \<Longrightarrow> x \<le> (y::f32)"
  by (cases x; cases y) simp_all

lemma f32_le_not_NaN: "x \<le> y \<Longrightarrow> x \<noteq> NaN \<and> y \<noteq> (NaN::f32)"
  by (cases x; cases y) simp_all

lemma round32_not_NaN [simp]: "round32 x \<noteq> NaN" "NaN \<noteq> round32 x"
  by (simp_all add: round32_def Let_def)

lemma round32_mono:
  assumes "x \<le> y"
  shows "round32 x \<le> round32 y"
  using round_grid_mono [OF assms, of 23 "- 149"]
  by (auto simp: round32_def Let_def)

lemma round32_grid: "round32 x = Finite v \<Longrightarrow> round_grid 23 (- 149) v = v"
  by (auto simp: round32_def Let_def round_grid_idem split: if_splits)

lemma round32_idem: "round32 x = Finite v \<Longrightarrow> round32 v = Finite v"
  by (auto simp: round32_def Let_def round_grid_idem split: if_splits)

lemma round32_fixed:
  assumes "round_grid 23 (- 149) v = v" "\<bar>v\<bar> < 2 ^ 128"
  shows "round32 v = Finite v"
  using assms by (auto simp: round32_def Let_def)

lemma round32_int:
  assumes "\<bar>n\<bar> \<le> 2 ^ 24"
  shows "round32 (real_of_int n) = Finite (real_of_int n)"
proof (rule round32_fixed)
  show "round_grid 23 (- 149) (real_of_int n) = real_of_int n"
    using round_grid_int [of n 23 "- 149"] assms by simp
  have "\<bar>real_of_int n\<bar> \<le> real_of_int (2 ^ 24)"
    using assms by (simp only: of_int_abs [symmetric] of_int_le_iff)
  then show "\<bar>real_of_int n\<bar> < 2 ^ 128" by simp
qed

lemma round32_0 [simp]: "round32 0 = Finite 0"
  using round32_int [of 0] by simp

lemma round32_1 [simp]: "round32 1 = Finite 1"
  using round32_int [of 1] by simp

lemma round32_numeral [simp]:
  "(numeral k :: int) \<le> 2 ^ 24 \<Longrightarrow> round32 (numeral k) = Finite (numeral k)"
  using round32_int [of "numeral k"] by simp

lemma round32_neg_numeral [simp]:
  "(numeral k :: int) \<le> 2 ^ 24 \<Longrightarrow> round32 (- numeral k) = Finite (- numeral k)"
  using round32_int [of "- numeral k"] by simp

lemma round32_neg_1 [simp]: "round32 (- 1) = Finite (- 1)"
  using round32_int [of "- 1"] by simp

lemma round32_dyadic:
  assumes "\<bar>n\<bar> \<le> 2 ^ 24" "- 149 \<le> e" "\<bar>real_of_int n * pow2 e\<bar> < 2 ^ 128"
  shows "round32 (real_of_int n * pow2 e) = Finite (real_of_int n * pow2 e)"
  using round_grid_repr [of n 23 "- 149" e] assms by (intro round32_fixed) simp_all

lemma pow2_neg_1: "pow2 (- 1) = 1 / 2"
  using pow2_neg_nat [of 1] by simp

lemma pow2_neg_4: "pow2 (- 4) = 1 / 16"
  using pow2_neg_nat [of 4] by simp

lemma round32_half [simp]: "round32 (1 / 2) = Finite (1 / 2)"
  using round32_dyadic [of 1 "- 1"] by (simp add: pow2_neg_1)

lemma round32_neg_half [simp]: "round32 (- (1 / 2)) = Finite (- (1 / 2))"
  using round32_dyadic [of "- 1" "- 1"] by (simp add: pow2_neg_1)

lemma round32_sixteenth: "round32 (1 / 16) = Finite (1 / 16)"
  using round32_dyadic [of 1 "- 4"] by (simp add: pow2_neg_4)

lemma round32_pow:
  assumes "n < 128"
  shows "round32 (2 ^ n) = Finite (2 ^ n)"
proof -
  have "(2::real) ^ n < 2 ^ 128" using assms by (intro power_strict_increasing) simp_all
  then show ?thesis
    using round32_dyadic [of 1 "int n"] by (simp add: pow2_nat)
qed

lemma round32_neg_pow:
  assumes "n < 128"
  shows "round32 (- (2 ^ n)) = Finite (- (2 ^ n))"
proof -
  have "(2::real) ^ n < 2 ^ 128" using assms by (intro power_strict_increasing) simp_all
  then show ?thesis
    using round32_dyadic [of "- 1" "int n"] by (simp add: pow2_nat)
qed

lemma round32_overflow: "2 ^ 128 \<le> x \<Longrightarrow> round32 x = PInf"
proof -
  assume x: "2 ^ 128 \<le> x"
  have "round_grid 23 (- 149) (2 ^ 128) = 2 ^ 128"
    using round_grid_repr [of 1 23 "- 149" 128] pow2_nat [of 128] by simp
  with round_grid_mono [OF x, of 23 "- 149"] show ?thesis
    by (simp add: round32_def Let_def)
qed

lemma round32_between:
  assumes "a \<le> x" "x \<le> b" "round32 a = Finite a" "round32 b = Finite b"
  shows "\<exists>v. round32 x = Finite v \<and> a \<le> v \<and> v \<le> b"
proof -
  from round32_mono [OF assms(1)] round32_mono [OF assms(2)]
  have "Finite a \<le> round32 x" "round32 x \<le> Finite b" by (simp_all add: assms(3,4))
  then show ?thesis by (cases "round32 x") simp_all
qed

lemma zero_plus_round32 [simp]: "Finite 0 + round32 x = round32 x" "round32 x + Finite 0 = round32 x"
  by (cases "round32 x"; simp add: round32_idem)+

lemma add_lower:
  assumes "Finite a \<le> x" "Finite b \<le> y"
  shows "round32 (a + b) \<le> x + y"
proof (cases x)
  case (Finite u)
  show ?thesis
  proof (cases y)
    case (Finite v)
    with \<open>x = Finite u\<close> assms show ?thesis by (simp add: round32_mono)
  next
    case PInf
    with \<open>x = Finite u\<close> show ?thesis by (cases "round32 (a + b)") simp_all
  qed (use assms in simp_all)
next
  case PInf
  with assms(2) show ?thesis by (cases y; cases "round32 (a + b)") simp_all
qed (use assms in simp_all)


lemma mult_lower:
  assumes "0 < a" "0 < b" "Finite a \<le> x" "Finite b \<le> y"
  shows "round32 (a * b) \<le> x * y"
proof (cases x)
  case (Finite u)
  show ?thesis
  proof (cases y)
    case (Finite v)
    with \<open>x = Finite u\<close> assms have "a * b \<le> u * v" by (simp add: mult_mono)
    with Finite \<open>x = Finite u\<close> show ?thesis by (simp add: round32_mono)
  next
    case PInf
    with \<open>x = Finite u\<close> assms show ?thesis by (cases "round32 (a * b)") auto
  qed (use assms in simp_all)
next
  case PInf
  with assms show ?thesis by (cases y; cases "round32 (a * b)") auto
qed (use assms in simp_all)

text \<open>
  Adding a number that is not negative to the \<^verbatim>\<open>float32\<close> value of a floor gives at
  least the floor; it gives exactly the floor when the number is 0.
\<close>

lemma floor_plus:
  assumes "Finite 0 \<le> sp"
  shows "sp + round32 ms = NaN \<or> round32 ms \<le> sp + round32 ms"
proof (cases "round32 ms")
  case (Finite v)
  have "round32 (0 + v) \<le> sp + Finite v"
    using assms by (intro add_lower) simp_all
  with Finite show ?thesis by (simp add: round32_idem)
next
  case PInf
  with assms show ?thesis by (cases sp) simp_all
next
  case NInf
  with assms show ?thesis by (cases sp) simp_all
next
  case NaN
  then show ?thesis by simp
qed

section \<open>The elementary functions\<close>

lemma exp_nat_lower: "2 ^ n \<le> exp (real n)"
proof -
  have "(2::real) \<le> exp 1" using exp_ge_add_one_self [of "1::real"] by simp
  then have "(2::real) ^ n \<le> exp 1 ^ n" by (intro power_mono) simp_all
  then show ?thesis using exp_of_nat_mult [of n "1::real"] by simp
qed

lemma exp_nat_upper: "exp (real n) \<le> 3 ^ n"
proof -
  have "exp (1::real) ^ n \<le> 3 ^ n" using exp_le by (intro power_mono) simp_all
  then show ?thesis using exp_of_nat_mult [of n "1::real"] by simp
qed

lemma exp_neg_nat_upper: "exp (- real n) \<le> 1 / 2 ^ n"
proof -
  have "exp (- real n) = 1 / exp (real n)" by (simp add: exp_minus inverse_eq_divide)
  also have "\<dots> \<le> 1 / 2 ^ n" using exp_nat_lower [of n] by (intro divide_left_mono) simp_all
  finally show ?thesis .
qed

lemma tanh_saturates:
  assumes "13 \<le> t"
  shows "1 - pow2 (- 25) < tanh t"
proof -
  define e where "e = exp (- 2 * (13::real))"
  have e0: "0 < e" by (simp add: e_def)
  have "e \<le> 1 / 2 ^ 26" using exp_neg_nat_upper [of 26] by (simp add: e_def)
  then have e1: "2 * e \<le> 1 / 2 ^ 25" by simp
  have "tanh (13::real) = (1 - e) / (1 + e)" unfolding e_def by (rule tanh_real_altdef)
  also have "\<dots> = 1 - 2 * e / (1 + e)" using e0 by (simp add: field_simps)
  finally have t: "tanh (13::real) = 1 - 2 * e / (1 + e)" .
  have "2 * e / (1 + e) < 2 * e / 1" using e0 by (intro divide_strict_left_mono) simp_all
  with e1 have "2 * e / (1 + e) < 1 / 2 ^ 25" by simp
  then have "1 - pow2 (- 25) < tanh (13::real)"
    using pow2_neg_nat [of 25] by (simp add: t)
  also have "tanh 13 \<le> tanh t" using assms by simp
  finally show ?thesis .
qed

lemma round32_tanh_large:
  assumes "13 \<le> t"
  shows "round32 (tanh t) = Finite 1"
proof -
  have "tanh t \<le> 1" using tanh_real_lt_1 [of t] by simp
  then have "round_grid 23 (- 149) (tanh t) = 1"
    using tanh_saturates [OF assms] by (intro round_grid_near_one)
  then show ?thesis by (simp add: round32_def)
qed

lemma torch_tanh_saturates: "Finite 13 \<le> x \<Longrightarrow> torch_tanh x = Finite 1"
  by (cases x) (simp_all add: round32_tanh_large)


lemma torch_tanh_0 [simp]: "torch_tanh (Finite 0) = Finite 0"
  by simp

lemma torch_exp_underflow:
  assumes "x \<le> Finite (- 151)"
  shows "torch_exp x = Finite 0"
proof (cases x)
  case (Finite t)
  with assms have "t \<le> - real 151" by simp
  then have "exp t \<le> exp (- real 151)" by simp
  also have "\<dots> \<le> 1 / 2 ^ 151" by (rule exp_neg_nat_upper)
  also have "\<dots> < pow2 (- 150)" using pow2_neg_nat [of 150] by simp
  finally have "\<bar>exp t\<bar> < pow2 (- 149 - 1)" by simp
  then have "round_grid 23 (- 149) (exp t) = 0" by (rule round_grid_underflow)
  with Finite show ?thesis by (simp add: round32_def)
qed (use assms in simp_all)

lemma torch_exp_nonneg: "torch_exp x = NaN \<or> Finite 0 \<le> torch_exp x"
proof (cases x)
  case (Finite t)
  have "round32 0 \<le> round32 (exp t)" by (intro round32_mono) simp
  with Finite show ?thesis by simp
qed simp_all

lemma torch_log1p_nonneg:
  assumes "Finite 0 \<le> x"
  shows "Finite 0 \<le> torch_log1p x"
proof (cases x)
  case (Finite t)
  with assms have t: "0 \<le> t" by simp
  then have "0 \<le> ln (1 + t)" by simp
  then have "round32 0 \<le> round32 (ln (1 + t))" by (rule round32_mono)
  with Finite t show ?thesis by simp
qed (use assms in simp_all)

lemma F_softplus_nonneg: "F_softplus x = NaN \<or> Finite 0 \<le> F_softplus x"
proof (cases "Finite 20 < x")
  case True
  have "Finite 0 \<le> Finite 20" by simp
  with True have "Finite 0 \<le> x" using f32_le_less_trans f32_less_imp_le by blast
  with True show ?thesis by (simp add: F_softplus_def)
next
  case False
  show ?thesis
  proof (cases "torch_exp x = NaN")
    case True
    with False show ?thesis by (simp add: F_softplus_def)
  next
    case nn: False
    with torch_exp_nonneg [of x] have "Finite 0 \<le> torch_exp x" by simp
    then have "Finite 0 \<le> torch_log1p (torch_exp x)" by (rule torch_log1p_nonneg)
    with False show ?thesis by (simp add: F_softplus_def)
  qed
qed

lemma F_softplus_underflow:
  assumes "x \<le> Finite (- 151)"
  shows "F_softplus x = Finite 0"
proof -
  have "\<not> Finite 20 < x" using assms by (cases x) simp_all
  then show ?thesis by (simp add: F_softplus_def torch_exp_underflow [OF assms])
qed

lemma F_softplus_large: "Finite 20 < x \<Longrightarrow> F_softplus x = x"
  by (simp add: F_softplus_def)

lemma F_softplus_0: "F_softplus (Finite 0) = round32 (ln 2)"
  by (simp add: F_softplus_def)

lemma F_softplus_NaN [simp]: "F_softplus NaN = NaN"
  by (simp add: F_softplus_def)

lemma ln2_bounds: "1 / 2 \<le> ln (2::real)" "ln (2::real) \<le> 1"
proof -
  have "exp (1 / 2 :: real) ^ 2 = exp 1" using exp_double [of "1 / 2 :: real"] by simp
  also have "\<dots> \<le> 2 ^ 2" using exp_le by simp
  finally have "exp (1 / 2 :: real) \<le> 2" by (rule power2_le_imp_le) simp
  then show "1 / 2 \<le> ln (2::real)" by (subst ln_ge_iff) simp_all
  show "ln (2::real) \<le> 1" using ln_2_less_1 by simp
qed

lemma round32_ln2: "\<exists>v. round32 (ln 2) = Finite v \<and> 1 / 2 \<le> v \<and> v \<le> 1"
  using ln2_bounds by (intro round32_between) simp_all

lemma torch_sigmoid_0 [simp]: "torch_sigmoid (Finite 0) = Finite (1 / 2)"
  by (simp add: torch_sigmoid_def)

lemma torch_sigmoid_NaN [simp]: "torch_sigmoid NaN = NaN"
  by (simp add: torch_sigmoid_def)

lemma F_elu_0 [simp]: "F_elu (Finite 0) = Finite 0"
  by (simp add: F_elu_def minus_f32_def)

lemma F_elu_pos: "0 < t \<Longrightarrow> F_elu (Finite t) = Finite t"
  by (simp add: F_elu_def)

lemma F_elu_special [simp]: "F_elu PInf = PInf" "F_elu NaN = NaN"
  by (simp_all add: F_elu_def)

section \<open>The stored init_stddev\<close>

lemma round64_between:
  assumes "a \<le> x" "x \<le> b"
    and "round_grid 52 (- 1074) a = a" "round_grid 52 (- 1074) b = b"
    and "- (2 ^ 1024) < a" "b < 2 ^ 1024"
  shows "\<exists>v. round64 x = Finite64 v \<and> a \<le> v \<and> v \<le> b"
  using round_grid_mono [OF assms(1), of 52 "- 1074"] round_grid_mono [OF assms(2), of 52 "- 1074"]
    assms(3-6)
  by (auto simp: round64_def Let_def)

lemma grid64_int:
  assumes "\<bar>n\<bar> \<le> 2 ^ 53"
  shows "round_grid 52 (- 1074) (real_of_int n) = real_of_int n"
  using round_grid_int [of n 52 "- 1074"] assms by simp

text \<open>
  With the default \<^verbatim>\<open>init_stddev\<close> of 5, the number stored is between 3 and 8 (it is
  about 4.99).
\<close>

lemma softplus_inverse_5: "\<exists>i. softplus_inverse 5 = Finite i \<and> 3 \<le> i \<and> i \<le> 8"
proof -
  have big: "(243::real) < 2 ^ 1024"
  proof -
    have "(243::real) < 2 ^ 8" by simp
    also have "(2::real) ^ 8 \<le> 2 ^ 1024" by (intro power_increasing) simp_all
    finally show ?thesis .
  qed
  have "(32::real) \<le> exp 5" "exp (5::real) \<le> 243"
    using exp_nat_lower [of 5] exp_nat_upper [of 5] by simp_all
  then obtain e where e: "round64 (exp 5) = Finite64 e" "32 \<le> e" "e \<le> 243"
    using round64_between [of 32 "exp 5" 243] grid64_int [of 32] grid64_int [of 243] big
    by auto
  have "31 \<le> e - 1" "e - 1 \<le> 242" using e by simp_all
  then obtain d where d: "round64 (e - 1) = Finite64 d" "31 \<le> d" "d \<le> 242"
    using round64_between [of 31 "e - 1" 242] grid64_int [of 31] grid64_int [of 242] big
    by auto
  have "exp (3::real) \<le> 27" using exp_nat_upper [of 3] by simp
  then have "exp 3 \<le> d" using d by simp
  then have l3: "3 \<le> ln d" using d by (simp add: ln_ge_iff)
  have "d \<le> exp 8" using exp_nat_lower [of 8] d by simp
  then have "ln d \<le> ln (exp 8)" using d by (intro ln_mono) simp_all
  then have l8: "ln d \<le> 8" by simp
  obtain l where l: "round64 (ln d) = Finite64 l" "3 \<le> l" "l \<le> 8"
    using round64_between [OF l3 l8] grid64_int [of 3] grid64_int [of 8] big
    by auto
  obtain i where i: "round32 l = Finite i" "3 \<le> i" "i \<le> 8"
    using round32_between [of 3 l 8] l by auto
  have "softplus_inverse 5 = Finite i"
    using e d l i by (simp add: softplus_inverse_def)
  with i show ?thesis by blast
qed

section \<open>Basic facts\<close>

lemma ebind_Inr_iff: "ebind x f = Inr r \<longleftrightarrow> (\<exists>v. x = Inr v \<and> f v = Inr r)"
  by (cases x) (simp_all add: ebind_def)

lemma ebind_assoc: "ebind (ebind x f) g = ebind x (\<lambda>v. ebind (f v) g)"
  by (cases x) (simp_all add: ebind_def)

lemma ebind_Inr: "ebind (Inr v) f = f v"
  by (simp add: ebind_def)

lemma ebind_Inl: "ebind (Inl e) f = Inl e"
  by (simp add: ebind_def)

lemma all_entries_map_tensor: "all_entries P (map_tensor f t) = all_entries (\<lambda>x. P (f x)) t"
  by (simp add: all_entries_def map_tensor_def list_all_iff)

lemma all_entries_True: "(\<And>x. P x) \<Longrightarrow> all_entries P t"
  by (simp add: all_entries_def list_all_iff)

lemma all_entries_mono: "(\<And>x. P x \<Longrightarrow> Q x) \<Longrightarrow> all_entries P t \<Longrightarrow> all_entries Q t"
  by (auto simp: all_entries_def list_all_iff)

lemma all_entries_conj: "all_entries (\<lambda>x. P x \<and> Q x) t \<longleftrightarrow> all_entries P t \<and> all_entries Q t"
  by (auto simp: all_entries_def list_all_iff)

lemma Normal_init_scale: "Normal_init v mean stddev = Inr d \<Longrightarrow> scale d = stddev \<and> loc d = mean"
  by (auto simp: Normal_init_def split: if_splits)

lemma Normal_init_Inr_iff:
  "Normal_init v mean stddev = Inr d \<longleftrightarrow>
     (v \<longrightarrow> all_entries isfinite mean \<and> all_entries (\<lambda>x. Finite 0 < x) stddev) \<and>
     loc d = mean \<and> scale d = stddev"
  by (auto simp: Normal_init_def)

lemma Normal_init_error: "Normal_init v mean stddev = Inl e \<Longrightarrow> e = ValueError"
  by (auto simp: Normal_init_def split: if_splits)

lemma const_tensor_shape: "nrows (const_tensor b n c) = b" "ncols (const_tensor b n c) = n"
  by (simp_all add: const_tensor_def nrows_def)

lemma all_entries_const: "all_entries P (const_tensor b n c) = (b = 0 \<or> n = 0 \<or> P c)"
  by (auto simp: all_entries_def const_tensor_def list_all_iff)

lemma map_tensor_const: "map_tensor f (const_tensor b n c) = const_tensor b n (f c)"
  by (simp add: map_tensor_def const_tensor_def)

lemma map2_tensor_const:
  "map2_tensor f (const_tensor b n x) (const_tensor b n y) = const_tensor b n (f x y)"
  by (simp add: map2_tensor_def const_tensor_def zip_replicate)

lemma tensor_ok_const: "tensor_ok (const_tensor b n c)"
  by (simp add: tensor_ok_def const_tensor_def list_all_iff)

lemma cat1_ncols:
  "nrows x = nrows y \<Longrightarrow> \<exists>t. cat1 x y = Inr t \<and> ncols t = ncols x + ncols y \<and> nrows t = nrows x"
  by (simp add: cat1_def nrows_def)

lemma cat1_entries:
  assumes "cat1 x y = Inr t" "all_entries P x" "all_entries P y"
  shows "all_entries P t"
proof -
  from assms(1) have t: "rows t = map2 (@) (rows x) (rows y)"
    by (auto simp: cat1_def split: if_splits)
  have "list_all P r" if "r \<in> set (rows t)" for r
  proof -
    from that obtain a b where "r = a @ b" "a \<in> set (rows x)" "b \<in> set (rows y)"
      unfolding t by (auto dest: set_zip_leftD set_zip_rightD)
    with assms(2,3) show ?thesis by (auto simp: all_entries_def list_all_iff)
  qed
  then show ?thesis by (simp add: all_entries_def list_all_iff)
qed

text \<open>A layer with zero weights returns its bias, whatever finite numbers it is given.\<close>

lemma sum_forward_zero:
  assumes "list_all isfinite x" "round32 c = Finite c"
  shows "sum_forward (replicate n (Finite 0)) x (Finite c) = Finite c"
  using assms(1)
proof (induction n arbitrary: x)
  case 0
  show ?case by (simp add: sum_forward_def)
next
  case (Suc n)
  show ?case
  proof (cases x)
    case Nil
    then show ?thesis by (simp add: sum_forward_def)
  next
    case (Cons a x')
    with Suc.prems obtain u where a: "a = Finite u" and x': "list_all isfinite x'"
      by (cases a) simp_all
    from Suc.IH [OF x'] show ?thesis
      by (simp add: sum_forward_def Cons a assms(2))
  qed
qed

lemma affine_zero:
  assumes "list_all isfinite x" "round32 c = Finite c"
  shows "affine sum_forward (replicate k (replicate n (Finite 0))) (replicate k (Finite c)) x =
           replicate k (Finite c)"
  by (simp add: affine_def zip_replicate map_replicate_const sum_forward_zero [OF assms])

lemma zero_Linear_biased: "zero_Linear i out = biased_Linear i out (Finite 0)"
  by (simp add: biased_Linear_def zero_Linear_def)

lemma Linear_forward_biased:
  assumes "all_entries isfinite x" "round32 c = Finite c"
  shows "Linear_forward (biased_Linear i out (Finite c)) x =
     (if ncols x \<noteq> i then Inl RuntimeError else Inr (const_tensor (nrows x) out (Finite c)))"
proof -
  have "map (affine sum_forward (replicate out (replicate i (Finite 0))) (replicate out (Finite c)))
          (rows x) = replicate (length (rows x)) (replicate out (Finite c))"
    using assms(1)
    by (intro map_replicate_const [THEN trans [rotated]] map_cong)
       (auto simp: all_entries_def list_all_iff affine_zero assms(2))
  then show ?thesis
    by (simp add: Linear_forward_def biased_Linear_def zero_Linear_def const_tensor_def nrows_def)
qed

lemma Linear_forward_zero:
  assumes "all_entries isfinite x"
  shows "Linear_forward (zero_Linear i out) x =
     (if ncols x \<noteq> i then Inl RuntimeError else Inr (const_tensor (nrows x) out (Finite 0)))"
  unfolding zero_Linear_biased using assms by (intro Linear_forward_biased) simp_all

lemma map2_replicate_right: "map2 f xs (replicate (length xs) c) = map (\<lambda>r. f r c) xs"
  by (induction xs) simp_all

lemma zero_GRUCell_sizes: "input_size (zero_GRUCell i h) = i" "hidden_size (zero_GRUCell i h) = h"
  by (simp_all add: zero_GRUCell_def)

lemma gru_row_zero:
  assumes "list_all isfinite x" "round32 c = Finite c" "round32 (c / 2) = Finite (c / 2)"
  shows "gru_row (zero_GRUCell i h) b x (replicate h (Finite c)) = replicate h (Finite (c / 2))"
proof -
  have x: "affine sum_forward (replicate (3 * h) (replicate i (Finite 0)))
             (replicate (3 * h) (Finite 0)) x = replicate (3 * h) (Finite 0)"
    using assms(1) by (intro affine_zero) simp_all
  have hh: "affine sum_forward (replicate (3 * h) (replicate h (Finite 0)))
             (replicate (3 * h) (Finite 0)) (replicate h (Finite c)) = replicate (3 * h) (Finite 0)"
    by (intro affine_zero) (simp_all add: list_all_iff)
  show ?thesis
    by (simp add: gru_row_def zero_GRUCell_def x hh Let_def zip_replicate map_replicate_const
        minus_f32_def assms(2,3))
qed

lemma GRUCell_forward_zero:
  assumes "all_entries isfinite x" "nrows x = b" "ncols x = i"
    and "round32 c = Finite c" "round32 (c / 2) = Finite (c / 2)"
  shows "GRUCell_forward (zero_GRUCell i h) x (const_tensor b h (Finite c)) =
           Inr (const_tensor b h (Finite (c / 2)))"
proof -
  have "map2 (gru_row (zero_GRUCell i h) b) (rows x) (replicate b (replicate h (Finite c))) =
          replicate b (replicate h (Finite (c / 2)))"
  proof -
    have "map2 (gru_row (zero_GRUCell i h) b) (rows x) (replicate b (replicate h (Finite c))) =
            map (\<lambda>r. gru_row (zero_GRUCell i h) b r (replicate h (Finite c))) (rows x)"
      using assms(2) map2_replicate_right [of _ "rows x"] by (simp add: nrows_def)
    also have "\<dots> = map (\<lambda>r. replicate h (Finite (c / 2))) (rows x)"
      using assms(1)
      by (intro map_cong) (auto simp: all_entries_def list_all_iff gru_row_zero assms(4,5))
    also have "\<dots> = replicate b (replicate h (Finite (c / 2)))"
      using assms(2) by (simp add: map_replicate_const nrows_def)
    finally show ?thesis .
  qed
  then show ?thesis
    using assms(2,3)
    by (simp add: GRUCell_forward_def const_tensor_def nrows_def zero_GRUCell_sizes)
qed

lemma zero_RSSM_biased: "zero_RSSM sd ad rd hid ms v = biased_RSSM sd ad rd hid ms v (Finite 0)"
  by (simp add: biased_RSSM_def zero_RSSM_def zero_Linear_biased)

lemma prior_biased:
  assumes "nrows state = b" "nrows action = b" "ncols state + ncols action = sd + ad"
    and "all_entries isfinite state" "all_entries isfinite action"
    and "round32 c = Finite c" "round32 (c / 2) = Finite (c / 2)" "round32 k = Finite k"
  shows "prior (biased_RSSM sd ad rd hid ms v (Finite k)) state action (const_tensor b rd (Finite c)) =
         (if v \<and> \<not> (b = 0 \<or> sd = 0 \<or> Finite 0 < F_softplus (Finite k) + round32 ms)
          then Inl ValueError
          else Inr (\<lparr>loc = const_tensor b sd (Finite 0),
                     scale = const_tensor b sd (F_softplus (Finite k) + round32 ms)\<rparr>,
                    const_tensor b rd (Finite (c / 2))))"
proof -
  from assms obtain t where t: "cat1 state action = Inr t" "ncols t = sd + ad" "nrows t = b"
    using cat1_ncols [of state action] by auto
  have ft: "all_entries isfinite t" using t(1) assms(4,5) by (rule cat1_entries)
  have g: "GRUCell_forward (zero_GRUCell hid rd) (const_tensor b hid (Finite 0))
             (const_tensor b rd (Finite c)) = Inr (const_tensor b rd (Finite (c / 2)))"
    using assms(6,7) by (intro GRUCell_forward_zero) (simp_all add: all_entries_const const_tensor_shape)
  show ?thesis
    using t ft assms(8)
    by (simp add: prior_def biased_RSSM_def zero_RSSM_def ebind_def Linear_forward_zero
        Linear_forward_biased const_tensor_shape map_tensor_const g
        Normal_init_def all_entries_const)
qed

lemma prior_zero:
  assumes "nrows state = b" "nrows action = b" "ncols state + ncols action = sd + ad"
    and "all_entries isfinite state" "all_entries isfinite action"
    and "round32 c = Finite c" "round32 (c / 2) = Finite (c / 2)"
  shows "prior (zero_RSSM sd ad rd hid ms v) state action (const_tensor b rd (Finite c)) =
         (if v \<and> \<not> (b = 0 \<or> sd = 0 \<or> Finite 0 < round32 (ln 2) + round32 ms)
          then Inl ValueError
          else Inr (\<lparr>loc = const_tensor b sd (Finite 0),
                     scale = const_tensor b sd (round32 (ln 2) + round32 ms)\<rparr>,
                    const_tensor b rd (Finite (c / 2))))"
  unfolding zero_RSSM_biased F_softplus_0 [symmetric]
  using assms by (intro prior_biased) simp_all

lemma posterior_zero:
  assumes "nrows rnn_hidden = b" "nrows embedded_obs = b"
    "ncols rnn_hidden = rd" "ncols embedded_obs = 1024"
    and "all_entries isfinite rnn_hidden" "all_entries isfinite embedded_obs"
  shows "posterior (zero_RSSM sd ad rd hid ms v) rnn_hidden embedded_obs =
         (if v \<and> \<not> (b = 0 \<or> sd = 0 \<or> Finite 0 < round32 (ln 2) + round32 ms)
          then Inl ValueError
          else Inr \<lparr>loc = const_tensor b sd (Finite 0),
                    scale = const_tensor b sd (round32 (ln 2) + round32 ms)\<rparr>)"
proof -
  from assms obtain t where t: "cat1 rnn_hidden embedded_obs = Inr t" "ncols t = rd + 1024" "nrows t = b"
    using cat1_ncols [of rnn_hidden embedded_obs] by auto
  have ft: "all_entries isfinite t" using t(1) assms(5,6) by (rule cat1_entries)
  show ?thesis
    using t ft
    by (simp add: posterior_def zero_RSSM_def ebind_def Linear_forward_zero
        const_tensor_shape map_tensor_const F_softplus_0
        Normal_init_def all_entries_const)
qed

text \<open>The standard deviation of the zero model with the default floor is positive.\<close>

lemma round32_tenth: "\<exists>v. round32 (1 / 10) = Finite v \<and> 1 / 16 \<le> v \<and> v \<le> 1"
  using round32_between [of "1 / 16" "1 / 10" 1] by (simp add: round32_sixteenth)

lemma zero_scale_pos: "Finite 0 < round32 (ln 2) + round32 (1 / 10)"
proof -
  obtain a where a: "round32 (ln 2) = Finite a" "1 / 2 \<le> a" using round32_ln2 by blast
  obtain f where f: "round32 (1 / 10) = Finite f" "1 / 16 \<le> f" using round32_tenth by blast
  have "round32 (1 / 2 + 0) \<le> Finite a + Finite f"
    using a(2) f(2) by (intro add_lower) simp_all
  then have "Finite (1 / 2) \<le> round32 (ln 2) + round32 (1 / 10)" by (simp add: a f)
  moreover have "Finite 0 < Finite (1 / 2)" by simp
  ultimately show ?thesis using f32_less_le_trans by blast
qed

lemma floor_tenth_pos: "Finite 0 < round32 (1 / 10)"
proof -
  obtain f where f: "round32 (1 / 10) = Finite f" "1 / 16 \<le> f" using round32_tenth by blast
  then show ?thesis by simp
qed

lemma Linear_ok_zero: "Linear_ok i out (zero_Linear i out)"
  by (simp add: Linear_ok_def zero_Linear_def list_all_iff)

lemma Linear_ok_biased: "Linear_ok i out (biased_Linear i out c)"
  by (simp add: Linear_ok_def biased_Linear_def zero_Linear_def list_all_iff)

lemma GRUCell_ok_zero: "GRUCell_ok i h (zero_GRUCell i h)"
  by (simp add: GRUCell_ok_def zero_GRUCell_def list_all_iff)

lemma RSSM_init_zero: "RSSM_init sd ad rd hid ms F_elu (zero_RSSM sd ad rd hid ms v)"
  by (simp add: RSSM_init_def zero_RSSM_def Linear_ok_zero GRUCell_ok_zero)

lemma RSSM_init_biased: "RSSM_init sd ad rd hid ms F_elu (biased_RSSM sd ad rd hid ms v c)"
  by (simp add: RSSM_init_def biased_RSSM_def zero_RSSM_def Linear_ok_zero Linear_ok_biased
      GRUCell_ok_zero)

lemma length_affine: "length (affine k W b x) = min (length W) (length b)"
  by (simp add: affine_def)

lemma tensor_ok_Tensor: "tensor_ok (Tensor n rs) \<longleftrightarrow> (\<forall>r\<in>set rs. length r = n)"
  by (simp add: tensor_ok_def list_all_iff)

lemma Linear_forward_ok:
  assumes "Linear_ok i out l" "ncols x = i"
  shows "\<exists>y. Linear_forward l x = Inr y \<and> nrows y = nrows x \<and> ncols y = out \<and> tensor_ok y"
  using assms
  by (auto simp: Linear_forward_def Linear_ok_def nrows_def tensor_ok_Tensor length_affine)

lemma Linear_forward_bad:
  assumes "Linear_ok i out l" "ncols x \<noteq> i"
  shows "Linear_forward l x = Inl RuntimeError"
  using assms by (simp add: Linear_forward_def Linear_ok_def)

lemma map_tensor_shape:
  "nrows (map_tensor f t) = nrows t" "ncols (map_tensor f t) = ncols t"
  "tensor_ok (map_tensor f t) = tensor_ok t"
  by (simp_all add: map_tensor_def nrows_def tensor_ok_def list_all_iff)

lemma length_gru_row:
  assumes "GRUCell_ok i h c" "length hr = h"
  shows "length (gru_row c b x hr) = h"
  using assms by (simp add: gru_row_def GRUCell_ok_def Let_def length_affine)

lemma GRUCell_forward_ok:
  assumes "GRUCell_ok i h c" "ncols x = i" "nrows x = nrows hx" "ncols hx = h"
  shows "\<exists>y. GRUCell_forward c x hx = Inr y \<and> nrows y = nrows x \<and> ncols y = h \<and>
           (tensor_ok hx \<longrightarrow> tensor_ok y)"
proof -
  have sz: "input_size c = i" "hidden_size c = h"
    using assms(1) by (simp_all add: GRUCell_ok_def)
  have "tensor_ok (Tensor h (map2 (gru_row c (nrows x)) (rows x) (rows hx)))" if "tensor_ok hx"
    unfolding tensor_ok_Tensor
  proof
    fix r assume "r \<in> set (map2 (gru_row c (nrows x)) (rows x) (rows hx))"
    then obtain xr hr where "r = gru_row c (nrows x) xr hr" "hr \<in> set (rows hx)"
      by (auto dest: set_zip_rightD)
    moreover from that assms(4) \<open>hr \<in> set (rows hx)\<close> have "length hr = h"
      by (simp add: tensor_ok_def list_all_iff)
    ultimately show "length r = h"
      using length_gru_row [OF assms(1)] by simp
  qed
  then show ?thesis
    using assms(2-4) sz by (simp add: GRUCell_forward_def nrows_def)
qed

lemma GRUCell_forward_bad:
  assumes "GRUCell_ok i h c" "ncols x \<noteq> i \<or> nrows x \<noteq> nrows hx \<or> ncols hx \<noteq> h"
  shows "GRUCell_forward c x hx = Inl RuntimeError"
  using assms by (auto simp: GRUCell_forward_def GRUCell_ok_def)

lemma cat1_bad: "nrows x \<noteq> nrows y \<Longrightarrow> cat1 x y = Inl RuntimeError"
  by (simp add: cat1_def)

text \<open>
  With sizes that fit, \<^verbatim>\<open>prior\<close> computes a mean, a standard deviation and a
  deterministic state of the shapes of its contract, and its outcome is that of the
  construction of the distribution from them.
\<close>

lemma prior_fits:
  assumes init: "RSSM_init sd ad rd hid ms a m"
    and fit: "prior_shapes_fit sd ad rd state action rnn_hidden"
  shows "\<exists>mean stddev h'.
           shape mean = (nrows state, sd) \<and> shape stddev = (nrows state, sd) \<and>
           shape h' = (nrows state, rd) \<and> tensor_ok mean \<and> tensor_ok stddev \<and>
           (tensor_ok rnn_hidden \<longrightarrow> tensor_ok h') \<and>
           prior m state action rnn_hidden =
             (if validate_args m \<and>
                 \<not> (all_entries isfinite mean \<and> all_entries (\<lambda>x. Finite 0 < x) stddev)
              then Inl ValueError else Inr (\<lparr>loc = mean, scale = stddev\<rparr>, h'))"
proof -
  from fit have f: "nrows state = nrows action" "nrows rnn_hidden = nrows state"
    "ncols state + ncols action = sd + ad" "ncols rnn_hidden = rd"
    by (simp_all add: prior_shapes_fit_def)
  from init have l: "Linear_ok (sd + ad) hid (fc_state_action m)"
    "Linear_ok rd hid (fc_rnn_hidden m)" "Linear_ok hid sd (fc_state_mean_prior m)"
    "Linear_ok hid sd (fc_state_stddev_prior m)" "GRUCell_ok hid rd (rnn m)"
    by (simp_all add: RSSM_init_def)
  obtain sa where sa: "cat1 state action = Inr sa" "ncols sa = sd + ad" "nrows sa = nrows state"
    using cat1_ncols [OF f(1)] f(3) by auto
  obtain y where y: "Linear_forward (fc_state_action m) sa = Inr y" "nrows y = nrows state"
    "ncols y = hid"
    using Linear_forward_ok [OF l(1) sa(2)] sa(3) by auto
  let ?hidden = "map_tensor (act m) y"
  obtain h' where h': "GRUCell_forward (rnn m) ?hidden rnn_hidden = Inr h'"
    "nrows h' = nrows state" "ncols h' = rd" "tensor_ok rnn_hidden \<longrightarrow> tensor_ok h'"
    using GRUCell_forward_ok [OF l(5), of ?hidden rnn_hidden] y f
    by (auto simp: map_tensor_shape)
  obtain y2 where y2: "Linear_forward (fc_rnn_hidden m) h' = Inr y2" "nrows y2 = nrows state"
    "ncols y2 = hid"
    using Linear_forward_ok [OF l(2) h'(3)] h'(2) by auto
  let ?hidden2 = "map_tensor (act m) y2"
  obtain mean where mean: "Linear_forward (fc_state_mean_prior m) ?hidden2 = Inr mean"
    "nrows mean = nrows state" "ncols mean = sd" "tensor_ok mean"
    using Linear_forward_ok [OF l(3), of ?hidden2] y2 by (auto simp: map_tensor_shape)
  obtain raw where raw: "Linear_forward (fc_state_stddev_prior m) ?hidden2 = Inr raw"
    "nrows raw = nrows state" "ncols raw = sd" "tensor_ok raw"
    using Linear_forward_ok [OF l(4), of ?hidden2] y2 by (auto simp: map_tensor_shape)
  let ?stddev = "map_tensor (\<lambda>x. F_softplus x + min_stddev m) raw"
  have "prior m state action rnn_hidden =
          (if validate_args m \<and>
              \<not> (all_entries isfinite mean \<and> all_entries (\<lambda>x. Finite 0 < x) ?stddev)
           then Inl ValueError else Inr (\<lparr>loc = mean, scale = ?stddev\<rparr>, h'))"
    using sa(1) y(1) h'(1) y2(1) mean(1) raw(1)
    by (simp add: prior_def ebind_Inr ebind_Inl Let_def Normal_init_def)
  moreover have "shape mean = (nrows state, sd)" "shape ?stddev = (nrows state, sd)"
    "shape h' = (nrows state, rd)" "tensor_ok ?stddev"
    using mean raw h' by (simp_all add: shape_def map_tensor_shape)
  ultimately show ?thesis using mean(4) h'(4) by blast
qed

lemma prior_rejects:
  assumes init: "RSSM_init sd ad rd hid ms a m"
    and unfit: "\<not> prior_shapes_fit sd ad rd state action rnn_hidden"
  shows "prior m state action rnn_hidden = Inl RuntimeError"
proof (cases "nrows state = nrows action")
  case False
  then show ?thesis by (simp add: prior_def cat1_bad ebind_Inl)
next
  case True
  from init have l: "Linear_ok (sd + ad) hid (fc_state_action m)" "GRUCell_ok hid rd (rnn m)"
    by (simp_all add: RSSM_init_def)
  obtain sa where sa: "cat1 state action = Inr sa" "ncols sa = ncols state + ncols action"
    "nrows sa = nrows state"
    using cat1_ncols [OF True] by auto
  show ?thesis
  proof (cases "ncols state + ncols action = sd + ad")
    case False
    with sa have "Linear_forward (fc_state_action m) sa = Inl RuntimeError"
      using Linear_forward_bad [OF l(1)] by simp
    with sa(1) show ?thesis by (simp add: prior_def ebind_Inr ebind_Inl)
  next
    case widths: True
    with sa obtain y where y: "Linear_forward (fc_state_action m) sa = Inr y"
      "nrows y = nrows state" "ncols y = hid"
      using Linear_forward_ok [OF l(1), of sa] by auto
    from unfit True widths have "nrows state \<noteq> nrows rnn_hidden \<or> ncols rnn_hidden \<noteq> rd"
      by (auto simp: prior_shapes_fit_def)
    then have "GRUCell_forward (rnn m) (map_tensor (act m) y) rnn_hidden = Inl RuntimeError"
      using GRUCell_forward_bad [OF l(2), of "map_tensor (act m) y" rnn_hidden] y
      by (auto simp: map_tensor_shape)
    with sa(1) y(1) show ?thesis by (simp add: prior_def ebind_Inr ebind_Inl Let_def)
  qed
qed

section \<open>The rows of a batch\<close>

lemma row_tensor_shape: "ncols (row_tensor t i) = ncols t"
  "nrows (row_tensor t i) = (if i < nrows t then 1 else 0)"
  by (auto simp: row_tensor_def nrows_def)

lemma map_tensor_row: "map_tensor f (row_tensor t i) = row_tensor (map_tensor f t) i"
  by (simp add: map_tensor_def row_tensor_def take_map drop_map)

lemma cat1_row:
  assumes "cat1 x y = Inr t"
  shows "cat1 (row_tensor x i) (row_tensor y i) = Inr (row_tensor t i)"
proof -
  from assms have n: "nrows x = nrows y"
    and t: "t = Tensor (ncols x + ncols y) (map2 (@) (rows x) (rows y))"
    by (auto simp: cat1_def split: if_splits)
  show ?thesis
    using n unfolding t
    by (simp add: cat1_def row_tensor_shape) (simp add: row_tensor_def take_map drop_map take_zip drop_zip)
qed

lemma Linear_at_simps:
  "in_features (Linear_at n l) = in_features l" "out_features (Linear_at n l) = out_features l"
  "weight (Linear_at n l) = weight l" "bias (Linear_at n l) = bias l"
  "kernel (Linear_at n l) b = kernel l n"
  by (simp_all add: Linear_at_def)

lemma GRUCell_at_simps:
  "input_size (GRUCell_at n c) = input_size c" "hidden_size (GRUCell_at n c) = hidden_size c"
  "weight_ih (GRUCell_at n c) = weight_ih c" "weight_hh (GRUCell_at n c) = weight_hh c"
  "bias_ih (GRUCell_at n c) = bias_ih c" "bias_hh (GRUCell_at n c) = bias_hh c"
  "cell_kernel (GRUCell_at n c) b = cell_kernel c n"
  by (simp_all add: GRUCell_at_def)

lemma at_batch_size_simps:
  "fc_state_action (at_batch_size n m) = Linear_at n (fc_state_action m)"
  "fc_rnn_hidden (at_batch_size n m) = Linear_at n (fc_rnn_hidden m)"
  "fc_state_mean_prior (at_batch_size n m) = Linear_at n (fc_state_mean_prior m)"
  "fc_state_stddev_prior (at_batch_size n m) = Linear_at n (fc_state_stddev_prior m)"
  "fc_rnn_hidden_embedded_obs (at_batch_size n m) = Linear_at n (fc_rnn_hidden_embedded_obs m)"
  "fc_state_mean_posterior (at_batch_size n m) = Linear_at n (fc_state_mean_posterior m)"
  "fc_state_stddev_posterior (at_batch_size n m) = Linear_at n (fc_state_stddev_posterior m)"
  "rnn (at_batch_size n m) = GRUCell_at n (rnn m)"
  "act (at_batch_size n m) = act m" "min_stddev (at_batch_size n m) = min_stddev m"
  "validate_args (at_batch_size n m) = validate_args m"
  by (simp_all add: at_batch_size_def)

lemma gru_row_at: "gru_row (GRUCell_at n c) b = gru_row c n"
  by (intro ext) (simp add: gru_row_def GRUCell_at_simps)

lemma Linear_forward_row:
  assumes "Linear_forward l x = Inr y" "nrows x = n"
  shows "Linear_forward (Linear_at n l) (row_tensor x i) = Inr (row_tensor y i)"
  using assms
  by (auto simp: Linear_forward_def Linear_at_simps row_tensor_def take_map drop_map
      split: if_splits)

lemma GRUCell_forward_row:
  assumes "GRUCell_forward c x hx = Inr y" "nrows x = n"
  shows "GRUCell_forward (GRUCell_at n c) (row_tensor x i) (row_tensor hx i) = Inr (row_tensor y i)"
proof -
  from assms have n: "nrows x = nrows hx" "ncols x = input_size c" "ncols hx = hidden_size c"
    and y: "y = Tensor (hidden_size c) (map2 (gru_row c n) (rows x) (rows hx))"
    by (auto simp: GRUCell_forward_def split: if_splits)
  show ?thesis
    using n unfolding y
    by (simp add: GRUCell_forward_def row_tensor_shape GRUCell_at_simps gru_row_at)
       (simp add: row_tensor_def take_map drop_map take_zip drop_zip)
qed

lemma all_entries_row: "all_entries P t \<Longrightarrow> all_entries P (row_tensor t i)"
  by (auto simp: all_entries_def row_tensor_def list_all_iff dest!: in_set_takeD in_set_dropD)

lemma Normal_init_row:
  assumes "Normal_init v mean stddev = Inr d"
  shows "Normal_init v (row_tensor mean i) (row_tensor stddev i) = Inr (row_Normal d i)"
  using assms
  by (auto simp: Normal_init_def row_Normal_def all_entries_row split: if_splits)

lemma cat1_nrows: "cat1 x y = Inr t \<Longrightarrow> nrows y = nrows x \<and> nrows t = nrows x"
  by (auto simp: cat1_def nrows_def split: if_splits)

lemma Linear_forward_nrows: "Linear_forward l x = Inr y \<Longrightarrow> nrows y = nrows x"
  by (auto simp: Linear_forward_def nrows_def split: if_splits)

lemma GRUCell_forward_nrows:
  "GRUCell_forward c x hx = Inr y \<Longrightarrow> nrows hx = nrows x \<and> nrows y = nrows x"
  by (auto simp: GRUCell_forward_def nrows_def split: if_splits)

lemma map_tensor_nrows: "nrows (map_tensor f t) = nrows t"
  by (simp add: map_tensor_def nrows_def)

lemma prior_row:
  assumes "prior m state action rnn_hidden = Inr (d, h')"
  shows "prior (at_batch_size (nrows state) m) (row_tensor state i) (row_tensor action i)
           (row_tensor rnn_hidden i) = Inr (row_Normal d i, row_tensor h' i)"
proof -
  from assms obtain sa y0 y mean raw where
    s: "cat1 state action = Inr sa" "Linear_forward (fc_state_action m) sa = Inr y0"
      "GRUCell_forward (rnn m) (map_tensor (act m) y0) rnn_hidden = Inr h'"
      "Linear_forward (fc_rnn_hidden m) h' = Inr y"
      "Linear_forward (fc_state_mean_prior m) (map_tensor (act m) y) = Inr mean"
      "Linear_forward (fc_state_stddev_prior m) (map_tensor (act m) y) = Inr raw"
      "Normal_init (validate_args m) mean (map_tensor (\<lambda>x. F_softplus x + min_stddev m) raw) = Inr d"
    unfolding prior_def Let_def by (auto simp: ebind_Inr_iff)
  have n: "nrows sa = nrows state" "nrows (map_tensor (act m) y0) = nrows state"
    "nrows h' = nrows state" "nrows (map_tensor (act m) y) = nrows state"
    using cat1_nrows [OF s(1)] Linear_forward_nrows [OF s(2)] GRUCell_forward_nrows [OF s(3)]
      Linear_forward_nrows [OF s(4)]
    by (simp_all add: map_tensor_nrows)
  show ?thesis
    unfolding prior_def Let_def at_batch_size_simps
    by (simp add: cat1_row [OF s(1)] Linear_forward_row [OF s(2) n(1)] ebind_Inr map_tensor_row
        GRUCell_forward_row [OF s(3) n(2)] Linear_forward_row [OF s(4) n(3)]
        Linear_forward_row [OF s(5) n(4)] Linear_forward_row [OF s(6) n(4)]
        Normal_init_row [OF s(7)])
qed

lemma posterior_row:
  assumes "posterior m rnn_hidden embedded_obs = Inr d"
  shows "posterior (at_batch_size (nrows rnn_hidden) m) (row_tensor rnn_hidden i)
           (row_tensor embedded_obs i) = Inr (row_Normal d i)"
proof -
  from assms obtain he y mean raw where
    s: "cat1 rnn_hidden embedded_obs = Inr he"
      "Linear_forward (fc_rnn_hidden_embedded_obs m) he = Inr y"
      "Linear_forward (fc_state_mean_posterior m) (map_tensor (act m) y) = Inr mean"
      "Linear_forward (fc_state_stddev_posterior m) (map_tensor (act m) y) = Inr raw"
      "Normal_init (validate_args m) mean (map_tensor (\<lambda>x. F_softplus x + min_stddev m) raw) = Inr d"
    unfolding posterior_def Let_def by (auto simp: ebind_Inr_iff)
  have n: "nrows he = nrows rnn_hidden" "nrows (map_tensor (act m) y) = nrows rnn_hidden"
    using cat1_nrows [OF s(1)] Linear_forward_nrows [OF s(2)]
    by (simp_all add: map_tensor_nrows)
  show ?thesis
    unfolding posterior_def Let_def at_batch_size_simps
    by (simp add: cat1_row [OF s(1)] Linear_forward_row [OF s(2) n(1)] ebind_Inr map_tensor_row
        Linear_forward_row [OF s(3) n(2)] Linear_forward_row [OF s(4) n(2)]
        Normal_init_row [OF s(5)])
qed

lemma cat1_row_eq:
  assumes "nrows x = nrows y"
  shows "cat1 (row_tensor x i) (row_tensor y i) = map_sum id (\<lambda>t. row_tensor t i) (cat1 x y)"
proof -
  from assms obtain t where "cat1 x y = Inr t" by (auto simp: cat1_def)
  then show ?thesis by (simp add: cat1_row)
qed

lemma Linear_forward_row_eq:
  assumes "nrows x = n"
  shows "Linear_forward (Linear_at n l) (row_tensor x i) =
           map_sum id (\<lambda>t. row_tensor t i) (Linear_forward l x)"
proof (cases "Linear_forward l x")
  case (Inr y)
  then show ?thesis by (simp add: Linear_forward_row [OF Inr assms])
next
  case (Inl e)
  then show ?thesis
    by (auto simp: Linear_forward_def Linear_at_simps row_tensor_shape split: if_splits)
qed

lemma GRUCell_forward_row_eq:
  assumes "nrows x = nrows hx" "nrows x = n"
  shows "GRUCell_forward (GRUCell_at n c) (row_tensor x i) (row_tensor hx i) =
           map_sum id (\<lambda>t. row_tensor t i) (GRUCell_forward c x hx)"
proof (cases "GRUCell_forward c x hx")
  case (Inr y)
  then show ?thesis by (simp add: GRUCell_forward_row [OF Inr assms(2)])
next
  case (Inl e)
  with assms show ?thesis
    by (auto simp: GRUCell_forward_def GRUCell_at_simps row_tensor_shape split: if_splits)
qed

lemma prior_nrows:
  assumes "prior m state action rnn_hidden = Inr (d, h')"
  shows "nrows action = nrows state \<and> nrows rnn_hidden = nrows state \<and>
         nrows (loc d) = nrows state \<and> nrows (scale d) = nrows state \<and> nrows h' = nrows state"
  using assms unfolding prior_def Let_def
  by (auto simp: ebind_Inr_iff Normal_init_Inr_iff map_tensor_shape
      dest!: cat1_nrows Linear_forward_nrows GRUCell_forward_nrows)

lemma posterior_nrows:
  assumes "posterior m rnn_hidden embedded_obs = Inr d"
  shows "nrows embedded_obs = nrows rnn_hidden \<and>
         nrows (loc d) = nrows rnn_hidden \<and> nrows (scale d) = nrows rnn_hidden"
  using assms unfolding posterior_def Let_def
  by (auto simp: ebind_Inr_iff Normal_init_Inr_iff map_tensor_shape
      dest!: cat1_nrows Linear_forward_nrows)

lemma ebind_row:
  assumes "x' = map_sum id r x" and "\<And>v. x = Inr v \<Longrightarrow> f' (r v) = map_sum id R (f v)"
  shows "ebind x' f' = map_sum id R (ebind x f)"
  using assms by (cases x) (simp_all add: ebind_def)

lemma prior_unvalidated_row:
  assumes nv: "\<not> validate_args m"
    and n: "nrows action = nrows state" "nrows rnn_hidden = nrows state"
  shows "prior (at_batch_size (nrows state) m) (row_tensor state i) (row_tensor action i)
           (row_tensor rnn_hidden i) =
           map_sum id (\<lambda>(d, h'). (row_Normal d i, row_tensor h' i))
             (prior m state action rnn_hidden)"
  unfolding prior_def Let_def at_batch_size_simps
proof (rule ebind_row [OF cat1_row_eq])
  show "nrows state = nrows action" by (simp add: n)
next
  fix sa assume sa: "cat1 state action = Inr sa"
  have nsa: "nrows sa = nrows state" using cat1_nrows [OF sa] by simp
  show "ebind (Linear_forward (Linear_at (nrows state) (fc_state_action m)) (row_tensor sa i))
          (\<lambda>y. ebind (GRUCell_forward (GRUCell_at (nrows state) (rnn m)) (map_tensor (act m) y)
             (row_tensor rnn_hidden i))
           (\<lambda>rnn_hidden.
              ebind (Linear_forward (Linear_at (nrows state) (fc_rnn_hidden m)) rnn_hidden)
               (\<lambda>y. ebind (Linear_forward (Linear_at (nrows state) (fc_state_mean_prior m))
                        (map_tensor (act m) y))
                 (\<lambda>mean. ebind (Linear_forward (Linear_at (nrows state) (fc_state_stddev_prior m))
                            (map_tensor (act m) y))
                   (\<lambda>raw. ebind (Normal_init (validate_args m) mean
                              (map_tensor (\<lambda>x. F_softplus x + min_stddev m) raw))
                     (\<lambda>d. Inr (d, rnn_hidden))))))) =
        map_sum id (\<lambda>(d, h'). (row_Normal d i, row_tensor h' i))
         (ebind (Linear_forward (fc_state_action m) sa)
           (\<lambda>y. ebind (GRUCell_forward (rnn m) (map_tensor (act m) y) rnn_hidden)
              (\<lambda>rnn_hidden.
                 ebind (Linear_forward (fc_rnn_hidden m) rnn_hidden)
                  (\<lambda>y. ebind (Linear_forward (fc_state_mean_prior m) (map_tensor (act m) y))
                    (\<lambda>mean. ebind (Linear_forward (fc_state_stddev_prior m) (map_tensor (act m) y))
                      (\<lambda>raw. ebind (Normal_init (validate_args m) mean
                                 (map_tensor (\<lambda>x. F_softplus x + min_stddev m) raw))
                        (\<lambda>d. Inr (d, rnn_hidden))))))))"
  proof (rule ebind_row [OF Linear_forward_row_eq [OF nsa]])
    fix y0 assume y0: "Linear_forward (fc_state_action m) sa = Inr y0"
    have ny0: "nrows (map_tensor (act m) y0) = nrows state"
      using Linear_forward_nrows [OF y0] nsa by (simp add: map_tensor_nrows)
    show "ebind (GRUCell_forward (GRUCell_at (nrows state) (rnn m)) (map_tensor (act m) (row_tensor y0 i))
             (row_tensor rnn_hidden i))
           (\<lambda>rnn_hidden.
              ebind (Linear_forward (Linear_at (nrows state) (fc_rnn_hidden m)) rnn_hidden)
               (\<lambda>y. ebind (Linear_forward (Linear_at (nrows state) (fc_state_mean_prior m))
                        (map_tensor (act m) y))
                 (\<lambda>mean. ebind (Linear_forward (Linear_at (nrows state) (fc_state_stddev_prior m))
                            (map_tensor (act m) y))
                   (\<lambda>raw. ebind (Normal_init (validate_args m) mean
                              (map_tensor (\<lambda>x. F_softplus x + min_stddev m) raw))
                     (\<lambda>d. Inr (d, rnn_hidden)))))) =
          map_sum id (\<lambda>(d, h'). (row_Normal d i, row_tensor h' i))
           (ebind (GRUCell_forward (rnn m) (map_tensor (act m) y0) rnn_hidden)
              (\<lambda>rnn_hidden.
                 ebind (Linear_forward (fc_rnn_hidden m) rnn_hidden)
                  (\<lambda>y. ebind (Linear_forward (fc_state_mean_prior m) (map_tensor (act m) y))
                    (\<lambda>mean. ebind (Linear_forward (fc_state_stddev_prior m) (map_tensor (act m) y))
                      (\<lambda>raw. ebind (Normal_init (validate_args m) mean
                                 (map_tensor (\<lambda>x. F_softplus x + min_stddev m) raw))
                        (\<lambda>d. Inr (d, rnn_hidden)))))))"
      unfolding map_tensor_row
    proof (rule ebind_row [OF GRUCell_forward_row_eq [OF _ ny0]])
      show "nrows (map_tensor (act m) y0) = nrows rnn_hidden" using ny0 n by simp
    next
      fix h1 assume h1: "GRUCell_forward (rnn m) (map_tensor (act m) y0) rnn_hidden = Inr h1"
      have nh1: "nrows h1 = nrows state" using GRUCell_forward_nrows [OF h1] ny0 by simp
      show "ebind (Linear_forward (Linear_at (nrows state) (fc_rnn_hidden m)) (row_tensor h1 i))
               (\<lambda>y. ebind (Linear_forward (Linear_at (nrows state) (fc_state_mean_prior m))
                        (map_tensor (act m) y))
                 (\<lambda>mean. ebind (Linear_forward (Linear_at (nrows state) (fc_state_stddev_prior m))
                            (map_tensor (act m) y))
                   (\<lambda>raw. ebind (Normal_init (validate_args m) mean
                              (map_tensor (\<lambda>x. F_softplus x + min_stddev m) raw))
                     (\<lambda>d. Inr (d, row_tensor h1 i))))) =
            map_sum id (\<lambda>(d, h'). (row_Normal d i, row_tensor h' i))
             (ebind (Linear_forward (fc_rnn_hidden m) h1)
                  (\<lambda>y. ebind (Linear_forward (fc_state_mean_prior m) (map_tensor (act m) y))
                    (\<lambda>mean. ebind (Linear_forward (fc_state_stddev_prior m) (map_tensor (act m) y))
                      (\<lambda>raw. ebind (Normal_init (validate_args m) mean
                                 (map_tensor (\<lambda>x. F_softplus x + min_stddev m) raw))
                        (\<lambda>d. Inr (d, h1))))))"
      proof (rule ebind_row [OF Linear_forward_row_eq [OF nh1]])
        fix y assume y: "Linear_forward (fc_rnn_hidden m) h1 = Inr y"
        have ny: "nrows (map_tensor (act m) y) = nrows state"
          using Linear_forward_nrows [OF y] nh1 by (simp add: map_tensor_nrows)
        show "ebind (Linear_forward (Linear_at (nrows state) (fc_state_mean_prior m))
                        (map_tensor (act m) (row_tensor y i)))
                 (\<lambda>mean. ebind (Linear_forward (Linear_at (nrows state) (fc_state_stddev_prior m))
                            (map_tensor (act m) (row_tensor y i)))
                   (\<lambda>raw. ebind (Normal_init (validate_args m) mean
                              (map_tensor (\<lambda>x. F_softplus x + min_stddev m) raw))
                     (\<lambda>d. Inr (d, row_tensor h1 i)))) =
              map_sum id (\<lambda>(d, h'). (row_Normal d i, row_tensor h' i))
               (ebind (Linear_forward (fc_state_mean_prior m) (map_tensor (act m) y))
                    (\<lambda>mean. ebind (Linear_forward (fc_state_stddev_prior m) (map_tensor (act m) y))
                      (\<lambda>raw. ebind (Normal_init (validate_args m) mean
                                 (map_tensor (\<lambda>x. F_softplus x + min_stddev m) raw))
                        (\<lambda>d. Inr (d, h1)))))"
          unfolding map_tensor_row
          apply (rule ebind_row [OF Linear_forward_row_eq [OF ny]])
          apply (rule ebind_row [OF Linear_forward_row_eq [OF ny]])
          using nv apply (simp add: Normal_init_def ebind_def row_Normal_def map_tensor_row)
          done
      qed
    qed
  qed
qed

lemma posterior_unvalidated_row:
  assumes nv: "\<not> validate_args m"
    and n: "nrows embedded_obs = nrows rnn_hidden"
  shows "posterior (at_batch_size (nrows rnn_hidden) m) (row_tensor rnn_hidden i)
           (row_tensor embedded_obs i) =
           map_sum id (\<lambda>d. row_Normal d i) (posterior m rnn_hidden embedded_obs)"
  unfolding posterior_def Let_def at_batch_size_simps
  apply (rule ebind_row [OF cat1_row_eq])
   apply (simp add: n)
  apply (rule ebind_row [OF Linear_forward_row_eq])
   apply (simp add: cat1_nrows)
  apply (simp only: map_tensor_row)
  apply (rule ebind_row [OF Linear_forward_row_eq])
  subgoal by (auto dest!: cat1_nrows Linear_forward_nrows simp: map_tensor_nrows)
  apply (rule ebind_row [OF Linear_forward_row_eq])
  subgoal by (auto dest!: cat1_nrows Linear_forward_nrows simp: map_tensor_nrows)
  using nv apply (simp add: Normal_init_def row_Normal_def map_tensor_row)
  done

lemma at_batch_size_validate:
  "at_batch_size n (m\<lparr>validate_args := v\<rparr>) = (at_batch_size n m)\<lparr>validate_args := v\<rparr>"
  by (simp add: at_batch_size_def)

lemma prior_validate_split:
  "prior m state action rnn_hidden =
     ebind (prior (m\<lparr>validate_args := False\<rparr>) state action rnn_hidden)
       (\<lambda>(d, h'). if validate_args m \<and>
                      \<not> (all_entries isfinite (loc d) \<and> all_entries (\<lambda>x. Finite 0 < x) (scale d))
                   then Inl ValueError else Inr (d, h'))"
  by (auto simp: prior_def Let_def Normal_init_def ebind_def split: sum.splits)

lemma posterior_validate_split:
  "posterior m rnn_hidden embedded_obs =
     ebind (posterior (m\<lparr>validate_args := False\<rparr>) rnn_hidden embedded_obs)
       (\<lambda>d. if validate_args m \<and>
                \<not> (all_entries isfinite (loc d) \<and> all_entries (\<lambda>x. Finite 0 < x) (scale d))
             then Inl ValueError else Inr d)"
  by (auto simp: posterior_def Let_def Normal_init_def ebind_def split: sum.splits)

lemma rows_row_tensor: "i < nrows t \<Longrightarrow> rows (row_tensor t i) = [rows t ! i]"
  by (simp add: row_tensor_def nrows_def take_Suc_conv_app_nth hd_drop_conv_nth take_Suc)

lemma all_entries_rows:
  assumes "\<And>i. i < nrows t \<Longrightarrow> all_entries P (row_tensor t i)"
  shows "all_entries P t"
proof -
  have "list_all P r" if "r \<in> set (rows t)" for r
  proof -
    from that obtain i where i: "i < nrows t" "r = rows t ! i"
      by (auto simp: in_set_conv_nth nrows_def)
    from assms [OF i(1)] show ?thesis
      by (simp add: all_entries_def rows_row_tensor [OF i(1)] i(2))
  qed
  then show ?thesis by (simp add: all_entries_def list_all_iff)
qed

lemma prior_rows_succeed:
  assumes pos: "0 < nrows state"
    and n: "nrows action = nrows state" "nrows rnn_hidden = nrows state"
    and rs: "\<And>i. i < nrows state \<Longrightarrow>
      \<exists>r. prior (at_batch_size (nrows state) m) (row_tensor state i) (row_tensor action i)
             (row_tensor rnn_hidden i) = Inr r"
  shows "\<exists>r. prior m state action rnn_hidden = Inr r"
proof -
  let ?m' = "m\<lparr>validate_args := False\<rparr>"
  let ?a = "at_batch_size (nrows state) m"
  let ?a' = "at_batch_size (nrows state) ?m'"
  have nv: "\<not> validate_args ?m'" by simp
  have a': "?a' = ?a\<lparr>validate_args := False\<rparr>" by (rule at_batch_size_validate)
  have va: "validate_args ?a = validate_args m" by (simp add: at_batch_size_simps)
  note U = prior_unvalidated_row [OF nv n]
  from rs [OF pos] obtain r0 where
    "prior ?a (row_tensor state 0) (row_tensor action 0) (row_tensor rnn_hidden 0) = Inr r0" ..
  then obtain r0' where
    "prior ?a' (row_tensor state 0) (row_tensor action 0) (row_tensor rnn_hidden 0) = Inr r0'"
    unfolding a'
    by (subst (asm) prior_validate_split) (auto simp: ebind_Inr_iff)
  with U [of 0] obtain dh where "prior ?m' state action rnn_hidden = Inr dh"
    by (cases "prior ?m' state action rnn_hidden") simp_all
  then obtain d h' where b: "prior ?m' state action rnn_hidden = Inr (d, h')"
    by (cases dh) simp
  have "all_entries isfinite (loc d) \<and> all_entries (\<lambda>x. Finite 0 < x) (scale d)"
    if v: "validate_args m"
  proof -
    have row: "all_entries isfinite (row_tensor (loc d) i) \<and>
               all_entries (\<lambda>x. Finite 0 < x) (row_tensor (scale d) i)"
      if i: "i < nrows state" for i
    proof -
      from rs [OF i] obtain r where
        r: "prior ?a (row_tensor state i) (row_tensor action i) (row_tensor rnn_hidden i) = Inr r" ..
      from U [of i] b
      have u: "prior (?a\<lparr>validate_args := False\<rparr>) (row_tensor state i) (row_tensor action i)
                 (row_tensor rnn_hidden i) = Inr (row_Normal d i, row_tensor h' i)"
        unfolding a' by simp
      have "prior ?a (row_tensor state i) (row_tensor action i) (row_tensor rnn_hidden i) =
              (if validate_args ?a \<and>
                  \<not> (all_entries isfinite (row_tensor (loc d) i) \<and>
                     all_entries (\<lambda>x. Finite 0 < x) (row_tensor (scale d) i))
               then Inl ValueError else Inr (row_Normal d i, row_tensor h' i))"
        by (subst prior_validate_split) (simp add: u ebind_Inr row_Normal_def)
      with r v va show ?thesis by (simp split: if_splits)
    qed
    have "all_entries isfinite (loc d)"
    proof (rule all_entries_rows)
      fix i assume "i < nrows (loc d)"
      then have "i < nrows state" using prior_nrows [OF b] by simp
      from row [OF this] show "all_entries isfinite (row_tensor (loc d) i)" ..
    qed
    moreover have "all_entries (\<lambda>x. Finite 0 < x) (scale d)"
    proof (rule all_entries_rows)
      fix i assume "i < nrows (scale d)"
      then have "i < nrows state" using prior_nrows [OF b] by simp
      from row [OF this] show "all_entries (\<lambda>x. Finite 0 < x) (row_tensor (scale d) i)" ..
    qed
    ultimately show ?thesis ..
  qed
  then show ?thesis
    by (subst prior_validate_split) (simp add: b ebind_Inr)
qed

lemma posterior_rows_succeed:
  assumes pos: "0 < nrows rnn_hidden"
    and n: "nrows embedded_obs = nrows rnn_hidden"
    and rs: "\<And>i. i < nrows rnn_hidden \<Longrightarrow>
      \<exists>r. posterior (at_batch_size (nrows rnn_hidden) m) (row_tensor rnn_hidden i)
             (row_tensor embedded_obs i) = Inr r"
  shows "\<exists>r. posterior m rnn_hidden embedded_obs = Inr r"
proof -
  let ?m' = "m\<lparr>validate_args := False\<rparr>"
  let ?a = "at_batch_size (nrows rnn_hidden) m"
  let ?a' = "at_batch_size (nrows rnn_hidden) ?m'"
  have nv: "\<not> validate_args ?m'" by simp
  have a': "?a' = ?a\<lparr>validate_args := False\<rparr>" by (rule at_batch_size_validate)
  have va: "validate_args ?a = validate_args m" by (simp add: at_batch_size_simps)
  note U = posterior_unvalidated_row [OF nv n]
  from rs [OF pos] obtain r0 where
    "posterior ?a (row_tensor rnn_hidden 0) (row_tensor embedded_obs 0) = Inr r0" ..
  then obtain r0' where
    "posterior ?a' (row_tensor rnn_hidden 0) (row_tensor embedded_obs 0) = Inr r0'"
    unfolding a'
    by (subst (asm) posterior_validate_split) (auto simp: ebind_Inr_iff)
  with U [of 0] obtain d where b: "posterior ?m' rnn_hidden embedded_obs = Inr d"
    by (cases "posterior ?m' rnn_hidden embedded_obs") simp_all
  have "all_entries isfinite (loc d) \<and> all_entries (\<lambda>x. Finite 0 < x) (scale d)"
    if v: "validate_args m"
  proof -
    have row: "all_entries isfinite (row_tensor (loc d) i) \<and>
               all_entries (\<lambda>x. Finite 0 < x) (row_tensor (scale d) i)"
      if i: "i < nrows rnn_hidden" for i
    proof -
      from rs [OF i] obtain r where
        r: "posterior ?a (row_tensor rnn_hidden i) (row_tensor embedded_obs i) = Inr r" ..
      from U [of i] b
      have u: "posterior (?a\<lparr>validate_args := False\<rparr>) (row_tensor rnn_hidden i)
                 (row_tensor embedded_obs i) = Inr (row_Normal d i)"
        unfolding a' by simp
      have "posterior ?a (row_tensor rnn_hidden i) (row_tensor embedded_obs i) =
              (if validate_args ?a \<and>
                  \<not> (all_entries isfinite (row_tensor (loc d) i) \<and>
                     all_entries (\<lambda>x. Finite 0 < x) (row_tensor (scale d) i))
               then Inl ValueError else Inr (row_Normal d i))"
        by (subst posterior_validate_split) (simp add: u ebind_Inr row_Normal_def)
      with r v va show ?thesis by (simp split: if_splits)
    qed
    have "all_entries isfinite (loc d)"
    proof (rule all_entries_rows)
      fix i assume "i < nrows (loc d)"
      then have "i < nrows rnn_hidden" using posterior_nrows [OF b] by simp
      from row [OF this] show "all_entries isfinite (row_tensor (loc d) i)" ..
    qed
    moreover have "all_entries (\<lambda>x. Finite 0 < x) (scale d)"
    proof (rule all_entries_rows)
      fix i assume "i < nrows (scale d)"
      then have "i < nrows rnn_hidden" using posterior_nrows [OF b] by simp
      from row [OF this] show "all_entries (\<lambda>x. Finite 0 < x) (row_tensor (scale d) i)" ..
    qed
    ultimately show ?thesis ..
  qed
  then show ?thesis
    by (subst posterior_validate_split) (simp add: b ebind_Inr)
qed

lemma concat_singletons: "concat (map (\<lambda>i. [f i]) xs) = map f xs"
  by (induction xs) simp_all

lemma stack_rows_row_tensor: "stack_rows (ncols t) (map (row_tensor t) [0..<nrows t]) = t"
proof -
  have "map (\<lambda>i. rows (row_tensor t i)) [0..<nrows t] = map (\<lambda>i. [rows t ! i]) [0..<nrows t]"
    by (rule map_cong) (simp_all add: rows_row_tensor)
  then have "concat (map (\<lambda>i. rows (row_tensor t i)) [0..<nrows t]) =
             concat (map (\<lambda>i. [rows t ! i]) [0..<nrows t])"
    by (rule arg_cong)
  also have "\<dots> = map (\<lambda>i. rows t ! i) [0..<nrows t]"
    by (rule concat_singletons)
  also have "\<dots> = rows t"
    by (simp add: nrows_def map_nth)
  finally show ?thesis by (simp add: stack_rows_def comp_def)
qed

lemma row_tensor_const: "i < b \<Longrightarrow> row_tensor (const_tensor b n c) i = const_tensor 1 n c"
  by (simp add: row_tensor_def const_tensor_def take_Suc_conv_app_nth hd_drop_conv_nth take_Suc)

text \<open>A model whose kernels do not depend on the batch size.\<close>

lemma Linear_at_zero: "Linear_at n (zero_Linear i out) = zero_Linear i out"
  by (simp add: Linear_at_def zero_Linear_def)

lemma at_batch_size_zero: "at_batch_size n (zero_RSSM sd ad rd hid ms v) = zero_RSSM sd ad rd hid ms v"
  by (simp add: at_batch_size_def zero_RSSM_def Linear_at_zero)
     (simp add: GRUCell_at_def zero_GRUCell_def)

section \<open>The encoder and the action model\<close>

lemma Encoder_conv_shapes_64:
  "Encoder_conv_shapes Encoder_init (b, 3, 64, 64) =
     Inr ((b, 32, 31, 31), (b, 64, 14, 14), (b, 128, 6, 6), (b, 256, 2, 2))"
  by (simp add: Encoder_conv_shapes_def Encoder_init_def Conv2d_shape_def ebind_def)



lemma ActionModel_hidden_biased:
  assumes "nrows state = b" "nrows rnn_hidden = b" "ncols state + ncols rnn_hidden = sd + rd"
    and "all_entries isfinite state" "all_entries isfinite rnn_hidden"
  shows "ActionModel_hidden (biased_ActionModel sd rd ad hid ms istd v c) state rnn_hidden =
           Inr (const_tensor b hid (Finite 0))"
proof -
  from assms obtain t where t: "cat1 state rnn_hidden = Inr t" "ncols t = sd + rd" "nrows t = b"
    using cat1_ncols [of state rnn_hidden] by auto
  have ft: "all_entries isfinite t" using t(1) assms(4,5) by (rule cat1_entries)
  show ?thesis
    using t ft
    by (simp add: ActionModel_hidden_def biased_ActionModel_def zero_ActionModel_def ebind_def
        Linear_forward_zero const_tensor_shape map_tensor_const all_entries_const)
qed

lemma squashed_mean_0: "Finite 5 * torch_tanh (Finite 0 / Finite 5) = Finite 0"
  by simp

lemma ActionModel_mean_stddev_biased:
  assumes "round32 c = Finite c"
  shows "ActionModel_mean_stddev (biased_ActionModel sd rd ad hid ms istd v (Finite c))
           (const_tensor b hid (Finite 0)) =
           Inr (const_tensor b ad (Finite 0),
                const_tensor b ad (F_softplus (Finite c + softplus_inverse istd) + round32 ms))"
  using assms
  by (simp add: ActionModel_mean_stddev_def biased_ActionModel_def zero_ActionModel_def ebind_def
      Linear_forward_zero Linear_forward_biased const_tensor_shape map_tensor_const
      all_entries_const del: times_f32.simps divide_f32.simps torch_tanh.simps)
     (simp add: squashed_mean_0 [simplified])

lemma standard_normal_const:
  "standard_normal b n (const_generator c) = (const_tensor b n c, \<lparr>noise = (\<lambda>k. c), pos = b * n\<rparr>)"
  by (simp add: standard_normal_def const_generator_def const_tensor_def map_replicate_const)

lemma rsample_const:
  "rsample \<lparr>loc = const_tensor b n x, scale = const_tensor b n y\<rparr> (const_generator c) =
     (const_tensor b n (x + c * y), \<lparr>noise = (\<lambda>k. c), pos = b * n\<rparr>)"
  by (simp add: rsample_def standard_normal_const const_tensor_shape map2_tensor_const)

text \<open>
  The action model with zero weights and a bias c on the layer of the raw standard
  deviation: the mean is 0, every standard deviation is
  softplus(c + init_stddev) + min_stddev, and a sampled action is
  tanh(0 + eps * stddev).
\<close>

lemma ActionModel_forward_biased:
  assumes "nrows state = b" "nrows rnn_hidden = b" "ncols state + ncols rnn_hidden = sd + rd"
    and "all_entries isfinite state" "all_entries isfinite rnn_hidden"
    and "round32 c = Finite c"
    and "s = F_softplus (Finite c + softplus_inverse istd) + round32 ms"
  shows "ebind (ActionModel_hidden (biased_ActionModel sd rd ad hid ms istd v (Finite c)) state rnn_hidden)
           (ActionModel_mean_stddev (biased_ActionModel sd rd ad hid ms istd v (Finite c))) =
           Inr (const_tensor b ad (Finite 0), const_tensor b ad s)"
    and "ActionModel_forward (biased_ActionModel sd rd ad hid ms istd v (Finite c)) state rnn_hidden
           False g = (Inr (const_tensor b ad (Finite 0)), g)"
    and "ActionModel_forward (biased_ActionModel sd rd ad hid ms istd v (Finite c)) state rnn_hidden
           True (const_generator e) =
           (if v \<and> \<not> (b = 0 \<or> ad = 0 \<or> Finite 0 < s) then (Inl ValueError, const_generator e)
            else (Inr (const_tensor b ad (torch_tanh (Finite 0 + e * s))),
                  \<lparr>noise = (\<lambda>k. e), pos = b * ad\<rparr>))"
proof -
  let ?am = "biased_ActionModel sd rd ad hid ms istd v (Finite c)"
  show h: "ebind (ActionModel_hidden ?am state rnn_hidden) (ActionModel_mean_stddev ?am) =
             Inr (const_tensor b ad (Finite 0), const_tensor b ad s)"
    using assms
    by (simp add: ActionModel_hidden_biased ebind_Inr ActionModel_mean_stddev_biased)
  show "ActionModel_forward ?am state rnn_hidden False g = (Inr (const_tensor b ad (Finite 0)), g)"
    by (simp add: ActionModel_forward_def h map_tensor_const)
  have v: "ActionModel.validate_args ?am = v"
    by (simp add: biased_ActionModel_def zero_ActionModel_def)
  show "ActionModel_forward ?am state rnn_hidden True (const_generator e) =
           (if v \<and> \<not> (b = 0 \<or> ad = 0 \<or> Finite 0 < s) then (Inl ValueError, const_generator e)
            else (Inr (const_tensor b ad (torch_tanh (Finite 0 + e * s))),
                  \<lparr>noise = (\<lambda>k. e), pos = b * ad\<rparr>))"
    by (simp add: ActionModel_forward_def h v Normal_init_def all_entries_const rsample_const
        map_tensor_const)
qed

text \<open>
  With the default \<^verbatim>\<open>init_stddev\<close> and a bias of 32, the standard deviation is at least
  35, and with a draw of 1 the sample is at least 35, where tanh is 1 in \<^verbatim>\<open>float32\<close>.
  With a bias of -200 the softplus underflows to 0 and the standard deviation is the
  floor.
\<close>

lemma round32_nonneg: "0 \<le> x \<Longrightarrow> Finite 0 \<le> round32 x"
  using round32_mono [of 0 x] by simp

lemma large_stddev:
  assumes "0 \<le> ms"
  shows "Finite 35 \<le> F_softplus (Finite 32 + softplus_inverse 5) + round32 ms"
proof -
  obtain i where i: "softplus_inverse 5 = Finite i" "3 \<le> i" using softplus_inverse_5 by blast
  have "round32 (32 + 3) \<le> Finite 32 + Finite i"
    using i(2) by (intro add_lower) simp_all
  then have x: "Finite 35 \<le> Finite 32 + softplus_inverse 5" by (simp add: i(1))
  have "Finite 20 < Finite 35" by simp
  then have "Finite 20 < Finite 32 + softplus_inverse 5"
    using x f32_less_le_trans by blast
  then have sp: "F_softplus (Finite 32 + softplus_inverse 5) = Finite 32 + softplus_inverse 5"
    by (rule F_softplus_large)
  have "round32 (35 + 0) \<le> (Finite 32 + softplus_inverse 5) + round32 ms"
    using x round32_nonneg [OF assms] by (rule add_lower)
  then show ?thesis by (simp add: sp)
qed

lemma saturated_sample:
  assumes "Finite 35 \<le> s"
  shows "torch_tanh (Finite 0 + Finite 1 * s) = Finite 1"
proof -
  have "round32 (1 * 35) \<le> Finite 1 * s"
    using assms by (intro mult_lower) simp_all
  then have "Finite 35 \<le> Finite 1 * s" by simp
  then have "round32 (0 + 35) \<le> Finite 0 + Finite 1 * s"
    by (intro add_lower) simp_all
  then have "Finite 35 \<le> Finite 0 + Finite 1 * s" by simp
  moreover have "Finite 13 \<le> Finite 35" by simp
  ultimately have "Finite 13 \<le> Finite 0 + Finite 1 * s" using f32_le_trans by blast
  then show ?thesis by (rule torch_tanh_saturates)
qed


section \<open>The store\<close>

lemma sbind_deref: "sbind (deref a) f s = f (cells s a) s"
  by (simp add: sbind_def deref_def)

lemma sbind_raise_or_return:
  "sbind (raise_or_return r) f s = (case r of Inl e \<Rightarrow> (Inl e, s) | Inr v \<Rightarrow> f v s)"
  by (cases r) (simp_all add: sbind_def raise_or_return_def)

lemma torch_cat_run:
  "torch_cat a b s =
     (case cat1 (cells s a) (cells s b) of Inl e \<Rightarrow> (Inl e, s) | Inr t \<Rightarrow> new t s)"
  by (simp add: torch_cat_def sbind_deref sbind_raise_or_return)

lemma Linear_call_run:
  "Linear_call l a s =
     (case Linear_forward l (cells s a) of Inl e \<Rightarrow> (Inl e, s) | Inr t \<Rightarrow> new t s)"
  by (simp add: Linear_call_def sbind_deref sbind_raise_or_return)

lemma GRUCell_call_run:
  "GRUCell_call c a b s =
     (case GRUCell_forward c (cells s a) (cells s b) of Inl e \<Rightarrow> (Inl e, s) | Inr t \<Rightarrow> new t s)"
  by (simp add: GRUCell_call_def sbind_deref sbind_raise_or_return)

lemma elementwise_run: "elementwise f a s = new (map_tensor f (cells s a)) s"
  by (simp add: elementwise_def sbind_deref)

lemma Normal_new_run:
  "Normal_new v a b s =
     (case Normal_init v (cells s a) (cells s b) of
        Inl e \<Rightarrow> (Inl e, s) | Inr d \<Rightarrow> (Inr \<lparr>loc_at = a, scale_at = b\<rparr>, s))"
  by (simp add: Normal_new_def sbind_deref sbind_raise_or_return sreturn_def)

lemma map_tensor_comp: "map_tensor f (map_tensor g t) = map_tensor (\<lambda>x. f (g x)) t"
  by (simp add: map_tensor_def comp_def)

lemma prior_store_refines:
  assumes live: "state < next_free s" "action < next_free s" "rnn_hidden < next_free s"
  shows "case prior_store m state action rnn_hidden s of
           (Inl e, s') \<Rightarrow>
             prior m (cells s state) (cells s action) (cells s rnn_hidden) = Inl e \<and>
             preserves s s' \<and> gen s' = gen s
         | (Inr (d, h), s') \<Rightarrow>
             prior m (cells s state) (cells s action) (cells s rnn_hidden) =
               Inr (Normal_value s' d, cells s' h) \<and>
             preserves s s' \<and> gen s' = gen s \<and>
             fresh s s' (loc_at d) \<and> fresh s s' (scale_at d) \<and> fresh s s' h"
  using live
  unfolding prior_store_def prior_def Let_def
  by (auto simp: sbind_def torch_cat_run Linear_call_run GRUCell_call_run elementwise_run
      Normal_new_run new_def sreturn_def ebind_def preserves_def fresh_def Normal_value_def
      map_tensor_comp list_all_iff Normal_init_def
      split: sum.splits if_splits)


lemma posterior_store_refines:
  assumes live: "rnn_hidden < next_free s" "embedded_obs < next_free s"
  shows "case posterior_store m rnn_hidden embedded_obs s of
           (Inl e, s') \<Rightarrow>
             posterior m (cells s rnn_hidden) (cells s embedded_obs) = Inl e \<and>
             preserves s s' \<and> gen s' = gen s
         | (Inr d, s') \<Rightarrow>
             posterior m (cells s rnn_hidden) (cells s embedded_obs) = Inr (Normal_value s' d) \<and>
             preserves s s' \<and> gen s' = gen s \<and>
             fresh s s' (loc_at d) \<and> fresh s s' (scale_at d)"
  using live
  unfolding posterior_store_def posterior_def Let_def
  by (auto simp: sbind_def torch_cat_run Linear_call_run elementwise_run
      Normal_new_run new_def sreturn_def ebind_def preserves_def fresh_def Normal_value_def
      map_tensor_comp list_all_iff Normal_init_def
      split: sum.splits if_splits)

lemma preserves_cells: "preserves s s' \<Longrightarrow> a < next_free s \<Longrightarrow> cells s' a = cells s a"
  by (simp add: preserves_def list_all_iff)

lemma preserves_trans: "preserves s s' \<Longrightarrow> preserves s' s'' \<Longrightarrow> preserves s s''"
  by (auto simp: preserves_def list_all_iff)

lemma fresh_later: "fresh s s' a \<Longrightarrow> preserves s' s'' \<Longrightarrow> fresh s s'' a \<and> cells s'' a = cells s' a"
  by (auto simp: preserves_def fresh_def list_all_iff)

lemma fresh_from_later: "preserves s s' \<Longrightarrow> fresh s' s'' a \<Longrightarrow> fresh s s'' a"
  by (auto simp: preserves_def fresh_def)

lemma forward_store_refines:
  assumes live: "state < next_free s" "action < next_free s" "rnn_hidden < next_free s"
    "embedded_next_obs < next_free s"
  shows "case forward_store m state action rnn_hidden embedded_next_obs s of
           (Inl e, s') \<Rightarrow>
             forward m (cells s state) (cells s action) (cells s rnn_hidden)
               (cells s embedded_next_obs) = Inl e \<and>
             preserves s s' \<and> gen s' = gen s
         | (Inr (dp, dq, h), s') \<Rightarrow>
             forward m (cells s state) (cells s action) (cells s rnn_hidden)
               (cells s embedded_next_obs) =
               Inr (Normal_value s' dp, Normal_value s' dq, cells s' h) \<and>
             preserves s s' \<and> gen s' = gen s \<and>
             fresh s s' (loc_at dp) \<and> fresh s s' (scale_at dp) \<and>
             fresh s s' (loc_at dq) \<and> fresh s s' (scale_at dq) \<and> fresh s s' h"
proof -
  obtain r1 s1 where p: "prior_store m state action rnn_hidden s = (r1, s1)"
    by (cases "prior_store m state action rnn_hidden s")
  note P = prior_store_refines [OF live(1-3), of m, unfolded p]
  show ?thesis
  proof (cases r1)
    case (Inl e)
    with P p show ?thesis
      by (simp add: forward_store_def sbind_def forward_def ebind_Inl)
  next
    case (Inr dh)
    obtain dp h where dh: "dh = (dp, h)" by (cases dh)
    from P Inr dh have
      pure: "prior m (cells s state) (cells s action) (cells s rnn_hidden) =
               Inr (Normal_value s1 dp, cells s1 h)"
      and pres: "preserves s s1" and g: "gen s1 = gen s"
      and fr: "fresh s s1 (loc_at dp)" "fresh s s1 (scale_at dp)" "fresh s s1 h"
      by simp_all
    have l1: "h < next_free s1" "embedded_next_obs < next_free s1"
      using fr(3) pres live(4) by (auto simp: fresh_def preserves_def)
    have e1: "cells s1 embedded_next_obs = cells s embedded_next_obs"
      using preserves_cells [OF pres live(4)] .
    obtain r2 s2 where q: "posterior_store m h embedded_next_obs s1 = (r2, s2)"
      by (cases "posterior_store m h embedded_next_obs s1")
    note Q = posterior_store_refines [OF l1, of m, unfolded q e1]
    have f: "forward_store m state action rnn_hidden embedded_next_obs s =
               (case r2 of Inl e \<Rightarrow> (Inl e, s2) | Inr dq \<Rightarrow> (Inr (dp, dq, h), s2))"
      using p q Inr dh by (simp add: forward_store_def sbind_def sreturn_def split: sum.splits)
    show ?thesis
    proof (cases r2)
      case (Inl e)
      with Q have "posterior m (cells s1 h) (cells s embedded_next_obs) = Inl e"
        and pres2: "preserves s1 s2" and g2: "gen s2 = gen s1"
        by simp_all
      then show ?thesis
        using f Inl pure pres g preserves_trans [OF pres pres2]
        by (simp add: forward_def ebind_Inr ebind_Inl)
    next
      case (Inr dq)
      with Q have post: "posterior m (cells s1 h) (cells s embedded_next_obs) = Inr (Normal_value s2 dq)"
        and pres2: "preserves s1 s2" and g2: "gen s2 = gen s1"
        and fr2: "fresh s1 s2 (loc_at dq)" "fresh s1 s2 (scale_at dq)"
        by simp_all
      have keep: "Normal_value s2 dp = Normal_value s1 dp" "cells s2 h = cells s1 h"
        using fresh_later [OF fr(1) pres2] fresh_later [OF fr(2) pres2] fresh_later [OF fr(3) pres2]
        by (simp_all add: Normal_value_def)
      show ?thesis
        using f Inr pure post keep pres g g2 preserves_trans [OF pres pres2]
          fresh_later [OF fr(1) pres2] fresh_later [OF fr(2) pres2] fresh_later [OF fr(3) pres2]
          fresh_from_later [OF pres fr2(1)] fresh_from_later [OF pres fr2(2)]
        by (simp add: forward_def ebind_Inr)
    qed
  qed
qed


lemma prior_store_outcome:
  assumes "state < next_free s" "action < next_free s" "rnn_hidden < next_free s"
  shows "prior_outcome (prior_store m state action rnn_hidden s) =
           prior m (cells s state) (cells s action) (cells s rnn_hidden)"
    and "gen (snd (prior_store m state action rnn_hidden s)) = gen s"
    and "preserves s (snd (prior_store m state action rnn_hidden s))"
  using prior_store_refines [OF assms, of m]
  by (auto simp: prior_outcome_def split: prod.splits sum.splits)

lemma example_store_simps:
  "next_free example_store = 5" "gen example_store = const_generator (Finite 0)"
  "cells example_store 0 = const_tensor 2 2 (Finite 0)"
  "cells example_store 2 = const_tensor 2 1 (Finite 0)"
  "cells example_store 3 = const_tensor 2 3 (Finite 1)"
  "cells example_store 4 = const_tensor 2 1024 (Finite 0)"
  by (simp_all add: example_store_def)

lemma other_store_simps:
  "next_free other_store = 7"
  "cells other_store 5 = const_tensor 2 2 (Finite 0)"
  "cells other_store 4 = const_tensor 2 1 (Finite 0)"
  "cells other_store 3 = const_tensor 2 3 (Finite 1)"
  by (simp_all add: other_store_def)

section \<open>The adding model\<close>

text \<open>
  Rounding at 2^29 = 536870912, where the spacing of \<^verbatim>\<open>float32\<close> is 64: 2^29 + 32 lies
  halfway between two numbers of the format and rounds to the even one, 2^29, while
  2^29 - 32 is a number of the format. And 2^127 + 2^127 = 2^128 overflows.
\<close>

lemma round32_2_29: "round32 536870912 = Finite 536870912"
  using round32_pow [of 29] by simp

lemma round32_neg_2_29: "round32 (- 536870912) = Finite (- 536870912)"
  using round32_neg_pow [of 29] by simp

lemma round32_tie: "round32 536870944 = Finite 536870912"
proof -
  have p: "pow2 29 = 536870912" "pow2 (29 + 1) = 1073741824" "pow2 6 = 64"
    using pow2_nat [of 29] pow2_nat [of 30] pow2_nat [of 6] by simp_all
  have "pow2 29 \<le> \<bar>536870944::real\<bar>" "\<bar>536870944::real\<bar> < pow2 (29 + 1)"
    unfolding p by simp_all
  then have "round_grid 23 (- 149) 536870944 =
      real_of_int (rne (536870944 / pow2 (max (- 149) (29 - int 23)))) * pow2 (max (- 149) (29 - int 23))"
    by (rule round_grid_eval)
  also have "max (- 149) (29 - int 23) = 6" by simp
  also have "rne (536870944 / pow2 6) = 8388608"
  proof -
    define q :: real where "q = 536870944 / 64"
    have "real_of_int 8388608 \<le> q" "q < real_of_int 8388608 + 1" by (simp_all add: q_def)
    then have f: "\<lfloor>q\<rfloor> = 8388608" by (rule floor_unique)
    have "q - real_of_int \<lfloor>q\<rfloor> = 1 / 2" by (simp add: f) (simp add: q_def)
    then have "rne q = 8388608" by (simp add: rne_def Let_def f)
    then show ?thesis by (simp add: q_def p)
  qed
  finally have "round_grid 23 (- 149) 536870944 = 536870912" by (simp add: p)
  then show ?thesis by (simp add: round32_def)
qed

lemma round32_below_2_29: "round32 (- 536870880) = Finite (- 536870880)"
  using round32_dyadic [of "- 16777215" 5] pow2_nat [of 5] by simp

lemma round32_2_127:
  "round32 170141183460469231731687303715884105728 = Finite 170141183460469231731687303715884105728"
  using round32_pow [of 127] by simp

lemma round32_2_128: "round32 340282366920938463463374607431768211456 = PInf"
  by (rule round32_overflow) simp

lemma sum_by_batch_single:
  "sum_by_batch 1 [Finite 1, Finite 1, Finite 1]
     [Finite (2 ^ 29), Finite 32, Finite (- (2 ^ 29))] (Finite 0) = Finite 0"
  by (simp add: sum_by_batch_def sum_forward_def round32_2_29 round32_neg_2_29 round32_tie)

lemma sum_by_batch_pair:
  "sum_by_batch 2 [Finite 1, Finite 1, Finite 1]
     [Finite (2 ^ 29), Finite 32, Finite (- (2 ^ 29))] (Finite 0) = Finite 32"
  by (simp add: sum_by_batch_def sum_backward_def round32_2_29 round32_neg_2_29
      round32_below_2_29)

lemma sum_forward_overflow:
  "sum_forward [Finite 1, Finite 1, Finite 1]
     [Finite (2 ^ 127), Finite (2 ^ 127), Finite 0] (Finite 0) = PInf"
  by (simp add: sum_forward_def round32_2_127 round32_2_128)

lemma adding_RSSM_simps:
  "fc_state_action (adding_RSSM k v) =
     \<lparr>in_features = 3, out_features = 1,
      weight = [[Finite 1, Finite 1, Finite 1]], bias = [Finite 0], kernel = k\<rparr>"
  "fc_rnn_hidden (adding_RSSM k v) = zero_Linear 1 1"
  "fc_state_mean_prior (adding_RSSM k v) = zero_Linear 1 2"
  "fc_state_stddev_prior (adding_RSSM k v) = zero_Linear 1 2"
  "act (adding_RSSM k v) = F_elu" "min_stddev (adding_RSSM k v) = round32 (1 / 10)"
  "validate_args (adding_RSSM k v) = v"
  by (simp_all add: adding_RSSM_def zero_RSSM_def)

lemma RSSM_init_adding: "RSSM_init 2 1 1 1 (1 / 10) F_elu (adding_RSSM k v)"
  by (simp add: RSSM_init_def adding_RSSM_def zero_RSSM_def Linear_ok_zero)
     (simp add: Linear_ok_def GRUCell_ok_def)

lemma adding_first_layer:
  "Linear_forward (fc_state_action (adding_RSSM k v)) (Tensor 3 (replicate b [x1, x2, x3])) =
     Inr (const_tensor b 1 (k b [Finite 1, Finite 1, Finite 1] [x1, x2, x3] (Finite 0)))"
  by (simp add: adding_RSSM_simps Linear_forward_def affine_def const_tensor_def nrows_def)

lemma adding_cat:
  "cat1 (Tensor 2 (replicate b [x1, x2])) (const_tensor b 1 x3) =
     Inr (Tensor 3 (replicate b [x1, x2, x3]))"
  by (simp add: cat1_def nrows_def const_tensor_def zip_replicate)

lemma adding_cell:
  "GRUCell_forward (rnn (adding_RSSM k v)) (const_tensor b 1 u) (const_tensor b 1 (Finite 0)) =
     Inr (const_tensor b 1
       ((Finite 0 - torch_tanh (Finite 0 + Finite 1 * u +
            (Finite 0 + Finite 0 * Finite 0) * torch_sigmoid (Finite 0 + Finite 0 * Finite 0 + (Finite 0 + Finite 0 * u)))) *
          torch_sigmoid (Finite 0 + Finite 0 * Finite 0 + (Finite 0 + Finite 0 * u)) +
        torch_tanh (Finite 0 + Finite 1 * u +
            (Finite 0 + Finite 0 * Finite 0) * torch_sigmoid (Finite 0 + Finite 0 * Finite 0 + (Finite 0 + Finite 0 * u)))))"
  by (simp add: adding_RSSM_def GRUCell_forward_def const_tensor_def nrows_def gru_row_def
      affine_def sum_forward_def Let_def zip_replicate
      del: plus_f32.simps times_f32.simps)

lemma adding_cell_32:
  "GRUCell_forward (rnn (adding_RSSM k v)) (const_tensor b 1 (Finite 32)) (const_tensor b 1 (Finite 0)) =
     Inr (const_tensor b 1 (Finite (1 / 2)))"
  unfolding adding_cell
  by (simp add: round32_tanh_large minus_f32_def)

lemma adding_cell_0:
  "GRUCell_forward (rnn (adding_RSSM k v)) (const_tensor b 1 (Finite 0)) (const_tensor b 1 (Finite 0)) =
     Inr (const_tensor b 1 (Finite 0))"
  unfolding adding_cell
  by (simp add: minus_f32_def)

lemma adding_cell_inf:
  "GRUCell_forward (rnn (adding_RSSM k v)) (const_tensor b 1 PInf) (const_tensor b 1 (Finite 0)) =
     Inr (const_tensor b 1 NaN)"
  unfolding adding_cell
  by (simp add: minus_f32_def)

lemma adding_prior:
  assumes "cat1 state action = Inr sa"
    and "Linear_forward (fc_state_action (adding_RSSM k v)) sa = Inr (const_tensor b 1 y)"
    and "GRUCell_forward (rnn (adding_RSSM k v)) (const_tensor b 1 (F_elu y)) h =
           Inr (const_tensor b 1 (Finite c))"
  shows "prior (adding_RSSM k v) state action h =
           (if v \<and> \<not> (b = 0 \<or> Finite 0 < round32 (ln 2) + round32 (1 / 10))
            then Inl ValueError
            else Inr (\<lparr>loc = const_tensor b 2 (Finite 0),
                       scale = const_tensor b 2 (round32 (ln 2) + round32 (1 / 10))\<rparr>,
                      const_tensor b 1 (Finite c)))"
  using assms
  by (simp add: prior_def ebind_def map_tensor_const adding_RSSM_simps(2-7) Linear_forward_zero
      all_entries_const const_tensor_shape F_softplus_0 Normal_init_def)

lemma Linear_forward_zero_NaN:
  "Linear_forward (zero_Linear (Suc 0) out) (const_tensor b (Suc 0) NaN) = Inr (const_tensor b out NaN)"
  by (simp add: Linear_forward_def zero_Linear_def const_tensor_def nrows_def affine_def
      sum_forward_def zip_replicate map_replicate_const)

lemma adding_prior_NaN:
  assumes "cat1 state action = Inr sa"
    and "Linear_forward (fc_state_action (adding_RSSM k v)) sa = Inr (const_tensor b 1 y)"
    and "GRUCell_forward (rnn (adding_RSSM k v)) (const_tensor b 1 (F_elu y)) h =
           Inr (const_tensor b 1 NaN)"
  shows "prior (adding_RSSM k v) state action h =
           (if v \<and> 0 < b then Inl ValueError
            else Inr (\<lparr>loc = const_tensor b 2 NaN, scale = const_tensor b 2 NaN\<rparr>,
                      const_tensor b 1 NaN))"
  using assms
  by (auto simp: prior_def ebind_def map_tensor_const adding_RSSM_simps(2-7)
      Linear_forward_zero_NaN all_entries_const Normal_init_def Let_def)

section \<open>The claims\<close>

text \<open>
  The concrete call used below: the zero model for a state of width 2, an action of width
  1, a deterministic state of width 3 and two hidden units, with the default floor 0.1
  and validation on, on a batch of two rows.
\<close>

lemma prior_example:
  "prior (zero_RSSM 2 1 3 2 (1/10) True) (const_tensor 2 2 (Finite 0)) (const_tensor 2 1 (Finite 0))
       (const_tensor 2 3 (Finite 1))
     = Inr (\<lparr>loc = const_tensor 2 2 (Finite 0),
              scale = const_tensor 2 2 (round32 (ln 2) + round32 (1/10))\<rparr>,
            const_tensor 2 3 (Finite (1/2)))"
  using zero_scale_pos
    prior_zero [of "const_tensor 2 2 (Finite 0)" 2 "const_tensor 2 1 (Finite 0)" 2 1 1 3 2 "1/10" True]
  by (simp add: const_tensor_shape all_entries_const)

lemma posterior_example:
  "posterior (zero_RSSM 2 1 3 2 (1/10) True) (const_tensor 2 3 (Finite c)) (const_tensor 2 1024 (Finite 0))
     = Inr \<lparr>loc = const_tensor 2 2 (Finite 0),
             scale = const_tensor 2 2 (round32 (ln 2) + round32 (1/10))\<rparr>"
  using zero_scale_pos
    posterior_zero [of "const_tensor 2 3 (Finite c)" 2 "const_tensor 2 1024 (Finite 0)" 3 2 1 2 "1/10" True]
  by (simp add: const_tensor_shape all_entries_const)

text \<open>
  C2. \<^verbatim>\<open>forward\<close> is \<^verbatim>\<open>prior\<close> followed by \<^verbatim>\<open>posterior\<close>: it returns the triple of the
  prior distribution, the posterior distribution and the new deterministic state h',
  where the posterior is computed from h' (the state \<^verbatim>\<open>prior\<close> returned), not from the
  deterministic state passed in; an exception of either call is the exception of
  \<^verbatim>\<open>forward\<close>.
\<close>

theorem forward_is_prior_then_posterior:
  "forward m state action det_state embedded_next_obs =
     (case prior m state action det_state of
        Inl e \<Rightarrow> Inl e
      | Inr (d_prior, h') \<Rightarrow>
          (case posterior m h' embedded_next_obs of
             Inl e \<Rightarrow> Inl e
           | Inr d_post \<Rightarrow> Inr (d_prior, d_post, h'))) \<and>
   (forward m state action det_state embedded_next_obs = Inr (d_prior, d_post, h') \<longleftrightarrow>
      prior m state action det_state = Inr (d_prior, h') \<and>
      posterior m h' embedded_next_obs = Inr d_post)"
  by (auto simp: forward_def ebind_def split: sum.splits prod.splits)

theorem forward_is_prior_then_posterior_witness:
  "prior (zero_RSSM 2 1 3 2 (1/10) True) (const_tensor 2 2 (Finite 0)) (const_tensor 2 1 (Finite 0))
       (const_tensor 2 3 (Finite 1))
     = Inr (\<lparr>loc = const_tensor 2 2 (Finite 0),
              scale = const_tensor 2 2 (round32 (ln 2) + round32 (1/10))\<rparr>,
            const_tensor 2 3 (Finite (1/2))) \<and>
   posterior (zero_RSSM 2 1 3 2 (1/10) True) (const_tensor 2 3 (Finite (1/2)))
       (const_tensor 2 1024 (Finite 0))
     = Inr \<lparr>loc = const_tensor 2 2 (Finite 0),
             scale = const_tensor 2 2 (round32 (ln 2) + round32 (1/10))\<rparr> \<and>
   forward (zero_RSSM 2 1 3 2 (1/10) True) (const_tensor 2 2 (Finite 0)) (const_tensor 2 1 (Finite 0))
       (const_tensor 2 3 (Finite 1)) (const_tensor 2 1024 (Finite 0))
     = Inr (\<lparr>loc = const_tensor 2 2 (Finite 0),
              scale = const_tensor 2 2 (round32 (ln 2) + round32 (1/10))\<rparr>,
            \<lparr>loc = const_tensor 2 2 (Finite 0),
              scale = const_tensor 2 2 (round32 (ln 2) + round32 (1/10))\<rparr>,
            const_tensor 2 3 (Finite (1/2)))"
proof -
  let ?m = "zero_RSSM 2 1 3 2 (1/10) True"
  let ?d = "\<lparr>loc = const_tensor 2 2 (Finite 0),
             scale = const_tensor 2 2 (round32 (ln 2) + round32 (1/10))\<rparr>"
  note p = prior_example
  note q = posterior_example [of "1/2"]
  from forward_is_prior_then_posterior [of ?m "const_tensor 2 2 (Finite 0)"
      "const_tensor 2 1 (Finite 0)" "const_tensor 2 3 (Finite 1)" "const_tensor 2 1024 (Finite 0)"
      ?d ?d "const_tensor 2 3 (Finite (1/2))"] p q
  have "forward ?m (const_tensor 2 2 (Finite 0)) (const_tensor 2 1 (Finite 0))
          (const_tensor 2 3 (Finite 1)) (const_tensor 2 1024 (Finite 0)) =
          Inr (?d, ?d, const_tensor 2 3 (Finite (1/2)))"
    by blast
  with p q show ?thesis by (intro conjI)
qed

text \<open>
  C3. \<^verbatim>\<open>prior\<close> computes the pipeline of the specification:
  hidden = act(fc_state_action(concat(state, action))), the next deterministic state is
  the GRU cell applied to hidden and the deterministic state,
  h2 = act(fc_rnn_hidden(next deterministic state)), the Gaussian returned has mean
  fc_state_mean_prior(h2) and standard deviation
  softplus(fc_state_stddev_prior(h2)) + min_stddev, and the deterministic state returned
  is the output of the GRU cell. The second part says the same without the definitions
  written from the specification: \<^verbatim>\<open>prior\<close> returns a distribution d and a state h'
  exactly when every step below succeeds with these results.
\<close>

theorem prior_is_pipeline:
  "prior m state action det_state = spec_prior m state action det_state \<and>
   (prior m state action det_state = Inr (d, h') \<longleftrightarrow>
      (\<exists>sa y0 y raw.
         cat1 state action = Inr sa \<and>
         Linear_forward (fc_state_action m) sa = Inr y0 \<and>
         GRUCell_forward (rnn m) (map_tensor (act m) y0) det_state = Inr h' \<and>
         Linear_forward (fc_rnn_hidden m) h' = Inr y \<and>
         Linear_forward (fc_state_mean_prior m) (map_tensor (act m) y) = Inr (loc d) \<and>
         Linear_forward (fc_state_stddev_prior m) (map_tensor (act m) y) = Inr raw \<and>
         scale d = map_tensor (\<lambda>x. F_softplus x + min_stddev m) raw \<and>
         Normal_init (validate_args m) (loc d) (scale d) = Inr d))"
proof
  show "prior m state action det_state = spec_prior m state action det_state"
    by (simp add: prior_def spec_prior_def spec_state_action_embedding_def spec_prior_heads_def
        spec_stabilize_def ebind_assoc ebind_Inr Let_def)
  show "prior m state action det_state = Inr (d, h') \<longleftrightarrow>
      (\<exists>sa y0 y raw.
         cat1 state action = Inr sa \<and>
         Linear_forward (fc_state_action m) sa = Inr y0 \<and>
         GRUCell_forward (rnn m) (map_tensor (act m) y0) det_state = Inr h' \<and>
         Linear_forward (fc_rnn_hidden m) h' = Inr y \<and>
         Linear_forward (fc_state_mean_prior m) (map_tensor (act m) y) = Inr (loc d) \<and>
         Linear_forward (fc_state_stddev_prior m) (map_tensor (act m) y) = Inr raw \<and>
         scale d = map_tensor (\<lambda>x. F_softplus x + min_stddev m) raw \<and>
         Normal_init (validate_args m) (loc d) (scale d) = Inr d)"
    unfolding prior_def Let_def
    by (auto simp: ebind_Inr_iff Normal_init_Inr_iff)
qed

theorem prior_is_pipeline_witness:
  "prior (zero_RSSM 2 1 3 2 (1/10) True) (const_tensor 2 2 (Finite 0)) (const_tensor 2 1 (Finite 0))
       (const_tensor 2 3 (Finite 1))
     = Inr (\<lparr>loc = const_tensor 2 2 (Finite 0),
              scale = const_tensor 2 2 (round32 (ln 2) + round32 (1/10))\<rparr>,
            const_tensor 2 3 (Finite (1/2))) \<and>
   spec_prior (zero_RSSM 2 1 3 2 (1/10) True) (const_tensor 2 2 (Finite 0))
       (const_tensor 2 1 (Finite 0)) (const_tensor 2 3 (Finite 1))
     = Inr (\<lparr>loc = const_tensor 2 2 (Finite 0),
              scale = const_tensor 2 2 (round32 (ln 2) + round32 (1/10))\<rparr>,
            const_tensor 2 3 (Finite (1/2)))"
proof -
  let ?m = "zero_RSSM 2 1 3 2 (1/10) True"
  note p = prior_example
  from prior_is_pipeline [of ?m "const_tensor 2 2 (Finite 0)" "const_tensor 2 1 (Finite 0)"
      "const_tensor 2 3 (Finite 1)"]
  have "prior ?m (const_tensor 2 2 (Finite 0)) (const_tensor 2 1 (Finite 0)) (const_tensor 2 3 (Finite 1)) =
          spec_prior ?m (const_tensor 2 2 (Finite 0)) (const_tensor 2 1 (Finite 0))
            (const_tensor 2 3 (Finite 1))"
    by (rule conjunct1)
  with p show ?thesis by simp
qed

text \<open>
  C4. \<^verbatim>\<open>prior\<close> is deterministic. On the store, with the generator of the library as
  part of the state: two calls whose inputs hold the same values, in any two stores and
  with any two generator states, have the same outcome (the same exception, or the same
  values of the mean, the standard deviation and the next deterministic state); so has a
  second call after a first one on the same inputs; the outcome is the value of the
  function \<^verbatim>\<open>prior\<close> of the parameters and the input values alone; and the call leaves
  the generator as it found it: nothing is sampled.
\<close>

theorem prior_deterministic:
  assumes "state < next_free s" "action < next_free s" "rnn_hidden < next_free s"
    and "state' < next_free s'" "action' < next_free s'" "rnn_hidden' < next_free s'"
    and "cells s' state' = cells s state" "cells s' action' = cells s action"
      "cells s' rnn_hidden' = cells s rnn_hidden"
  shows "prior_outcome (prior_store m state' action' rnn_hidden' s') =
           prior_outcome (prior_store m state action rnn_hidden s) \<and>
         prior_outcome (prior_store m state action rnn_hidden
             (snd (prior_store m state action rnn_hidden s))) =
           prior_outcome (prior_store m state action rnn_hidden s) \<and>
         prior_outcome (prior_store m state action rnn_hidden s) =
           prior m (cells s state) (cells s action) (cells s rnn_hidden) \<and>
         gen (snd (prior_store m state action rnn_hidden s)) = gen s"
proof -
  let ?s1 = "snd (prior_store m state action rnn_hidden s)"
  note a = prior_store_outcome [OF assms(1-3), of m]
  note b = prior_store_outcome(1) [OF assms(4-6), of m]
  have l: "state < next_free ?s1" "action < next_free ?s1" "rnn_hidden < next_free ?s1"
    using a(3) assms(1-3) by (auto simp: preserves_def)
  have v: "cells ?s1 state = cells s state" "cells ?s1 action = cells s action"
    "cells ?s1 rnn_hidden = cells s rnn_hidden"
    using a(3) assms(1-3) by (simp_all add: preserves_cells)
  from a(1,2) b prior_store_outcome(1) [OF l, of m] v assms(7-9) show ?thesis
    by simp
qed

theorem prior_deterministic_witness:
  "prior_outcome (prior_store (zero_RSSM 2 1 3 2 (1/10) True) 5 4 3 other_store) =
     prior_outcome (prior_store (zero_RSSM 2 1 3 2 (1/10) True) 0 2 3 example_store) \<and>
   prior_outcome (prior_store (zero_RSSM 2 1 3 2 (1/10) True) 0 2 3
       (snd (prior_store (zero_RSSM 2 1 3 2 (1/10) True) 0 2 3 example_store))) =
     prior_outcome (prior_store (zero_RSSM 2 1 3 2 (1/10) True) 0 2 3 example_store) \<and>
   prior_outcome (prior_store (zero_RSSM 2 1 3 2 (1/10) True) 0 2 3 example_store) =
     Inr (\<lparr>loc = const_tensor 2 2 (Finite 0),
            scale = const_tensor 2 2 (round32 (ln 2) + round32 (1/10))\<rparr>,
          const_tensor 2 3 (Finite (1/2))) \<and>
   gen (snd (prior_store (zero_RSSM 2 1 3 2 (1/10) True) 0 2 3 example_store)) =
     const_generator (Finite 0)"
proof -
  let ?m = "zero_RSSM 2 1 3 2 (1/10) True"
  note p = prior_example
  have "prior_outcome (prior_store ?m 5 4 3 other_store) =
           prior_outcome (prior_store ?m 0 2 3 example_store) \<and>
         prior_outcome (prior_store ?m 0 2 3 (snd (prior_store ?m 0 2 3 example_store))) =
           prior_outcome (prior_store ?m 0 2 3 example_store) \<and>
         prior_outcome (prior_store ?m 0 2 3 example_store) =
           prior ?m (cells example_store 0) (cells example_store 2) (cells example_store 3) \<and>
         gen (snd (prior_store ?m 0 2 3 example_store)) = gen example_store"
    by (rule prior_deterministic) (simp_all add: example_store_simps other_store_simps)
  then show ?thesis
    by (simp only: example_store_simps p)
qed

text \<open>
  C5. No operation of the RSSM mutates its inputs. A call of \<^verbatim>\<open>prior\<close>,
  \<^verbatim>\<open>posterior\<close> or \<^verbatim>\<open>forward\<close> leaves every object that existed before it unchanged,
  in particular the state, the action, the deterministic state and the embedded
  observation passed in, whether it returns or raises; the tensors it returns are objects
  allocated by the call. \<^verbatim>\<open>posterior\<close> does not update the deterministic state, and its
  outcome is the value of a function of the deterministic state and the embedding.
\<close>

theorem inputs_not_mutated:
  assumes "state < next_free s" "action < next_free s" "rnn_hidden < next_free s"
    "embedded_obs < next_free s"
  shows "(case prior_store m state action rnn_hidden s of
            (r, s') \<Rightarrow>
              preserves s s' \<and> cells s' state = cells s state \<and>
              cells s' action = cells s action \<and> cells s' rnn_hidden = cells s rnn_hidden \<and>
              (case r of Inl e \<Rightarrow> True
               | Inr (d, h) \<Rightarrow> fresh s s' (loc_at d) \<and> fresh s s' (scale_at d) \<and> fresh s s' h)) \<and>
         (case posterior_store m rnn_hidden embedded_obs s of
            (r, s') \<Rightarrow>
              preserves s s' \<and> cells s' rnn_hidden = cells s rnn_hidden \<and>
              cells s' embedded_obs = cells s embedded_obs \<and>
              map_sum id (Normal_value s') r =
                posterior m (cells s rnn_hidden) (cells s embedded_obs) \<and>
              (case r of Inl e \<Rightarrow> True
               | Inr d \<Rightarrow> fresh s s' (loc_at d) \<and> fresh s s' (scale_at d))) \<and>
         (case forward_store m state action rnn_hidden embedded_obs s of
            (r, s') \<Rightarrow>
              preserves s s' \<and> cells s' state = cells s state \<and>
              cells s' action = cells s action \<and> cells s' rnn_hidden = cells s rnn_hidden \<and>
              cells s' embedded_obs = cells s embedded_obs \<and>
              (case r of Inl e \<Rightarrow> True
               | Inr (dp, dq, h) \<Rightarrow>
                   fresh s s' (loc_at dp) \<and> fresh s s' (scale_at dp) \<and>
                   fresh s s' (loc_at dq) \<and> fresh s s' (scale_at dq) \<and> fresh s s' h))"
proof (intro conjI)
  show "case prior_store m state action rnn_hidden s of
            (r, s') \<Rightarrow>
              preserves s s' \<and> cells s' state = cells s state \<and>
              cells s' action = cells s action \<and> cells s' rnn_hidden = cells s rnn_hidden \<and>
              (case r of Inl e \<Rightarrow> True
               | Inr (d, h) \<Rightarrow> fresh s s' (loc_at d) \<and> fresh s s' (scale_at d) \<and> fresh s s' h)"
    using prior_store_refines [OF assms(1-3), of m] assms(1-3)
    by (auto simp: preserves_cells split: prod.splits sum.splits)
  show "case posterior_store m rnn_hidden embedded_obs s of
            (r, s') \<Rightarrow>
              preserves s s' \<and> cells s' rnn_hidden = cells s rnn_hidden \<and>
              cells s' embedded_obs = cells s embedded_obs \<and>
              map_sum id (Normal_value s') r =
                posterior m (cells s rnn_hidden) (cells s embedded_obs) \<and>
              (case r of Inl e \<Rightarrow> True
               | Inr d \<Rightarrow> fresh s s' (loc_at d) \<and> fresh s s' (scale_at d))"
    using posterior_store_refines [OF assms(3,4), of m] assms(3,4)
    by (auto simp: preserves_cells split: prod.splits sum.splits)
  show "case forward_store m state action rnn_hidden embedded_obs s of
            (r, s') \<Rightarrow>
              preserves s s' \<and> cells s' state = cells s state \<and>
              cells s' action = cells s action \<and> cells s' rnn_hidden = cells s rnn_hidden \<and>
              cells s' embedded_obs = cells s embedded_obs \<and>
              (case r of Inl e \<Rightarrow> True
               | Inr (dp, dq, h) \<Rightarrow>
                   fresh s s' (loc_at dp) \<and> fresh s s' (scale_at dp) \<and>
                   fresh s s' (loc_at dq) \<and> fresh s s' (scale_at dq) \<and> fresh s s' h)"
    using forward_store_refines [OF assms, of m] assms
    by (auto simp: preserves_cells split: prod.splits sum.splits)
qed

theorem inputs_not_mutated_witness:
  "preserves example_store (snd (prior_store (zero_RSSM 2 1 3 2 (1/10) True) 0 2 3 example_store)) \<and>
   cells (snd (prior_store (zero_RSSM 2 1 3 2 (1/10) True) 0 2 3 example_store)) 0 =
     const_tensor 2 2 (Finite 0) \<and>
   cells (snd (prior_store (zero_RSSM 2 1 3 2 (1/10) True) 0 2 3 example_store)) 2 =
     const_tensor 2 1 (Finite 0) \<and>
   cells (snd (prior_store (zero_RSSM 2 1 3 2 (1/10) True) 0 2 3 example_store)) 3 =
     const_tensor 2 3 (Finite 1) \<and>
   preserves example_store (snd (posterior_store (zero_RSSM 2 1 3 2 (1/10) True) 3 4 example_store)) \<and>
   cells (snd (posterior_store (zero_RSSM 2 1 3 2 (1/10) True) 3 4 example_store)) 3 =
     const_tensor 2 3 (Finite 1) \<and>
   cells (snd (posterior_store (zero_RSSM 2 1 3 2 (1/10) True) 3 4 example_store)) 4 =
     const_tensor 2 1024 (Finite 0) \<and>
   preserves example_store (snd (forward_store (zero_RSSM 2 1 3 2 (1/10) True) 0 2 3 4 example_store)) \<and>
   cells (snd (forward_store (zero_RSSM 2 1 3 2 (1/10) True) 0 2 3 4 example_store)) 3 =
     const_tensor 2 3 (Finite 1)"
proof -
  let ?m = "zero_RSSM 2 1 3 2 (1/10) True"
  have l: "0 < next_free example_store" "2 < next_free example_store"
    "3 < next_free example_store" "4 < next_free example_store"
    by (simp_all add: example_store_simps)
  from inputs_not_mutated [OF l, of ?m] show ?thesis
    by (simp add: case_prod_beta example_store_simps)
qed

text \<open>
  C9, as the specification states it, for every batch size B. For B = 0 the four
  convolutions return empty tensors, and the reshape, which takes B from the output of
  the third one, cannot infer the width of a tensor without elements: the call raises.
\<close>

theorem Encoder_rejects_empty_batch:
  "Encoder_conv_shapes Encoder_init (0, 3, 64, 64) =
     Inr ((0, 32, 31, 31), (0, 64, 14, 14), (0, 128, 6, 6), (0, 256, 2, 2)) \<and>
   Encoder_forward_shape Encoder_init (0, 3, 64, 64) = Inl RuntimeError"
  by (simp add: Encoder_forward_shape_def Encoder_conv_shapes_64 ebind_def reshape_rows_def)

text \<open>
  C9 as amended. The encoder maps a batch of B images, B at least 1, of shape
  (B, 3, 64, 64) to an embedding of shape (B, 1024): the four convolutions of kernel 4 and
  stride 2 take the 64 by 64 extent to 31, 14, 6 and 2, at 32, 64, 128 and 256 channels,
  and the reshape gives 256 * 2 * 2 = 1024 elements per row. For an empty batch it raises
  a RuntimeError.
\<close>

theorem Encoder_shape:
  "Encoder_conv_shapes Encoder_init (b, 3, 64, 64) =
     Inr ((b, 32, 31, 31), (b, 64, 14, 14), (b, 128, 6, 6), (b, 256, 2, 2)) \<and>
   Encoder_forward_shape Encoder_init (b, 3, 64, 64) =
     (if 0 < b then Inr (b, 1024) else Inl RuntimeError)"
  by (simp add: Encoder_forward_shape_def Encoder_conv_shapes_64 ebind_def reshape_rows_def)

theorem Encoder_shape_witness:
  "Encoder_conv_shapes Encoder_init (16, 3, 64, 64) =
     Inr ((16, 32, 31, 31), (16, 64, 14, 14), (16, 128, 6, 6), (16, 256, 2, 2)) \<and>
   Encoder_forward_shape Encoder_init (16, 3, 64, 64) = Inr (16, 1024)"
  using Encoder_shape [of 16] by simp

text \<open>
  C1, as the specification states it: the standard deviation is strictly greater than the
  floor. In \<^verbatim>\<open>float32\<close> it is not. Take the zero model with the default floor 0.1 and a
  bias of -200 on the layer of the raw standard deviation, so that every raw standard
  deviation is -200: exp(-200) is smaller than half the smallest positive number of the
  format and rounds to 0, softplus is log1p(0) = 0, and the standard deviation is the floor
  itself. The call returns, with validation on.
\<close>

theorem stddev_equals_floor:
  "RSSM_init 2 1 3 2 (1/10) F_elu (biased_RSSM 2 1 3 2 (1/10) True (Finite (- 200))) \<and>
   prior (biased_RSSM 2 1 3 2 (1/10) True (Finite (- 200))) (const_tensor 2 2 (Finite 0))
       (const_tensor 2 1 (Finite 0)) (const_tensor 2 3 (Finite 0))
     = Inr (\<lparr>loc = const_tensor 2 2 (Finite 0),
              scale = const_tensor 2 2 (min_stddev (biased_RSSM 2 1 3 2 (1/10) True (Finite (- 200))))\<rparr>,
            const_tensor 2 3 (Finite 0)) \<and>
   \<not> all_entries (\<lambda>x. min_stddev (biased_RSSM 2 1 3 2 (1/10) True (Finite (- 200))) < x)
       (const_tensor 2 2 (min_stddev (biased_RSSM 2 1 3 2 (1/10) True (Finite (- 200)))))"
proof -
  let ?m = "biased_RSSM 2 1 3 2 (1/10) True (Finite (- 200))"
  have ms: "min_stddev ?m = round32 (1/10)"
    by (simp add: biased_RSSM_def zero_RSSM_def)
  have sp: "F_softplus (Finite (- 200)) + round32 (1/10) = round32 (1/10)"
    by (simp add: F_softplus_underflow)
  have "prior ?m (const_tensor 2 2 (Finite 0)) (const_tensor 2 1 (Finite 0)) (const_tensor 2 3 (Finite 0))
      = Inr (\<lparr>loc = const_tensor 2 2 (Finite 0), scale = const_tensor 2 2 (round32 (1/10))\<rparr>,
             const_tensor 2 3 (Finite 0))"
    using floor_tenth_pos
      prior_biased [of "const_tensor 2 2 (Finite 0)" 2 "const_tensor 2 1 (Finite 0)" 2 1 0 "- 200" 3 2
        "1/10" True]
    by (simp add: const_tensor_shape all_entries_const sp)
  moreover have "\<not> all_entries (\<lambda>x. round32 (1/10) < x) (const_tensor 2 2 (round32 (1/10)))"
    by (simp add: all_entries_const f32_less_irrefl)
  ultimately show ?thesis
    unfolding ms using RSSM_init_biased [of 2 1 3 2 "1/10" True "Finite (- 200)"] by (intro conjI)
qed

text \<open>
  C1 as amended. Whenever \<^verbatim>\<open>prior\<close> or \<^verbatim>\<open>posterior\<close> returns a distribution, every entry
  of its standard deviation is at least the floor \<^verbatim>\<open>min_stddev\<close>, or is not-a-number;
  and when the library validates the arguments of a distribution, none is not-a-number:
  every entry is at least the floor, and greater than 0. The standard deviation is
  softplus(raw) + min_stddev, softplus is not negative, and rounding is monotone.
\<close>

theorem stddev_at_least_min_stddev:
  assumes "RSSM_init sd ad rd hid ms a m"
  shows "(prior m state action rnn_hidden = Inr (d, h') \<longrightarrow>
            all_entries (\<lambda>x. x = NaN \<or> min_stddev m \<le> x) (scale d) \<and>
            (validate_args m \<longrightarrow>
               all_entries (\<lambda>x. min_stddev m \<le> x \<and> Finite 0 < x) (scale d))) \<and>
         (posterior m rnn_hidden' embedded_obs = Inr d' \<longrightarrow>
            all_entries (\<lambda>x. x = NaN \<or> min_stddev m \<le> x) (scale d') \<and>
            (validate_args m \<longrightarrow>
               all_entries (\<lambda>x. min_stddev m \<le> x \<and> Finite 0 < x) (scale d')))"
proof -
  from assms have ms: "min_stddev m = round32 ms" by (simp add: RSSM_init_def)
  have entry: "F_softplus x + min_stddev m = NaN \<or> min_stddev m \<le> F_softplus x + min_stddev m" for x
  proof (cases "F_softplus x = NaN")
    case True
    then show ?thesis by simp
  next
    case False
    with F_softplus_nonneg [of x] have "Finite 0 \<le> F_softplus x" by simp
    then show ?thesis unfolding ms by (rule floor_plus)
  qed
  have floor: "all_entries (\<lambda>x. x = NaN \<or> min_stddev m \<le> x)
                 (map_tensor (\<lambda>x. F_softplus x + min_stddev m) raw)" for raw
    by (simp add: all_entries_map_tensor all_entries_True entry)
  have valid: "all_entries (\<lambda>x. min_stddev m \<le> x \<and> Finite 0 < x) t"
    if "all_entries (\<lambda>x. x = NaN \<or> min_stddev m \<le> x) t" "all_entries (\<lambda>x. Finite 0 < x) t" for t
  proof -
    from that have "all_entries (\<lambda>x. (x = NaN \<or> min_stddev m \<le> x) \<and> Finite 0 < x) t"
      by (simp add: all_entries_conj)
    then show ?thesis
      by (rule all_entries_mono [rotated]) auto
  qed
  show ?thesis
  proof (intro conjI impI)
    assume p: "prior m state action rnn_hidden = Inr (d, h')"
    then obtain mean raw where s: "scale d = map_tensor (\<lambda>x. F_softplus x + min_stddev m) raw"
      and n: "Normal_init (validate_args m) mean (scale d) = Inr d"
      unfolding prior_def Let_def by (auto simp: ebind_Inr_iff dest: Normal_init_scale)
    show f: "all_entries (\<lambda>x. x = NaN \<or> min_stddev m \<le> x) (scale d)"
      unfolding s by (rule floor)
    assume "validate_args m"
    with n have "all_entries (\<lambda>x. Finite 0 < x) (scale d)" by (simp add: Normal_init_Inr_iff)
    with f show "all_entries (\<lambda>x. min_stddev m \<le> x \<and> Finite 0 < x) (scale d)" by (rule valid)
  next
    assume p: "posterior m rnn_hidden' embedded_obs = Inr d'"
    then obtain mean raw where s: "scale d' = map_tensor (\<lambda>x. F_softplus x + min_stddev m) raw"
      and n: "Normal_init (validate_args m) mean (scale d') = Inr d'"
      unfolding posterior_def Let_def by (auto simp: ebind_Inr_iff dest: Normal_init_scale)
    show f: "all_entries (\<lambda>x. x = NaN \<or> min_stddev m \<le> x) (scale d')"
      unfolding s by (rule floor)
    assume "validate_args m"
    with n have "all_entries (\<lambda>x. Finite 0 < x) (scale d')" by (simp add: Normal_init_Inr_iff)
    with f show "all_entries (\<lambda>x. min_stddev m \<le> x \<and> Finite 0 < x) (scale d')" by (rule valid)
  qed
qed

theorem stddev_at_least_min_stddev_witness:
  "RSSM_init 2 1 3 2 (1/10) F_elu (zero_RSSM 2 1 3 2 (1/10) True) \<and>
   prior (zero_RSSM 2 1 3 2 (1/10) True) (const_tensor 2 2 (Finite 0)) (const_tensor 2 1 (Finite 0))
       (const_tensor 2 3 (Finite 1))
     = Inr (\<lparr>loc = const_tensor 2 2 (Finite 0),
              scale = const_tensor 2 2 (round32 (ln 2) + round32 (1/10))\<rparr>,
            const_tensor 2 3 (Finite (1/2))) \<and>
   posterior (zero_RSSM 2 1 3 2 (1/10) True) (const_tensor 2 3 (Finite (1/2)))
       (const_tensor 2 1024 (Finite 0))
     = Inr \<lparr>loc = const_tensor 2 2 (Finite 0),
             scale = const_tensor 2 2 (round32 (ln 2) + round32 (1/10))\<rparr> \<and>
   all_entries (\<lambda>x. round32 (1/10) \<le> x \<and> Finite 0 < x)
     (const_tensor 2 2 (round32 (ln 2) + round32 (1/10)))"
proof -
  let ?m = "zero_RSSM 2 1 3 2 (1/10) True"
  let ?d = "\<lparr>loc = const_tensor 2 2 (Finite 0),
             scale = const_tensor 2 2 (round32 (ln 2) + round32 (1/10))\<rparr>"
  have i: "RSSM_init 2 1 3 2 (1/10) F_elu ?m" by (rule RSSM_init_zero)
  note p = prior_example
  note q = posterior_example [of "1/2"]
  have ms: "min_stddev ?m = round32 (1/10)" "validate_args ?m" by (simp_all add: zero_RSSM_def)
  from stddev_at_least_min_stddev [OF i, of "const_tensor 2 2 (Finite 0)"
      "const_tensor 2 1 (Finite 0)" "const_tensor 2 3 (Finite 1)" ?d "const_tensor 2 3 (Finite (1/2))"
      "const_tensor 2 3 (Finite (1/2))" "const_tensor 2 1024 (Finite 0)" ?d] p ms(2)
  have "all_entries (\<lambda>x. min_stddev ?m \<le> x \<and> Finite 0 < x) (scale ?d)" by blast
  then have a: "all_entries (\<lambda>x. round32 (1/10) \<le> x \<and> Finite 0 < x)
                  (const_tensor 2 2 (round32 (ln 2) + round32 (1/10)))"
    unfolding ms by simp
  from i p q a show ?thesis by (intro conjI)
qed

text \<open>
  The action model of the statements below: zero weights, the defaults
  \<^verbatim>\<open>min_stddev = 1e-4\<close> and \<^verbatim>\<open>init_stddev = 5\<close>, validation on, and a bias of 32 on the
  layer of the raw standard deviation; a batch of two rows, and a generator whose draws
  are all 1.
\<close>

lemma action_example:
  "ebind (ActionModel_hidden (biased_ActionModel 2 3 1 2 (1/10000) 5 True (Finite 32))
            (const_tensor 2 2 (Finite 0)) (const_tensor 2 3 (Finite 0)))
       (ActionModel_mean_stddev (biased_ActionModel 2 3 1 2 (1/10000) 5 True (Finite 32)))
     = Inr (const_tensor 2 1 (Finite 0),
            const_tensor 2 1 (F_softplus (Finite 32 + softplus_inverse 5) + round32 (1/10000)))"
  "ActionModel_forward (biased_ActionModel 2 3 1 2 (1/10000) 5 True (Finite 32))
       (const_tensor 2 2 (Finite 0)) (const_tensor 2 3 (Finite 0)) False g
     = (Inr (const_tensor 2 1 (Finite 0)), g)"
  "ActionModel_forward (biased_ActionModel 2 3 1 2 (1/10000) 5 True (Finite 32))
       (const_tensor 2 2 (Finite 0)) (const_tensor 2 3 (Finite 0)) True (const_generator (Finite 1))
     = (Inr (const_tensor 2 1 (Finite 1)), \<lparr>noise = (\<lambda>k. Finite 1), pos = 2\<rparr>)"
proof -
  let ?am = "biased_ActionModel 2 3 1 2 (1/10000) 5 True (Finite 32)"
  let ?s = "F_softplus (Finite 32 + softplus_inverse 5) + round32 (1/10000)"
  have s: "Finite 35 \<le> ?s" by (rule large_stddev) simp
  have "Finite 0 < Finite 35" by simp
  then have pos: "Finite 0 < ?s" using s f32_less_le_trans by blast
  note f = ActionModel_forward_biased [of "const_tensor 2 2 (Finite 0)" 2 "const_tensor 2 3 (Finite 0)"
      2 3 32 ?s 5 "1/10000" 1 2 True]
  show "ebind (ActionModel_hidden ?am (const_tensor 2 2 (Finite 0)) (const_tensor 2 3 (Finite 0)))
          (ActionModel_mean_stddev ?am) = Inr (const_tensor 2 1 (Finite 0), const_tensor 2 1 ?s)"
    by (rule f(1)) (simp_all add: const_tensor_shape all_entries_const)
  show "ActionModel_forward ?am (const_tensor 2 2 (Finite 0)) (const_tensor 2 3 (Finite 0)) False g
          = (Inr (const_tensor 2 1 (Finite 0)), g)"
    by (rule f(2)) (simp_all add: const_tensor_shape all_entries_const)
  have "ActionModel_forward ?am (const_tensor 2 2 (Finite 0)) (const_tensor 2 3 (Finite 0)) True
          (const_generator (Finite 1)) =
        (if True \<and> \<not> ((2::nat) = 0 \<or> (1::nat) = 0 \<or> Finite 0 < ?s)
         then (Inl ValueError, const_generator (Finite 1))
         else (Inr (const_tensor 2 1 (torch_tanh (Finite 0 + Finite 1 * ?s))),
               \<lparr>noise = (\<lambda>k. Finite 1), pos = 2 * 1\<rparr>))"
    by (rule f(3)) (simp_all add: const_tensor_shape all_entries_const)
  then show "ActionModel_forward ?am (const_tensor 2 2 (Finite 0)) (const_tensor 2 3 (Finite 0)) True
          (const_generator (Finite 1))
        = (Inr (const_tensor 2 1 (Finite 1)), \<lparr>noise = (\<lambda>k. Finite 1), pos = 2\<rparr>)"
    by (simp add: pos saturated_sample [OF s] del: plus_f32.simps times_f32.simps)
qed




text \<open>
  C8. \<^verbatim>\<open>ActionModel.forward\<close> with \<^verbatim>\<open>training=False\<close> returns
  tanh(5 * tanh(raw_mean / 5)), where raw_mean is the output of \<^verbatim>\<open>fc_mean\<close>; it draws
  nothing from the generator and its result does not depend on the generator. With
  \<^verbatim>\<open>training=True\<close> the call builds the Gaussian whose mean is the same
  5 * tanh(raw_mean / 5) and whose standard deviation is
  softplus(raw_stddev + init_stddev) + min_stddev, and returns tanh of a reparameterized
  sample of it: loc + eps * scale, with eps drawn from the generator, which advances by
  the number of entries. An exception of a layer, or of the validation of the Gaussian,
  is the outcome of the call, and the generator is then untouched.
\<close>

theorem ActionModel_forward_modes:
  "ActionModel_forward am state rnn_hidden False g =
     (ebind (ActionModel_hidden am state rnn_hidden) (\<lambda>hidden.
      ebind (Linear_forward (fc_mean am) hidden) (\<lambda>raw_mean.
      ebind (Linear_forward (fc_stddev am) hidden) (\<lambda>raw_stddev.
      Inr (map_tensor torch_tanh
             (map_tensor (\<lambda>x. Finite 5 * torch_tanh (x / Finite 5)) raw_mean))))), g) \<and>
   fst (ActionModel_forward am state rnn_hidden False g) =
     fst (ActionModel_forward am state rnn_hidden False g') \<and>
   ActionModel_forward am state rnn_hidden True g =
     (case ebind (ActionModel_hidden am state rnn_hidden) (\<lambda>hidden.
           ebind (Linear_forward (fc_mean am) hidden) (\<lambda>raw_mean.
           ebind (Linear_forward (fc_stddev am) hidden) (\<lambda>raw_stddev.
           Normal_init (ActionModel.validate_args am)
             (map_tensor (\<lambda>x. Finite 5 * torch_tanh (x / Finite 5)) raw_mean)
             (map_tensor (\<lambda>x. F_softplus (x + init_stddev am) + ActionModel.min_stddev am)
                raw_stddev)))) of
        Inl e \<Rightarrow> (Inl e, g)
      | Inr d \<Rightarrow>
          (Inr (map_tensor torch_tanh
                  (map2_tensor (+) (loc d)
                     (map2_tensor (*) (fst (standard_normal (nrows (loc d)) (ncols (loc d)) g))
                        (scale d)))),
           g\<lparr>pos := pos g + nrows (loc d) * ncols (loc d)\<rparr>))"
proof -
  have e: "ActionModel_forward am state rnn_hidden False g0 =
     (ebind (ActionModel_hidden am state rnn_hidden) (\<lambda>hidden.
      ebind (Linear_forward (fc_mean am) hidden) (\<lambda>raw_mean.
      ebind (Linear_forward (fc_stddev am) hidden) (\<lambda>raw_stddev.
      Inr (map_tensor torch_tanh
             (map_tensor (\<lambda>x. Finite 5 * torch_tanh (x / Finite 5)) raw_mean))))), g0)" for g0
    by (simp add: ActionModel_forward_def ActionModel_mean_stddev_def ebind_def Let_def
        split: sum.splits)
  have t: "ActionModel_forward am state rnn_hidden True g =
     (case ebind (ActionModel_hidden am state rnn_hidden) (\<lambda>hidden.
           ebind (Linear_forward (fc_mean am) hidden) (\<lambda>raw_mean.
           ebind (Linear_forward (fc_stddev am) hidden) (\<lambda>raw_stddev.
           Normal_init (ActionModel.validate_args am)
             (map_tensor (\<lambda>x. Finite 5 * torch_tanh (x / Finite 5)) raw_mean)
             (map_tensor (\<lambda>x. F_softplus (x + init_stddev am) + ActionModel.min_stddev am)
                raw_stddev)))) of
        Inl e \<Rightarrow> (Inl e, g)
      | Inr d \<Rightarrow>
          (Inr (map_tensor torch_tanh
                  (map2_tensor (+) (loc d)
                     (map2_tensor (*) (fst (standard_normal (nrows (loc d)) (ncols (loc d)) g))
                        (scale d)))),
           g\<lparr>pos := pos g + nrows (loc d) * ncols (loc d)\<rparr>))"
    by (simp add: ActionModel_forward_def ActionModel_mean_stddev_def ebind_def Let_def
        rsample_def standard_normal_def split: sum.splits)
  from e [of g] e [of g'] t show ?thesis by simp
qed

theorem ActionModel_forward_modes_witness:
  "ActionModel_forward (biased_ActionModel 2 3 1 2 (1/10000) 5 True (Finite 32))
       (const_tensor 2 2 (Finite 0)) (const_tensor 2 3 (Finite 0)) False (const_generator (Finite 1))
     = (Inr (const_tensor 2 1 (Finite 0)), const_generator (Finite 1)) \<and>
   ActionModel_forward (biased_ActionModel 2 3 1 2 (1/10000) 5 True (Finite 32))
       (const_tensor 2 2 (Finite 0)) (const_tensor 2 3 (Finite 0)) True (const_generator (Finite 1))
     = (Inr (const_tensor 2 1 (Finite 1)), \<lparr>noise = (\<lambda>k. Finite 1), pos = 2\<rparr>) \<and>
   (case ebind (ActionModel_hidden (biased_ActionModel 2 3 1 2 (1/10000) 5 True (Finite 32))
                  (const_tensor 2 2 (Finite 0)) (const_tensor 2 3 (Finite 0))) (\<lambda>hidden.
         ebind (Linear_forward (fc_mean (biased_ActionModel 2 3 1 2 (1/10000) 5 True (Finite 32))) hidden)
           (\<lambda>raw_mean.
         ebind (Linear_forward (fc_stddev (biased_ActionModel 2 3 1 2 (1/10000) 5 True (Finite 32))) hidden)
           (\<lambda>raw_stddev.
         Normal_init True
           (map_tensor (\<lambda>x. Finite 5 * torch_tanh (x / Finite 5)) raw_mean)
           (map_tensor (\<lambda>x. F_softplus (x + softplus_inverse 5) + round32 (1/10000)) raw_stddev)))) of
      Inl e \<Rightarrow> (Inl e, const_generator (Finite 1))
    | Inr d \<Rightarrow>
        (Inr (map_tensor torch_tanh
                (map2_tensor (+) (loc d)
                   (map2_tensor (*)
                      (fst (standard_normal (nrows (loc d)) (ncols (loc d)) (const_generator (Finite 1))))
                      (scale d)))),
         (const_generator (Finite 1))\<lparr>pos := pos (const_generator (Finite 1)) + nrows (loc d) * ncols (loc d)\<rparr>))
     = (Inr (const_tensor 2 1 (Finite 1)), \<lparr>noise = (\<lambda>k. Finite 1), pos = 2\<rparr>)"
proof -
  let ?am = "biased_ActionModel 2 3 1 2 (1/10000) 5 True (Finite 32)"
  have f: "init_stddev ?am = softplus_inverse 5" "ActionModel.min_stddev ?am = round32 (1/10000)"
    "ActionModel.validate_args ?am = True"
    by (simp_all add: biased_ActionModel_def zero_ActionModel_def)
  note m = ActionModel_forward_modes [of ?am "const_tensor 2 2 (Finite 0)" "const_tensor 2 3 (Finite 0)"
      "const_generator (Finite 1)" "const_generator (Finite 1)", unfolded f]
  from m have m3: "ActionModel_forward ?am (const_tensor 2 2 (Finite 0)) (const_tensor 2 3 (Finite 0))
      True (const_generator (Finite 1)) =
     (case ebind (ActionModel_hidden ?am (const_tensor 2 2 (Finite 0)) (const_tensor 2 3 (Finite 0)))
         (\<lambda>hidden.
           ebind (Linear_forward (fc_mean ?am) hidden) (\<lambda>raw_mean.
           ebind (Linear_forward (fc_stddev ?am) hidden) (\<lambda>raw_stddev.
           Normal_init True
             (map_tensor (\<lambda>x. Finite 5 * torch_tanh (x / Finite 5)) raw_mean)
             (map_tensor (\<lambda>x. F_softplus (x + softplus_inverse 5) + round32 (1/10000))
                raw_stddev)))) of
        Inl e \<Rightarrow> (Inl e, const_generator (Finite 1))
      | Inr d \<Rightarrow>
          (Inr (map_tensor torch_tanh
                  (map2_tensor (+) (loc d)
                     (map2_tensor (*)
                        (fst (standard_normal (nrows (loc d)) (ncols (loc d)) (const_generator (Finite 1))))
                        (scale d)))),
           (const_generator (Finite 1))\<lparr>pos := pos (const_generator (Finite 1)) + nrows (loc d) * ncols (loc d)\<rparr>))"
    by (rule conjunct2 [THEN conjunct2])
  show ?thesis
    using action_example(2) [of "const_generator (Finite 1)"] action_example(3)
    by (simp only: m3 [symmetric] simp_thms)
qed

end
